theory Spec2Isabelle
  imports Main "HOL-Library.Multiset"
begin

chapter \<open>The embedding\<close>

section \<open>JavaScript values used by the pipeline\<close>

text \<open>
  Strings are lists of characters. The date strings, identifiers and ICS keywords the
  pipeline slices, pads and measures are ASCII; the Chinese holiday names and marker
  texts are carried as their UTF-8 bytes and are only concatenated, compared and searched
  as substrings. Numbers that hold years, days, counters and clock readings are
  integers.
\<close>

definition digit_char :: "nat \<Rightarrow> char" where
  "digit_char n = ''0123456789'' ! n"

fun string_of_nat :: "nat \<Rightarrow> string" where
  "string_of_nat n =
     (if n < 10 then [digit_char n]
      else string_of_nat (n div 10) @ [digit_char (n mod 10)])"

declare string_of_nat.simps [simp del]

text \<open>\<open>String(n)\<close> and template interpolation of an integer.\<close>

definition String_int :: "int \<Rightarrow> string" where
  "String_int i =
     (if i < 0 then CHR ''-'' # string_of_nat (nat (- i)) else string_of_nat (nat i))"

text \<open>\<open>s.padStart(n, c)\<close> for a one-character pad string.\<close>

definition padStart :: "nat \<Rightarrow> char \<Rightarrow> string \<Rightarrow> string" where
  "padStart n c s = replicate (n - length s) c @ s"

text \<open>\<open>s.slice(i, j)\<close> for \<open>0 \<le> i \<le> j\<close>.\<close>

definition slice :: "nat \<Rightarrow> nat \<Rightarrow> string \<Rightarrow> string" where
  "slice i j s = take (j - i) (drop i s)"

text \<open>\<open>s.includes(p)\<close>: \<open>p\<close> occurs in \<open>s\<close> as a contiguous substring.\<close>

fun is_prefix :: "string \<Rightarrow> string \<Rightarrow> bool" where
  "is_prefix [] s = True"
| "is_prefix (p # ps) [] = False"
| "is_prefix (p # ps) (c # cs) = (p = c \<and> is_prefix ps cs)"

fun str_includes :: "string \<Rightarrow> string \<Rightarrow> bool" where
  "str_includes [] p = (p = [])"
| "str_includes (c # cs) p = (is_prefix p (c # cs) \<or> str_includes cs p)"

text \<open>Truthiness of an optional string and of an optional boolean.\<close>

definition truthy_str :: "string option \<Rightarrow> bool" where
  "truthy_str v = (case v of None \<Rightarrow> False | Some s \<Rightarrow> s \<noteq> [])"

definition truthy_bool :: "bool option \<Rightarrow> bool" where
  "truthy_bool v = (case v of None \<Rightarrow> False | Some b \<Rightarrow> b)"

section \<open>Feed cache (src/lib/cache.ts)\<close>

text \<open>
  The class \<open>Cache\<close> keeps a \<open>Map<string, CacheItem>\<close>. Only the presence of a key and
  the item stored under it are ever observed, so the store is a partial map from keys to
  items. \<open>Date.now()\<close> is the host clock in milliseconds; each operation receives the
  instant at which it reads the clock. Mutation of \<open>this.store\<close> is made explicit: every
  operation returns the store it leaves behind.
\<close>

record 'v CacheItem =
  data :: 'v
  expiresAt :: int

type_synonym 'v Store = "string \<rightharpoonup> 'v CacheItem"

definition cache_set :: "int \<Rightarrow> string \<Rightarrow> 'v \<Rightarrow> int \<Rightarrow> 'v Store \<Rightarrow> 'v Store" where
  "cache_set now key d ttl store =
     (let expires = now + ttl in store(key \<mapsto> \<lparr>data = d, expiresAt = expires\<rparr>))"

definition cache_get :: "int \<Rightarrow> string \<Rightarrow> 'v Store \<Rightarrow> 'v option \<times> 'v Store" where
  "cache_get now key store =
     (case store key of
        None \<Rightarrow> (None, store)
      | Some item \<Rightarrow>
          if now > expiresAt item then (None, store(key := None))
          else (Some (data item), store))"

definition cache_delete :: "string \<Rightarrow> 'v Store \<Rightarrow> 'v Store" where
  "cache_delete key store = store(key := None)"

definition cache_clear :: "'v Store \<Rightarrow> 'v Store" where
  "cache_clear store = Map.empty"

definition cache_cleanup :: "int \<Rightarrow> 'v Store \<Rightarrow> 'v Store" where
  "cache_cleanup now store =
     (\<lambda>k. case store k of
             None \<Rightarrow> None
           | Some item \<Rightarrow> if now > expiresAt item then None else Some item)"

section \<open>Feed fetcher (fetchICSFromURL)\<close>

text \<open>
  The network is a parameter: \<open>net req\<close> is what \<open>fetch\<close> resolves to for the request,
  \<open>Inl\<close> when the promise rejects (transport failure). The function returns its result
  (\<open>Inl\<close> for a thrown error), the cache store it leaves behind and the list of requests
  it sent. \<open>t_get\<close> and \<open>t_set\<close> are the clock readings of \<open>cache.get\<close> and
  \<open>cache.set\<close>. The module's cache instance always holds strings.
\<close>

record Request =
  req_url :: string
  req_headers :: "(string \<times> string) list"

record Response =
  ok :: bool
  status :: int
  statusText :: string
  body :: string

datatype FetchError = TransportError string | FetchFailed string

definition fetch_request :: "string \<Rightarrow> Request" where
  "fetch_request url =
     \<lparr>req_url = url,
      req_headers = [(''User-Agent'', ''Mozilla/5.0 (compatible; CalendarBot/1.0)'')]\<rparr>"

definition fetchICSFromURL ::
  "(Request \<Rightarrow> string + Response) \<Rightarrow> int \<Rightarrow> int \<Rightarrow> string \<Rightarrow> int \<Rightarrow> string Store
     \<Rightarrow> (FetchError + string) \<times> string Store \<times> Request list" where
  "fetchICSFromURL net t_get t_set url ttl store =
     (let cacheKey = ''ics:'' @ url;
          (cached, store1) = cache_get t_get cacheKey store
      in case (if truthy_str cached then cached else None) of
           Some hit \<Rightarrow> (Inr hit, store1, [])
         | None \<Rightarrow>
           (case net (fetch_request url) of
              Inl err \<Rightarrow> (Inl (TransportError err), store1, [fetch_request url])
            | Inr response \<Rightarrow>
                if \<not> ok response then
                  (Inl (FetchFailed (''Failed to fetch ICS: '' @ String_int (status response)
                          @ '' '' @ statusText response)),
                   store1, [fetch_request url])
                else
                  (let content = body response
                   in (Inr content, cache_set t_set cacheKey content ttl store1,
                       [fetch_request url]))))"

section \<open>The Date built-in\<close>

text \<open>
  A \<open>Date\<close> object is its time value: milliseconds since 1970-01-01T00:00:00Z, with
  \<open>Invalid Date\<close> as \<open>None\<close> where it can arise. The day arithmetic follows the
  definitions of ECMA-262 (Day, DayFromYear, YearFromTime, MonthFromTime, DateFromTime,
  WeekDay, MakeDay). The host's time zone is the parameter \<open>tz\<close>, the offset of local
  time from UTC in minutes: the host is taken to keep one fixed offset, so a zone with
  daylight-saving transitions is outside the model. \<open>TimeClip\<close> is the limit of
  8.64e15 ms either side of the epoch, beyond which a time value is \<open>NaN\<close>.
\<close>

definition msPerDay :: int where
  "msPerDay = 86400000"

definition Day :: "int \<Rightarrow> int" where
  "Day t = t div msPerDay"

definition DaysInYear :: "int \<Rightarrow> int" where
  "DaysInYear y =
     (if y mod 4 \<noteq> 0 then 365
      else if y mod 100 \<noteq> 0 then 366
      else if y mod 400 \<noteq> 0 then 365
      else 366)"

definition DayFromYear :: "int \<Rightarrow> int" where
  "DayFromYear y =
     365 * (y - 1970) + (y - 1969) div 4 - (y - 1901) div 100 + (y - 1601) div 400"

text \<open>
  The year of a day number: the largest \<open>y\<close> with \<open>DayFromYear y \<le> d\<close>. It is computed
  from the mean year length of 146097/400 days and corrected by at most one year
  (lemma \<open>YearFromDay_spec\<close>).
\<close>

definition YearFromDay :: "int \<Rightarrow> int" where
  "YearFromDay d =
     (let y = 1970 + (400 * d) div 146097
      in if d < DayFromYear y then y - 1
         else if DayFromYear (y + 1) \<le> d then y + 1
         else y)"

definition InLeapYear :: "int \<Rightarrow> int" where
  "InLeapYear y = (if DaysInYear y = 366 then 1 else 0)"

definition DayWithinYear :: "int \<Rightarrow> int" where
  "DayWithinYear d = d - DayFromYear (YearFromDay d)"

text \<open>The number of days of the year that precede month \<open>m\<close> (0 = January).\<close>

definition MonthStart :: "int \<Rightarrow> int \<Rightarrow> int" where
  "MonthStart leap m =
     (if m = 0 then 0 else if m = 1 then 31
      else ([59, 90, 120, 151, 181, 212, 243, 273, 304, 334] ! nat (m - 2)) + leap)"

definition MonthFromDay :: "int \<Rightarrow> int" where
  "MonthFromDay d =
     (let w = DayWithinYear d; l = InLeapYear (YearFromDay d)
      in if w < 31 then 0
         else if w < 59 + l then 1
         else if w < 90 + l then 2
         else if w < 120 + l then 3
         else if w < 151 + l then 4
         else if w < 181 + l then 5
         else if w < 212 + l then 6
         else if w < 243 + l then 7
         else if w < 273 + l then 8
         else if w < 304 + l then 9
         else if w < 334 + l then 10
         else 11)"

definition DateFromDay :: "int \<Rightarrow> int" where
  "DateFromDay d =
     DayWithinYear d - MonthStart (InLeapYear (YearFromDay d)) (MonthFromDay d) + 1"

definition WeekDay :: "int \<Rightarrow> int" where
  "WeekDay t = (Day t + 4) mod 7"

definition MakeDay :: "int \<Rightarrow> int \<Rightarrow> int \<Rightarrow> int" where
  "MakeDay year month date =
     (let ym = year + month div 12; mn = month mod 12
      in DayFromYear ym + MonthStart (InLeapYear ym) mn + date - 1)"

definition LocalTime :: "int \<Rightarrow> int \<Rightarrow> int" where
  "LocalTime tz t = t + tz * 60000"

definition UTC :: "int \<Rightarrow> int \<Rightarrow> int" where
  "UTC tz t = t - tz * 60000"

definition TimeClip :: "int \<Rightarrow> int option" where
  "TimeClip t = (if abs t \<le> 8640000000000000 then Some t else None)"

text \<open>
  \<open>new Date(year, monthIndex, day)\<close> for whole numbers: the fields are local time, a
  year from 0 to 99 stands for 1900 + year, and a time value beyond the limit makes the
  \<open>Date\<close> invalid.
\<close>

definition Date_ymd :: "int \<Rightarrow> int \<Rightarrow> int \<Rightarrow> int \<Rightarrow> int option" where
  "Date_ymd tz year month date =
     (let yr = (if 0 \<le> year \<and> year \<le> 99 then 1900 + year else year)
      in TimeClip (UTC tz (MakeDay yr month date * msPerDay)))"

definition getFullYear :: "int \<Rightarrow> int \<Rightarrow> int" where
  "getFullYear tz t = YearFromDay (Day (LocalTime tz t))"

definition getMonth :: "int \<Rightarrow> int \<Rightarrow> int" where
  "getMonth tz t = MonthFromDay (Day (LocalTime tz t))"

definition getDate :: "int \<Rightarrow> int \<Rightarrow> int" where
  "getDate tz t = DateFromDay (Day (LocalTime tz t))"

definition getDay :: "int \<Rightarrow> int \<Rightarrow> int" where
  "getDay tz t = WeekDay (LocalTime tz t)"

text \<open>
  \<open>d.setDate(d.getDate() + 1)\<close>: the local fields are rebuilt with the day of the month
  advanced by one and the time within the day kept. The only caller steps a date that is
  below another time value, so the step passes that value before it can pass the limit.
\<close>

definition setDate_next :: "int \<Rightarrow> int \<Rightarrow> int" where
  "setDate_next tz t =
     (let l = LocalTime tz t
      in UTC tz (MakeDay (YearFromDay (Day l)) (MonthFromDay (Day l)) (DateFromDay (Day l) + 1)
                   * msPerDay + l mod msPerDay))"

text \<open>
  \<open>new Date(s)\<close> for a string. The interface documents dates as \<open>YYYY-MM-DD\<close>; that
  date-only ISO form, with a month from 01 to 12 and a day from 01 to 31, denotes
  midnight UTC of the day, a day beyond the end of the month counting on into the next
  month. What an engine makes of any other string is implementation-defined and is
  taken as \<open>Invalid Date\<close> here.
\<close>

definition digit_val :: "char \<Rightarrow> int option" where
  "digit_val c =
     (let n = (of_char c :: nat) in if 48 \<le> n \<and> n \<le> 57 then Some (int n - 48) else None)"

fun digits_val :: "string \<Rightarrow> int option" where
  "digits_val [] = None"
| "digits_val [c] = digit_val c"
| "digits_val cs =
     (case (digits_val (butlast cs), digit_val (last cs)) of
        (Some a, Some b) \<Rightarrow> Some (10 * a + b)
      | _ \<Rightarrow> None)"

definition Date_parse :: "string \<Rightarrow> int option" where
  "Date_parse s =
     (if length s = 10 \<and> s ! 4 = CHR ''-'' \<and> s ! 7 = CHR ''-'' then
        (case (digits_val (slice 0 4 s), digits_val (slice 5 7 s), digits_val (slice 8 10 s)) of
           (Some y, Some m, Some d) \<Rightarrow>
             if 1 \<le> m \<and> m \<le> 12 \<and> 1 \<le> d \<and> d \<le> 31
             then Some (MakeDay y (m - 1) d * msPerDay)
             else None
         | _ \<Rightarrow> None)
      else None)"

section \<open>Lunar festivals and Thanksgiving (src/lib/lunar-calendar.ts)\<close>

text \<open>
  \<open>Lunar.fromYmd\<close> and \<open>getSolar\<close> belong to the package lunar-javascript. They enter
  as the parameter \<open>L\<close>: for a lunar year, month and day it says whether the library
  throws, returns a falsy value, or yields a solar year, month and day.
\<close>

datatype LunarOutcome = LunarThrows | LunarFalsy | LunarSolar int int int

datatype LunarError = LibraryError | InvalidLunarDate string

definition lunarToSolar ::
  "(int \<Rightarrow> int \<Rightarrow> int \<Rightarrow> LunarOutcome) \<Rightarrow> int \<Rightarrow> int \<Rightarrow> int \<Rightarrow> LunarError + string" where
  "lunarToSolar L lunarYear lunarMonth lunarDay =
     (case L lunarYear lunarMonth lunarDay of
        LunarThrows \<Rightarrow> Inl LibraryError
      | LunarFalsy \<Rightarrow>
          Inl (InvalidLunarDate (''Invalid lunar date: '' @ String_int lunarYear @ ''-''
                 @ String_int lunarMonth @ ''-'' @ String_int lunarDay))
      | LunarSolar y m d \<Rightarrow>
          Inr (String_int y @ ''-'' @ padStart 2 CHR ''0'' (String_int m) @ ''-''
                 @ padStart 2 CHR ''0'' (String_int d)))"

record FestivalConfig =
  month :: int
  day :: int

definition festivals :: "(string \<times> FestivalConfig) list" where
  "festivals =
     [(''qixi'', \<lparr>month = 7, day = 7\<rparr>),
      (''laba'', \<lparr>month = 12, day = 8\<rparr>),
      (''xiaonian_north'', \<lparr>month = 12, day = 23\<rparr>),
      (''xiaonian_south'', \<lparr>month = 12, day = 24\<rparr>),
      (''longtaitou'', \<lparr>month = 2, day = 2\<rparr>)]"

text \<open>The \<open>try\<close>/\<open>catch\<close> turns every error of the conversion into \<open>null\<close>.\<close>

definition getLunarFestivalDate ::
  "(int \<Rightarrow> int \<Rightarrow> int \<Rightarrow> LunarOutcome) \<Rightarrow> string \<Rightarrow> int \<Rightarrow> string option" where
  "getLunarFestivalDate L festival year =
     (case map_of festivals festival of
        None \<Rightarrow> None
      | Some config \<Rightarrow>
          (let lunarYear = (if month config = 12 then year - 1 else year)
           in case lunarToSolar L lunarYear (month config) (day config) of
                Inl err \<Rightarrow> None
              | Inr s \<Rightarrow> Some s))"

text \<open>
  \<open>getDay()\<close> of an invalid \<open>Date\<close> is \<open>NaN\<close>: the test \<open>NaN <= 4\<close> is false, the sums
  \<open>1 + (11 - NaN)\<close> and \<open>NaN + 21\<close> are \<open>NaN\<close>, and \<open>toString\<close> prints it as \<open>NaN\<close>.
\<close>

definition getThanksgivingDate :: "int \<Rightarrow> int \<Rightarrow> string" where
  "getThanksgivingDate tz year =
     (let thanksgiving =
            (case Date_ymd tz year 10 1 of
               None \<Rightarrow> ''NaN''
             | Some nov1 \<Rightarrow>
                 (let dayOfWeek = getDay tz nov1;
                      firstThursday =
                        (if dayOfWeek \<le> 4 then 1 + (4 - dayOfWeek) else 1 + (11 - dayOfWeek))
                  in String_int (firstThursday + 21)))
      in String_int year @ ''-11-'' @ padStart 2 CHR ''0'' thanksgiving)"

text \<open>
  The rule in the words of the specification: \<open>weekday\<close> is the numbering, 0 for Sunday up
  to 6, of 1 November of the year, the first Thursday is day \<open>1 + ((4 - weekday) mod 7)\<close>,
  and the fourth Thursday is 21 days later.
\<close>

definition weekdayOfNovemberFirst :: "int \<Rightarrow> int" where
  "weekdayOfNovemberFirst year = WeekDay (MakeDay year 10 1 * msPerDay)"

definition fourthThursday :: "int \<Rightarrow> int" where
  "fourthThursday weekday = 1 + ((4 - weekday) mod 7) + 21"

section \<open>Supplementary holidays (extra-holidays.ts)\<close>

text \<open>
  The names and descriptions are Chinese string literals; each is written as the UTF-8
  bytes of the literal in the source, in the source's order.
\<close>

datatype Category = western | internet | professional | traditional

record Holiday =
  h_name :: string
  h_date :: string
  h_category :: Category
  h_description :: "string option"

text \<open>
  The thirteen fixed dates, in order: Valentine's Day (02-14), White Day (03-14),
  April Fools' Day (04-01), Halloween (10-31), Christmas Eve (12-24), Christmas (12-25),
  520 (05-20), Double 11 shopping festival (11-11), Double 12 shopping festival (12-12),
  Women's Day (03-08), Youth Day (05-04), Children's Day (06-01), Teachers' Day (09-10).
\<close>

definition getFixedHolidays :: "int \<Rightarrow> Holiday list" where
  "getFixedHolidays year =
     [\<lparr>h_name = [CHR 0xE6, CHR 0x83, CHR 0x85, CHR 0xE4, CHR 0xBA, CHR 0xBA, CHR 0xE8, CHR 0x8A,
                 CHR 0x82],
       h_date = String_int year @ ''-02-14'',
       h_category = western,
       h_description = Some [CHR 0xE8, CHR 0xA5, CHR 0xBF, CHR 0xE6, CHR 0x96, CHR 0xB9, CHR 0xE6, CHR 0x83,
         CHR 0x85, CHR 0xE4, CHR 0xBA, CHR 0xBA, CHR 0xE8, CHR 0x8A, CHR 0x82]\<rparr>,
      \<lparr>h_name = [CHR 0xE7, CHR 0x99, CHR 0xBD, CHR 0xE8, CHR 0x89, CHR 0xB2, CHR 0xE6, CHR 0x83,
                 CHR 0x85, CHR 0xE4, CHR 0xBA, CHR 0xBA, CHR 0xE8, CHR 0x8A, CHR 0x82],
       h_date = String_int year @ ''-03-14'',
       h_category = western,
       h_description = Some [CHR 0xE6, CHR 0x97, CHR 0xA5, CHR 0xE9, CHR 0x9F, CHR 0xA9, CHR 0xE4, CHR 0xBC,
         CHR 0xA0, CHR 0xE7, CHR 0xBB, CHR 0x9F, CHR 0xE5, CHR 0x9B, CHR 0x9E, CHR 0xE7,
         CHR 0xA4, CHR 0xBC, CHR 0xE6, CHR 0x97, CHR 0xA5]\<rparr>,
      \<lparr>h_name = [CHR 0xE6, CHR 0x84, CHR 0x9A, CHR 0xE4, CHR 0xBA, CHR 0xBA, CHR 0xE8, CHR 0x8A,
                 CHR 0x82],
       h_date = String_int year @ ''-04-01'',
       h_category = western,
       h_description = Some [CHR 0xE6, CHR 0x95, CHR 0xB4, CHR 0xE8, CHR 0x9B, CHR 0x8A, CHR 0xE7, CHR 0x8E,
         CHR 0xA9, CHR 0xE7, CHR 0xAC, CHR 0x91, CHR 0xE6, CHR 0x97, CHR 0xA5]\<rparr>,
      \<lparr>h_name = [CHR 0xE4, CHR 0xB8, CHR 0x87, CHR 0xE5, CHR 0x9C, CHR 0xA3, CHR 0xE8, CHR 0x8A,
                 CHR 0x82],
       h_date = String_int year @ ''-10-31'',
       h_category = western,
       h_description = Some [CHR 0xE8, CHR 0xA5, CHR 0xBF, CHR 0xE6, CHR 0x96, CHR 0xB9, CHR 0xE9, CHR 0xAC,
         CHR 0xBC, CHR 0xE8, CHR 0x8A, CHR 0x82]\<rparr>,
      \<lparr>h_name = [CHR 0xE5, CHR 0xB9, CHR 0xB3, CHR 0xE5, CHR 0xAE, CHR 0x89, CHR 0xE5, CHR 0xA4,
                 CHR 0x9C],
       h_date = String_int year @ ''-12-24'',
       h_category = western,
       h_description = Some [CHR 0xE5, CHR 0x9C, CHR 0xA3, CHR 0xE8, CHR 0xAF, CHR 0x9E, CHR 0xE8, CHR 0x8A,
         CHR 0x82, CHR 0xE5, CHR 0x89, CHR 0x8D, CHR 0xE5, CHR 0xA4, CHR 0x95]\<rparr>,
      \<lparr>h_name = [CHR 0xE5, CHR 0x9C, CHR 0xA3, CHR 0xE8, CHR 0xAF, CHR 0x9E, CHR 0xE8, CHR 0x8A,
                 CHR 0x82],
       h_date = String_int year @ ''-12-25'',
       h_category = western,
       h_description = Some [CHR 0xE8, CHR 0xA5, CHR 0xBF, CHR 0xE6, CHR 0x96, CHR 0xB9, CHR 0xE5, CHR 0x9C,
         CHR 0xA3, CHR 0xE8, CHR 0xAF, CHR 0x9E, CHR 0xE8, CHR 0x8A, CHR 0x82]\<rparr>,
      \<lparr>h_name = ''520'',
       h_date = String_int year @ ''-05-20'',
       h_category = internet,
       h_description = Some [CHR 0x22, CHR 0xE6, CHR 0x88, CHR 0x91, CHR 0xE7, CHR 0x88, CHR 0xB1, CHR 0xE4,
         CHR 0xBD, CHR 0xA0, CHR 0x22, CHR 0xE8, CHR 0xB0, CHR 0x90, CHR 0xE9, CHR 0x9F,
         CHR 0xB3, CHR 0xE6, CHR 0x97, CHR 0xA5]\<rparr>,
      \<lparr>h_name = [CHR 0xE5, CHR 0x8F, CHR 0x8C, CHR 0x31, CHR 0x31, CHR 0xE8, CHR 0xB4, CHR 0xAD,
                 CHR 0xE7, CHR 0x89, CHR 0xA9, CHR 0xE8, CHR 0x8A, CHR 0x82],
       h_date = String_int year @ ''-11-11'',
       h_category = internet,
       h_description = Some [CHR 0xE5, CHR 0x85, CHR 0x89, CHR 0xE6, CHR 0xA3, CHR 0x8D, CHR 0xE8, CHR 0x8A,
         CHR 0x82, CHR 0x2F, CHR 0xE8, CHR 0xB4, CHR 0xAD, CHR 0xE7, CHR 0x89, CHR 0xA9,
         CHR 0xE7, CHR 0x8B, CHR 0x82, CHR 0xE6, CHR 0xAC, CHR 0xA2, CHR 0xE8, CHR 0x8A,
         CHR 0x82]\<rparr>,
      \<lparr>h_name = [CHR 0xE5, CHR 0x8F, CHR 0x8C, CHR 0x31, CHR 0x32, CHR 0xE8, CHR 0xB4, CHR 0xAD,
                 CHR 0xE7, CHR 0x89, CHR 0xA9, CHR 0xE8, CHR 0x8A, CHR 0x82],
       h_date = String_int year @ ''-12-12'',
       h_category = internet,
       h_description = Some [CHR 0xE5, CHR 0xB9, CHR 0xB4, CHR 0xE7, CHR 0xBB, CHR 0x88, CHR 0xE8, CHR 0xB4,
         CHR 0xAD, CHR 0xE7, CHR 0x89, CHR 0xA9, CHR 0xE8, CHR 0x8A, CHR 0x82]\<rparr>,
      \<lparr>h_name = [CHR 0xE5, CHR 0xA6, CHR 0x87, CHR 0xE5, CHR 0xA5, CHR 0xB3, CHR 0xE8, CHR 0x8A,
                 CHR 0x82],
       h_date = String_int year @ ''-03-08'',
       h_category = professional,
       h_description = Some [CHR 0xE5, CHR 0x9B, CHR 0xBD, CHR 0xE9, CHR 0x99, CHR 0x85, CHR 0xE5, CHR 0xA6,
         CHR 0x87, CHR 0xE5, CHR 0xA5, CHR 0xB3, CHR 0xE8, CHR 0x8A, CHR 0x82]\<rparr>,
      \<lparr>h_name = [CHR 0xE9, CHR 0x9D, CHR 0x92, CHR 0xE5, CHR 0xB9, CHR 0xB4, CHR 0xE8, CHR 0x8A,
                 CHR 0x82],
       h_date = String_int year @ ''-05-04'',
       h_category = professional,
       h_description = Some [CHR 0xE4, CHR 0xBA, CHR 0x94, CHR 0xE5, CHR 0x9B, CHR 0x9B, CHR 0xE9, CHR 0x9D,
         CHR 0x92, CHR 0xE5, CHR 0xB9, CHR 0xB4, CHR 0xE8, CHR 0x8A, CHR 0x82]\<rparr>,
      \<lparr>h_name = [CHR 0xE5, CHR 0x84, CHR 0xBF, CHR 0xE7, CHR 0xAB, CHR 0xA5, CHR 0xE8, CHR 0x8A,
                 CHR 0x82],
       h_date = String_int year @ ''-06-01'',
       h_category = professional,
       h_description = Some [CHR 0xE5, CHR 0x9B, CHR 0xBD, CHR 0xE9, CHR 0x99, CHR 0x85, CHR 0xE5, CHR 0x84,
         CHR 0xBF, CHR 0xE7, CHR 0xAB, CHR 0xA5, CHR 0xE8, CHR 0x8A, CHR 0x82]\<rparr>,
      \<lparr>h_name = [CHR 0xE6, CHR 0x95, CHR 0x99, CHR 0xE5, CHR 0xB8, CHR 0x88, CHR 0xE8, CHR 0x8A,
                 CHR 0x82],
       h_date = String_int year @ ''-09-10'',
       h_category = professional,
       h_description = Some [CHR 0xE4, CHR 0xB8, CHR 0xAD, CHR 0xE5, CHR 0x9B, CHR 0xBD, CHR 0xE6, CHR 0x95,
         CHR 0x99, CHR 0xE5, CHR 0xB8, CHR 0x88, CHR 0xE8, CHR 0x8A, CHR 0x82]\<rparr>]"

definition getFloatingHolidays :: "int \<Rightarrow> int \<Rightarrow> Holiday list" where
  "getFloatingHolidays tz year =
     [\<lparr>h_name = [CHR 0xE6, CHR 0x84, CHR 0x9F, CHR 0xE6, CHR 0x81, CHR 0xA9, CHR 0xE8, CHR 0x8A,
                 CHR 0x82],
       h_date = getThanksgivingDate tz year,
       h_category = western,
       h_description = Some [CHR 0xE7, CHR 0xBE, CHR 0x8E, CHR 0xE5, CHR 0x9B, CHR 0xBD, CHR 0xE6, CHR 0x84,
         CHR 0x9F, CHR 0xE6, CHR 0x81, CHR 0xA9, CHR 0xE8, CHR 0x8A, CHR 0x82]\<rparr>]"

text \<open>
  The lunar festivals, in order: Qixi (qixi), Laba (laba), Little New Year of the north
  (xiaonian_north), Little New Year of the south (xiaonian_south), Longtaitou
  (longtaitou).
  Each is pushed only when its date resolved to a non-empty string.
\<close>

text \<open>\<open>if (d) { holidays.push(mk(d)) }\<close> for a date \<open>d\<close> of type \<open>string | null\<close>.\<close>

definition push_if :: "string option \<Rightarrow> (string \<Rightarrow> Holiday) \<Rightarrow> Holiday list \<Rightarrow> Holiday list" where
  "push_if d mk holidays =
     (case d of
        None \<Rightarrow> holidays
      | Some s \<Rightarrow> if s \<noteq> [] then holidays @ [mk s] else holidays)"

definition getLunarHolidays :: "(int \<Rightarrow> int \<Rightarrow> int \<Rightarrow> LunarOutcome) \<Rightarrow> int \<Rightarrow> Holiday list" where
  "getLunarHolidays L year =
    (let holidays0 = [];
         holidays1 =
       push_if (getLunarFestivalDate L ''qixi'' year)
         (\<lambda>d. \<lparr>h_name = [CHR 0xE4, CHR 0xB8, CHR 0x83, CHR 0xE5, CHR 0xA4, CHR 0x95, CHR 0xE8, CHR 0x8A,
                         CHR 0x82],
               h_date = d, h_category = traditional,
               h_description = Some [CHR 0xE4, CHR 0xB8, CHR 0xAD, CHR 0xE5, CHR 0x9B, CHR 0xBD, CHR 0xE6, CHR 0x83,
                 CHR 0x85, CHR 0xE4, CHR 0xBA, CHR 0xBA, CHR 0xE8, CHR 0x8A, CHR 0x82]\<rparr>)
         holidays0;
         holidays2 =
       push_if (getLunarFestivalDate L ''laba'' year)
         (\<lambda>d. \<lparr>h_name = [CHR 0xE8, CHR 0x85, CHR 0x8A, CHR 0xE5, CHR 0x85, CHR 0xAB, CHR 0xE8, CHR 0x8A,
                         CHR 0x82],
               h_date = d, h_category = traditional,
               h_description = Some [CHR 0xE5, CHR 0x86, CHR 0x9C, CHR 0xE5, CHR 0x8E, CHR 0x86, CHR 0xE8, CHR 0x85,
                 CHR 0x8A, CHR 0xE6, CHR 0x9C, CHR 0x88, CHR 0xE5, CHR 0x88, CHR 0x9D, CHR 0xE5,
                 CHR 0x85, CHR 0xAB]\<rparr>)
         holidays1;
         holidays3 =
       push_if (getLunarFestivalDate L ''xiaonian_north'' year)
         (\<lambda>d. \<lparr>h_name = [CHR 0xE5, CHR 0xB0, CHR 0x8F, CHR 0xE5, CHR 0xB9, CHR 0xB4, CHR 0xEF, CHR 0xBC,
                         CHR 0x88, CHR 0xE5, CHR 0x8C, CHR 0x97, CHR 0xE6, CHR 0x96, CHR 0xB9, CHR 0xEF,
                         CHR 0xBC, CHR 0x89],
               h_date = d, h_category = traditional,
               h_description = Some [CHR 0xE5, CHR 0x86, CHR 0x9C, CHR 0xE5, CHR 0x8E, CHR 0x86, CHR 0xE8, CHR 0x85,
                 CHR 0x8A, CHR 0xE6, CHR 0x9C, CHR 0x88, CHR 0xE4, CHR 0xBA, CHR 0x8C, CHR 0xE5,
                 CHR 0x8D, CHR 0x81, CHR 0xE4, CHR 0xB8, CHR 0x89]\<rparr>)
         holidays2;
         holidays4 =
       push_if (getLunarFestivalDate L ''xiaonian_south'' year)
         (\<lambda>d. \<lparr>h_name = [CHR 0xE5, CHR 0xB0, CHR 0x8F, CHR 0xE5, CHR 0xB9, CHR 0xB4, CHR 0xEF, CHR 0xBC,
                         CHR 0x88, CHR 0xE5, CHR 0x8D, CHR 0x97, CHR 0xE6, CHR 0x96, CHR 0xB9, CHR 0xEF,
                         CHR 0xBC, CHR 0x89],
               h_date = d, h_category = traditional,
               h_description = Some [CHR 0xE5, CHR 0x86, CHR 0x9C, CHR 0xE5, CHR 0x8E, CHR 0x86, CHR 0xE8, CHR 0x85,
                 CHR 0x8A, CHR 0xE6, CHR 0x9C, CHR 0x88, CHR 0xE4, CHR 0xBA, CHR 0x8C, CHR 0xE5,
                 CHR 0x8D, CHR 0x81, CHR 0xE5, CHR 0x9B, CHR 0x9B]\<rparr>)
         holidays3;
         holidays5 =
       push_if (getLunarFestivalDate L ''longtaitou'' year)
         (\<lambda>d. \<lparr>h_name = [CHR 0xE9, CHR 0xBE, CHR 0x99, CHR 0xE6, CHR 0x8A, CHR 0xAC, CHR 0xE5, CHR 0xA4,
                         CHR 0xB4],
               h_date = d, h_category = traditional,
               h_description = Some [CHR 0xE5, CHR 0x86, CHR 0x9C, CHR 0xE5, CHR 0x8E, CHR 0x86, CHR 0xE4, CHR 0xBA,
                 CHR 0x8C, CHR 0xE6, CHR 0x9C, CHR 0x88, CHR 0xE5, CHR 0x88, CHR 0x9D, CHR 0xE4,
                 CHR 0xBA, CHR 0x8C]\<rparr>)
         holidays4
     in holidays5)"

definition getExtraHolidays ::
  "(int \<Rightarrow> int \<Rightarrow> int \<Rightarrow> LunarOutcome) \<Rightarrow> int \<Rightarrow> int \<Rightarrow> Holiday list" where
  "getExtraHolidays L tz year =
     getFixedHolidays year @ getFloatingHolidays tz year @ getLunarHolidays L year"

text \<open>The loop \<open>for (year = startYear; year <= endYear; year++)\<close>.\<close>

function getExtraHolidaysForYears ::
  "(int \<Rightarrow> int \<Rightarrow> int \<Rightarrow> LunarOutcome) \<Rightarrow> int \<Rightarrow> int \<Rightarrow> int \<Rightarrow> Holiday list" where
  "getExtraHolidaysForYears L tz startYear endYear =
     (if startYear \<le> endYear
      then getExtraHolidays L tz startYear @ getExtraHolidaysForYears L tz (startYear + 1) endYear
      else [])"
  by pat_completeness auto
termination
  by (relation "measure (\<lambda>(L, tz, startYear, endYear). nat (endYear + 1 - startYear))") auto

declare getExtraHolidaysForYears.simps [simp del]

section \<open>Calendar events: splitting and merging (ics-parser.ts)\<close>

datatype Source = icloud | extra

text \<open>
  The optional fields of \<open>CalendarEvent\<close> are options; a key that is absent and a key
  holding \<open>undefined\<close> are both \<open>None\<close>.
\<close>

record CalendarEvent =
  uid :: string
  summary :: string
  date :: string
  endDate :: "string option"
  description :: "string option"
  isHoliday :: "bool option"
  isWorkday :: "bool option"
  category :: "string option"
  source :: Source

definition formatDateString :: "int \<Rightarrow> int \<Rightarrow> string" where
  "formatDateString tz d =
     (let year = getFullYear tz d;
          mon = padStart 2 CHR ''0'' (String_int (getMonth tz d + 1));
          dd = padStart 2 CHR ''0'' (String_int (getDate tz d))
      in String_int year @ ''-'' @ mon @ ''-'' @ dd)"

text \<open>Advancing the day of the month by one adds one day to the time value.\<close>

lemma MonthFromDay_range: "0 \<le> MonthFromDay d \<and> MonthFromDay d \<le> 11"
  by (simp add: MonthFromDay_def Let_def)

lemma MakeDay_fields_next:
  "MakeDay (YearFromDay d) (MonthFromDay d) (DateFromDay d + 1) = d + 1"
proof -
  have "MonthFromDay d div 12 = 0" "MonthFromDay d mod 12 = MonthFromDay d"
    using MonthFromDay_range [of d] by simp_all
  then show ?thesis
    by (simp add: MakeDay_def DateFromDay_def DayWithinYear_def Let_def)
qed

lemma setDate_next_eq: "setDate_next tz t = t + msPerDay"
proof -
  define l where "l = t + tz * 60000"
  have "(l div msPerDay + 1) * msPerDay + l mod msPerDay = l + msPerDay"
    by (simp add: algebra_simps)
  then show ?thesis
    by (simp add: setDate_next_def LocalTime_def UTC_def Let_def MakeDay_fields_next Day_def
        l_def)
qed

text \<open>
  The \<open>while (current < end)\<close> loop of \<open>splitMultiDayEvent\<close>, returning the events it
  pushes; \<open>end\<close> is \<open>e\<close>.
\<close>

function splitLoop :: "int \<Rightarrow> CalendarEvent \<Rightarrow> int \<Rightarrow> int \<Rightarrow> nat \<Rightarrow> CalendarEvent list" where
  "splitLoop tz event e current dayIndex =
     (if current < e
      then event\<lparr>uid := uid event @ ''-day'' @ String_int (int dayIndex),
                 date := formatDateString tz current,
                 endDate := None\<rparr>
           # splitLoop tz event e (setDate_next tz current) (dayIndex + 1)
      else [])"
  by pat_completeness auto
termination
  by (relation "measure (\<lambda>(tz, event, e, current, dayIndex). nat (e - current))")
     (auto simp: setDate_next_eq msPerDay_def)

declare splitLoop.simps [simp del]

text \<open>
  \<open>!event.endDate\<close> holds for an absent and for an empty end date. A comparison with
  \<open>Invalid Date\<close> is false, so the loop body never runs when either date is invalid.
\<close>

definition splitMultiDayEvent :: "int \<Rightarrow> CalendarEvent \<Rightarrow> CalendarEvent list" where
  "splitMultiDayEvent tz event =
     (case endDate event of
        None \<Rightarrow> [event\<lparr>endDate := None\<rparr>]
      | Some ed \<Rightarrow>
          if ed = [] \<or> date event = ed then [event\<lparr>endDate := None\<rparr>]
          else
            (case (Date_parse (date event), Date_parse ed) of
               (Some start, Some e) \<Rightarrow> splitLoop tz event e start 0
             | _ \<Rightarrow> []))"

definition category_string :: "Category \<Rightarrow> string" where
  "category_string c =
     (case c of western \<Rightarrow> ''western'' | internet \<Rightarrow> ''internet''
      | professional \<Rightarrow> ''professional'' | traditional \<Rightarrow> ''traditional'')"

definition holidayToEvent :: "Holiday \<Rightarrow> CalendarEvent" where
  "holidayToEvent holiday =
     \<lparr>uid = ''extra-'' @ h_name holiday @ ''-'' @ h_date holiday,
      summary = h_name holiday,
      date = h_date holiday,
      endDate = None,
      description = h_description holiday,
      isHoliday = None,
      isWorkday = None,
      category = Some (category_string (h_category holiday)),
      source = extra\<rparr>"

text \<open>
  A JavaScript \<open>Map\<close> keeps its entries in the order in which their keys were first
  inserted; setting an existing key replaces the value in place.
\<close>

fun Map_set :: "'k \<Rightarrow> 'v \<Rightarrow> ('k \<times> 'v) list \<Rightarrow> ('k \<times> 'v) list" where
  "Map_set k v [] = [(k, v)]"
| "Map_set k v ((k', v') # m) = (if k = k' then (k, v) # m else (k', v') # Map_set k v m)"

definition Map_values :: "('k \<times> 'v) list \<Rightarrow> 'v list" where
  "Map_values m = map snd m"

text \<open>
  \<open>Array.prototype.sort\<close> with a comparator is stable: an element moves in front of
  another only when the comparator says it is smaller.
\<close>

fun insert_by :: "('a \<Rightarrow> 'a \<Rightarrow> int) \<Rightarrow> 'a \<Rightarrow> 'a list \<Rightarrow> 'a list" where
  "insert_by cmp x [] = [x]"
| "insert_by cmp x (y # ys) = (if cmp x y \<le> 0 then x # y # ys else y # insert_by cmp x ys)"

definition Array_sort :: "('a \<Rightarrow> 'a \<Rightarrow> int) \<Rightarrow> 'a list \<Rightarrow> 'a list" where
  "Array_sort cmp xs = foldr (insert_by cmp) xs []"

text \<open>The key under which \<open>mergeEvents\<close> files an event.\<close>

definition eventKey :: "CalendarEvent \<Rightarrow> string" where
  "eventKey event = date event @ ''-'' @ summary event"

text \<open>
  \<open>localeCompare\<close> depends on the host's collation and is a parameter. The events of the
  feed are passed as they come: \<open>mergeEvents\<close> does not touch their \<open>source\<close>.
\<close>

definition mergeEvents ::
  "(int \<Rightarrow> int \<Rightarrow> int \<Rightarrow> LunarOutcome) \<Rightarrow> int \<Rightarrow> (string \<Rightarrow> string \<Rightarrow> int)
     \<Rightarrow> CalendarEvent list \<Rightarrow> int \<Rightarrow> int \<Rightarrow> CalendarEvent list" where
  "mergeEvents L tz localeCompare icloudEvents startYear endYear =
     (let extraHolidays = getExtraHolidaysForYears L tz startYear endYear;
          extraEvents = map holidayToEvent extraHolidays;
          splitIcloudEvents = concat (map (splitMultiDayEvent tz) icloudEvents);
          eventMap0 = foldl (\<lambda>m event. Map_set (eventKey event) event m) [] extraEvents;
          eventMap = foldl (\<lambda>m event. Map_set (eventKey event) event m) eventMap0
                       splitIcloudEvents
      in Array_sort (\<lambda>a b. localeCompare (date a) (date b)) (Map_values eventMap))"

text \<open>
  The values of the map that \<open>mergeEvents\<close> builds: the supplementary events are set
  first, the split events of the feed after them.
\<close>

definition mergedValues :: "CalendarEvent list \<Rightarrow> CalendarEvent list \<Rightarrow> CalendarEvent list" where
  "mergedValues extraEvents splitIcloudEvents =
     Map_values (foldl (\<lambda>m event. Map_set (eventKey event) event m) []
                   (extraEvents @ splitIcloudEvents))"

text \<open>
  An event of the feed used in the examples: three days of holiday from 1 October 2024,
  with the exclusive end date 4 October.
\<close>

definition nationalDay :: CalendarEvent where
  "nationalDay =
     \<lparr>uid = ''a'', summary = ''National Day'', date = ''2024-10-01'',
      endDate = Some ''2024-10-04'', description = None, isHoliday = Some True,
      isWorkday = Some False, category = None, source = icloud\<rparr>"

text \<open>
  A lunar library and a collation for the examples. The library knows the five festival
  dates that fall in the solar year 2024 and throws on every other date; the collation
  orders strings by their code units, as \<open>localeCompare\<close> orders dates of the form
  \<open>YYYY-MM-DD\<close>.
\<close>

definition lunar2024 :: "int \<Rightarrow> int \<Rightarrow> int \<Rightarrow> LunarOutcome" where
  "lunar2024 y m d =
     (if (y, m, d) = (2023, 12, 8) then LunarSolar 2024 1 18
      else if (y, m, d) = (2023, 12, 23) then LunarSolar 2024 2 2
      else if (y, m, d) = (2023, 12, 24) then LunarSolar 2024 2 3
      else if (y, m, d) = (2024, 2, 2) then LunarSolar 2024 3 11
      else if (y, m, d) = (2024, 7, 7) then LunarSolar 2024 8 10
      else LunarThrows)"

fun codeUnitCompare :: "string \<Rightarrow> string \<Rightarrow> int" where
  "codeUnitCompare [] [] = 0"
| "codeUnitCompare [] (y # ys) = - 1"
| "codeUnitCompare (x # xs) [] = 1"
| "codeUnitCompare (x # xs) (y # ys) =
     (if (of_char x :: nat) < of_char y then - 1
      else if (of_char y :: nat) < of_char x then 1
      else codeUnitCompare xs ys)"

text \<open>
  Valentine's Day as an event of the feed: the summary is the name of the first fixed
  supplementary holiday.
\<close>

definition valentine :: CalendarEvent where
  "valentine =
     \<lparr>uid = ''v1'',
      summary = [CHR 0xE6, CHR 0x83, CHR 0x85, CHR 0xE4, CHR 0xBA, CHR 0xBA, CHR 0xE8, CHR 0x8A,
                 CHR 0x82],
      date = ''2024-02-14'', endDate = None, description = None, isHoliday = Some False,
      isWorkday = Some False, category = None, source = icloud\<rparr>"

text \<open>
  An event whose date is not of the form \<open>YYYY-MM-DD\<close>: with its summary, which begins
  with \<open>14-\<close>, it yields the key string of Valentine's day.
\<close>

definition februaryNote :: CalendarEvent where
  "februaryNote =
     \<lparr>uid = ''v2'', summary = ''14-'' @ summary valentine, date = ''2024-02'',
      endDate = None, description = None, isHoliday = Some False, isWorkday = Some False,
      category = None, source = icloud\<rparr>"



section \<open>Serializing the feed (generateICS)\<close>

fun join :: "string \<Rightarrow> string list \<Rightarrow> string" where
  "join sep [] = []"
| "join sep [l] = l"
| "join sep (l # k # ls) = l @ sep @ join sep (k # ls)"

definition CRLF :: string where
  "CRLF = [CHR 0x0D, CHR 0x0A]"

text \<open>\<open>formatDateToICS\<close> prints the UTC fields of the time value.\<close>

definition formatDateToICS :: "int \<Rightarrow> string" where
  "formatDateToICS t =
     (let year = YearFromDay (Day t);
          mon = padStart 2 CHR ''0'' (String_int (MonthFromDay (Day t) + 1));
          dd = padStart 2 CHR ''0'' (String_int (DateFromDay (Day t)));
          hour = padStart 2 CHR ''0'' (String_int ((t div 3600000) mod 24));
          minute = padStart 2 CHR ''0'' (String_int ((t div 60000) mod 60));
          second = padStart 2 CHR ''0'' (String_int ((t div 1000) mod 60))
      in String_int year @ mon @ dd @ ''T'' @ hour @ minute @ second @ ''Z'')"

text \<open>\<open>s.replace(/-/g, '')\<close>.\<close>

definition removeHyphens :: "string \<Rightarrow> string" where
  "removeHyphens s = filter (\<lambda>c. c \<noteq> CHR ''-'') s"

text \<open>
  The lines pushed for one event; \<open>now\<close> is the clock reading of \<open>new Date()\<close> in this
  iteration. The three conditional pushes come first.
\<close>

definition dtendLines :: "CalendarEvent \<Rightarrow> string list" where
  "dtendLines event =
     (case endDate event of
        None \<Rightarrow> []
      | Some ed \<Rightarrow> if ed \<noteq> [] then [''DTEND;VALUE=DATE:'' @ removeHyphens ed] else [])"

definition descriptionLines :: "CalendarEvent \<Rightarrow> string list" where
  "descriptionLines event =
     (case description event of
        None \<Rightarrow> []
      | Some d \<Rightarrow> if d \<noteq> [] then [''DESCRIPTION:'' @ d] else [])"

definition specialDayLines :: "CalendarEvent \<Rightarrow> string list" where
  "specialDayLines event =
     (if truthy_bool (isHoliday event) then [''X-APPLE-SPECIAL-DAY:WORK-HOLIDAY'']
      else if truthy_bool (isWorkday event) then [''X-APPLE-SPECIAL-DAY:ALTERNATE-WORKDAY'']
      else [])"

definition eventLines :: "int \<Rightarrow> CalendarEvent \<Rightarrow> string list" where
  "eventLines now event =
     [''BEGIN:VEVENT'',
      ''UID:'' @ uid event,
      ''DTSTAMP:'' @ formatDateToICS now,
      ''DTSTART;VALUE=DATE:'' @ removeHyphens (date event)]
     @ dtendLines event
     @ [''SUMMARY;LANGUAGE=zh_CN:'' @ summary event]
     @ descriptionLines event
     @ [''CLASS:PUBLIC'', ''TRANSP:TRANSPARENT'']
     @ specialDayLines event
     @ [''END:VEVENT'']"

text \<open>
  The loop over the events; \<open>clock i\<close> is the clock reading in the iteration for the
  event at index \<open>i\<close>.
\<close>

fun eventsLines :: "(nat \<Rightarrow> int) \<Rightarrow> nat \<Rightarrow> CalendarEvent list \<Rightarrow> string list" where
  "eventsLines clock i [] = []"
| "eventsLines clock i (event # events) =
     eventLines (clock i) event @ eventsLines clock (i + 1) events"

definition icsLines :: "(nat \<Rightarrow> int) \<Rightarrow> CalendarEvent list \<Rightarrow> string \<Rightarrow> string list" where
  "icsLines clock events calendarName =
     [''BEGIN:VCALENDAR'',
      ''VERSION:2.0'',
      ''PRODID:-//Holiday Calendar//CN'',
      ''CALSCALE:GREGORIAN'',
      ''X-WR-CALNAME:'' @ calendarName,
      ''X-APPLE-LANGUAGE:zh'',
      ''X-APPLE-REGION:CN'']
     @ eventsLines clock 0 events
     @ [''END:VCALENDAR'']"

definition generateICS :: "(nat \<Rightarrow> int) \<Rightarrow> CalendarEvent list \<Rightarrow> string \<Rightarrow> string" where
  "generateICS clock events calendarName = join CRLF (icsLines clock events calendarName)"

section \<open>The ical.js library, as parseICS uses it\<close>

text \<open>
  \<open>ICAL.parse\<close>, \<open>ICAL.Component\<close> and \<open>ICAL.Event\<close> belong to the package ical.js, not
  to this repository. What follows models the part of it that \<open>parseICS\<close> exercises, in
  its default (non-strict) mode: the split of the text into content lines, the split of
  a content line into name, parameters and value, the component tree, the value types of
  the properties and the decoding of text and date values. Not modelled, and never
  written by \<open>generateICS\<close>: quoted parameter values, multi-valued and structured
  properties, and numbers with trailing garbage (read here as an error).
\<close>

definition isBlank :: "char \<Rightarrow> bool" where
  "isBlank c = (c = CHR '' '' \<or> c = CHR 0x09)"

definition isSpace :: "char \<Rightarrow> bool" where
  "isSpace c = (c \<in> set [CHR '' '', CHR 0x09, CHR 0x0A, CHR 0x0B, CHR 0x0C, CHR 0x0D])"

definition trim :: "string \<Rightarrow> string" where
  "trim s = rev (dropWhile isSpace (rev (dropWhile isSpace s)))"

definition lowerChar :: "char \<Rightarrow> char" where
  "lowerChar c =
     (case map_of (zip ''ABCDEFGHIJKLMNOPQRSTUVWXYZ'' ''abcdefghijklmnopqrstuvwxyz'') c of
        Some l \<Rightarrow> l
      | None \<Rightarrow> c)"

definition toLowerCase :: "string \<Rightarrow> string" where
  "toLowerCase s = map lowerChar s"

text \<open>\<open>s.split(d)\<close>: the pieces of a string between the occurrences of a character.\<close>

fun splitOn :: "char \<Rightarrow> string \<Rightarrow> string list" where
  "splitOn d [] = [[]]"
| "splitOn d (c # cs) =
     (if c = d then [] # splitOn d cs
      else (case splitOn d cs of [] \<Rightarrow> [[c]] | r # rs \<Rightarrow> (c # r) # rs))"

definition stripCR :: "string \<Rightarrow> string" where
  "stripCR s = (if s \<noteq> [] \<and> last s = CHR 0x0D then butlast s else s)"

text \<open>
  \<open>_eachLine\<close>: leading blanks of the buffer are skipped; a piece that ends at a line
  feed loses a carriage return before it; a piece that starts with a blank continues
  the line before it; empty lines are dropped and the last line is trimmed.
\<close>

definition pieces :: "string \<Rightarrow> string list" where
  "pieces buffer =
     (let segs = splitOn CHR 0x0A (dropWhile isBlank buffer)
      in map stripCR (butlast segs) @ (if last segs = [] then [] else [last segs]))"

definition lineStep :: "string list \<times> string \<Rightarrow> string \<Rightarrow> string list \<times> string" where
  "lineStep st piece =
     (case st of (out, line) \<Rightarrow>
        if piece \<noteq> [] \<and> isBlank (hd piece) then (out, line @ tl piece)
        else ((if line \<noteq> [] then out @ [line] else out), piece))"

definition eachLine :: "string \<Rightarrow> string list" where
  "eachLine buffer =
     (case foldl lineStep ([], []) (pieces buffer) of (out, line) \<Rightarrow>
        if trim line \<noteq> [] then out @ [trim line] else out)"

text \<open>
  \<open>_handleContentLine\<close>: the name ends at the first \<open>;\<close> or \<open>:\<close>. Parameters are
  \<open>name=value\<close> items separated by \<open>;\<close> up to the next \<open>:\<close>. Only a line without
  parameters can open or close a component.
\<close>

datatype ContentLine =
  LBegin string
  | LEnd
  | LProperty string "(string \<times> string) list" string

definition parseParameter :: "string \<Rightarrow> (string \<times> string) option" where
  "parseParameter item =
     (if CHR ''='' \<in> set item
      then Some (toLowerCase (takeWhile (\<lambda>c. c \<noteq> CHR ''='') item),
                 tl (dropWhile (\<lambda>c. c \<noteq> CHR ''='') item))
      else None)"

fun sequence :: "'a option list \<Rightarrow> 'a list option" where
  "sequence [] = Some []"
| "sequence (x # xs) =
     (case x of None \<Rightarrow> None
      | Some v \<Rightarrow> (case sequence xs of None \<Rightarrow> None | Some vs \<Rightarrow> Some (v # vs)))"

definition handleContentLine :: "string \<Rightarrow> ContentLine option" where
  "handleContentLine line =
     (let name = takeWhile (\<lambda>c. c \<noteq> CHR '';'' \<and> c \<noteq> CHR '':'') line;
          rest = dropWhile (\<lambda>c. c \<noteq> CHR '';'' \<and> c \<noteq> CHR '':'') line
      in case rest of
           [] \<Rightarrow> None
         | d # after \<Rightarrow>
             if d = CHR '';'' then
               (if CHR '':'' \<in> set after then
                  (case sequence (map parseParameter
                           (splitOn CHR '';'' (takeWhile (\<lambda>c. c \<noteq> CHR '':'') after))) of
                     None \<Rightarrow> None
                   | Some params \<Rightarrow>
                       Some (LProperty (toLowerCase name) params
                               (tl (dropWhile (\<lambda>c. c \<noteq> CHR '':'') after))))
                else None)
             else if toLowerCase name = ''begin'' then Some (LBegin (toLowerCase after))
             else if toLowerCase name = ''end'' then Some LEnd
             else Some (LProperty (toLowerCase name) [] after))"

text \<open>
  The value type of a property: the \<open>VALUE\<close> parameter if there is one, else the default
  of the property (date-time for the date properties, text for the text properties of
  an event, unknown for a property the library has no entry for).
\<close>

definition defaultType :: "string \<Rightarrow> string" where
  "defaultType name =
     (if name \<in> set [''dtstart'', ''dtend'', ''dtstamp'', ''created'', ''last-modified'',
                      ''recurrence-id'', ''due'', ''completed'']
      then ''date-time''
      else if name \<in> set [''summary'', ''uid'', ''description'', ''class'', ''transp'',
                           ''location'', ''status'', ''comment'', ''contact'', ''prodid'',
                           ''version'', ''calscale'', ''method'', ''tzid'', ''tzname'']
      then ''text''
      else ''unknown'')"

definition valueType :: "string \<Rightarrow> (string \<times> string) list \<Rightarrow> string" where
  "valueType name params =
     (case map_of params ''value'' of
        Some v \<Rightarrow> toLowerCase v
      | None \<Rightarrow> defaultType name)"

record Property =
  p_name :: string
  p_type :: string
  p_raw :: string

datatype Component = Component string "Property list" "Component list"

text \<open>
  The parser state: the open components, innermost first, and the closed components
  of the top level.
\<close>

fun handleLine ::
  "Component list \<times> Component list \<Rightarrow> ContentLine \<Rightarrow> (Component list \<times> Component list) option"
  where
  "handleLine (stack, roots) (LBegin n) = Some (Component n [] [] # stack, roots)"
| "handleLine ([], roots) LEnd = None"
| "handleLine ([c], roots) LEnd = Some ([], roots @ [c])"
| "handleLine (c # Component n ps subs # stack, roots) LEnd =
     Some (Component n ps (subs @ [c]) # stack, roots)"
| "handleLine ([], roots) (LProperty name params raw) = None"
| "handleLine (Component n ps subs # stack, roots) (LProperty name params raw) =
     Some (Component n
             (ps @ [\<lparr>p_name = name, p_type = valueType name params, p_raw = raw\<rparr>]) subs
           # stack, roots)"

fun parseLines ::
  "Component list \<times> Component list \<Rightarrow> string list \<Rightarrow> (Component list \<times> Component list) option"
  where
  "parseLines st [] = Some st"
| "parseLines st (l # ls) =
     (case handleContentLine l of
        None \<Rightarrow> None
      | Some cl \<Rightarrow> (case handleLine st cl of None \<Rightarrow> None | Some st' \<Rightarrow> parseLines st' ls))"

text \<open>
  \<open>ICAL.parse\<close> followed by \<open>new ICAL.Component\<close>: \<open>None\<close> when the parser throws (an
  invalid line, a component left open) or the text does not hold exactly one top-level
  component.
\<close>

definition ICAL_parse :: "string \<Rightarrow> Component option" where
  "ICAL_parse input =
     (case parseLines ([], []) (eachLine input) of
        Some ([], [root]) \<Rightarrow> Some root
      | _ \<Rightarrow> None)"

definition getAllSubcomponents :: "Component \<Rightarrow> string \<Rightarrow> Component list" where
  "getAllSubcomponents component n =
     (case component of Component cn ps subs \<Rightarrow>
        filter (\<lambda>c. case c of Component sn sps ssubs \<Rightarrow> sn = n) subs)"

text \<open>
  Decoding a value. Text: the escapes \<open>\\\<close>, \<open>\;\<close>, \<open>\,\<close>, \<open>\n\<close> and \<open>\N\<close> are
  replaced. Date and date-time: the year, month and day are the integers at positions
  0 to 4, 4 to 6 and 6 to 8, the conversion throws when one of them is not a number, and
  \<open>ICAL.Time\<close> normalises the fields when they are read. The time of day of a date-time
  value is not modelled. Any other type: the raw string.
\<close>

fun unescape :: "string \<Rightarrow> string" where
  "unescape (a # b # cs) =
     (if a = CHR 0x5C \<and> (b = CHR 0x5C \<or> b = CHR '';'' \<or> b = CHR '','')
      then b # unescape cs
      else if a = CHR 0x5C \<and> (b = CHR ''n'' \<or> b = CHR ''N'')
      then CHR 0x0A # unescape cs
      else a # unescape (b # cs))"
| "unescape cs = cs"

text \<open>
  \<open>ICAL.Time\<close>: \<open>isLeapYear\<close> takes every fourth year up to 1752 as a leap year;
  \<open>daysInMonth\<close> answers 30 for a month outside 1 to 12.
\<close>

definition Time_isLeapYear :: "int \<Rightarrow> int" where
  "Time_isLeapYear year =
     (if year \<le> 1752 then (if year mod 4 = 0 then 1 else 0)
      else if (year mod 4 = 0 \<and> year mod 100 \<noteq> 0) \<or> year mod 400 = 0 then 1 else 0)"

definition Time_daysInMonth :: "int \<Rightarrow> int \<Rightarrow> int" where
  "Time_daysInMonth mon year =
     (if mon < 1 \<or> 12 < mon then 30
      else if mon = 2 then 28 + Time_isLeapYear year
      else if mon = 4 \<or> mon = 6 \<or> mon = 9 \<or> mon = 11 then 30
      else 31)"

lemma Time_daysInMonth_lower: "28 \<le> Time_daysInMonth mon year"
  by (simp add: Time_daysInMonth_def Time_isLeapYear_def)

lemma Time_daysInMonth_pos: "0 < Time_daysInMonth mon year"
  using Time_daysInMonth_lower [of mon year] by simp

lemma beyond_month_pos: "\<not> dd \<le> Time_daysInMonth mon year \<Longrightarrow> 0 < dd"
  using Time_daysInMonth_lower [of mon year] by simp

text \<open>
  \<open>adjust(0, 0, 0, 0)\<close> on a date: a month beyond 1 to 12 carries into the year; then a
  day beyond the month is carried forward month by month, and a day below 1 is carried
  backward.
\<close>

function daysForward :: "int \<Rightarrow> int \<Rightarrow> int \<Rightarrow> int \<times> int \<times> int" where
  "daysForward year mon dd =
     (if dd \<le> Time_daysInMonth mon year then (year, mon, dd)
      else if 12 < mon + 1
      then daysForward (year + 1) 1 (dd - Time_daysInMonth mon year)
      else daysForward year (mon + 1) (dd - Time_daysInMonth mon year))"
  by pat_completeness auto
termination
  by (relation "measure (\<lambda>(year, mon, dd). nat dd)") (simp_all add: Time_daysInMonth_pos beyond_month_pos)

declare daysForward.simps [simp del]

function daysBackward :: "int \<Rightarrow> int \<Rightarrow> int \<Rightarrow> int \<times> int \<times> int" where
  "daysBackward year mon dd =
     (if 0 < dd then (year, mon, dd)
      else if mon = 1
      then daysBackward (year - 1) 12 (dd + Time_daysInMonth 12 (year - 1))
      else daysBackward year (mon - 1) (dd + Time_daysInMonth (mon - 1) year))"
  by pat_completeness auto
termination
  by (relation "measure (\<lambda>(year, mon, dd). nat (1 - dd))")
     (simp_all add: Time_daysInMonth_pos)

declare daysBackward.simps [simp del]

definition Time_adjust :: "int \<Rightarrow> int \<Rightarrow> int \<Rightarrow> int \<times> int \<times> int" where
  "Time_adjust year mon dd =
     (let yearsOverflow =
            (if 12 < mon then (mon - 1) div 12
             else if mon < 1 then - ((- mon) div 12) - 1
             else 0);
          y = year + yearsOverflow;
          m = mon - 12 * yearsOverflow
      in if 0 < dd then daysForward y m dd else daysBackward y m dd)"

datatype ICALValue = VText string | VTime int int int

definition decodeValue :: "string \<Rightarrow> string \<Rightarrow> ICALValue option" where
  "decodeValue type raw =
     (if type = ''text'' then Some (VText (unescape raw))
      else if type = ''date'' \<or> type = ''date-time'' then
        (case (digits_val (slice 0 4 raw), digits_val (slice 4 6 raw),
               digits_val (slice 6 8 raw)) of
           (Some y, Some m, Some d) \<Rightarrow>
             (case Time_adjust y m d of (year, mon, dd) \<Rightarrow> Some (VTime year mon dd))
         | _ \<Rightarrow> None)
      else Some (VText raw))"

text \<open>
  \<open>getFirstPropertyValue\<close>: \<open>Inr None\<close> when the component has no such property,
  \<open>Inl\<close> when decoding the value throws.
\<close>

datatype ParseError = ParserError | ValueError | TypeError

definition getFirstPropertyValue :: "Component \<Rightarrow> string \<Rightarrow> ParseError + ICALValue option" where
  "getFirstPropertyValue component n =
     (case component of Component cn ps subs \<Rightarrow>
        (case filter (\<lambda>p. p_name p = n) ps of
           [] \<Rightarrow> Inr None
         | p # rest \<Rightarrow>
             (case decodeValue (p_type p) (p_raw p) of
                None \<Rightarrow> Inl ValueError
              | Some v \<Rightarrow> Inr (Some v))))"

section \<open>Parsing the feed (parseICS)\<close>

definition formatICALDate :: "ICALValue \<Rightarrow> string" where
  "formatICALDate v =
     (case v of
        VText s \<Rightarrow>
          if length s = 8 then slice 0 4 s @ ''-'' @ slice 4 6 s @ ''-'' @ slice 6 8 s else s
      | VTime y m d \<Rightarrow>
          String_int y @ ''-'' @ padStart 2 CHR ''0'' (String_int m) @ ''-''
            @ padStart 2 CHR ''0'' (String_int d))"

text \<open>The marker texts searched in the summary, as UTF-8 bytes.\<close>

definition restMarker :: string where
  "restMarker = [CHR 0xEF, CHR 0xBC, CHR 0x88, CHR 0xE4, CHR 0xBC, CHR 0x91, CHR 0xEF, CHR 0xBC,
                 CHR 0x89]"

definition workMarker :: string where
  "workMarker = [CHR 0xEF, CHR 0xBC, CHR 0x88, CHR 0xE7, CHR 0x8F, CHR 0xAD, CHR 0xEF, CHR 0xBC,
                 CHR 0x89]"

text \<open>
  One iteration of the loop over the \<open>vevent\<close> components: \<open>Inr None\<close> when the
  iteration ends at \<open>continue\<close>, \<open>Inl\<close> when it throws. \<open>uuid\<close> is what
  \<open>crypto.randomUUID()\<close> returns in this iteration. A summary that is not a string has
  no \<open>includes\<close>; a UID that is not a string is outside the model.
\<close>

definition parseVEvent :: "string \<Rightarrow> Component \<Rightarrow> ParseError + CalendarEvent option" where
  "parseVEvent uuid vevent =
     (case getFirstPropertyValue vevent ''summary'' of
        Inl err \<Rightarrow> Inl err
      | Inr (Some (VTime y m d)) \<Rightarrow> Inl TypeError
      | Inr sv \<Rightarrow>
     (case getFirstPropertyValue vevent ''uid'' of
        Inl err \<Rightarrow> Inl err
      | Inr (Some (VTime y m d)) \<Rightarrow> Inl TypeError
      | Inr uv \<Rightarrow>
     (case getFirstPropertyValue vevent ''dtstart'' of
        Inl err \<Rightarrow> Inl err
      | Inr None \<Rightarrow> Inr None
      | Inr (Some (VText [])) \<Rightarrow> Inr None
      | Inr (Some dtstart) \<Rightarrow>
     (case getFirstPropertyValue vevent ''dtend'' of
        Inl err \<Rightarrow> Inl err
      | Inr dtend \<Rightarrow>
     (case getFirstPropertyValue vevent ''x-apple-special-day'' of
        Inl err \<Rightarrow> Inl err
      | Inr specialDay \<Rightarrow>
          (let summary' = (case sv of Some (VText s) \<Rightarrow> s | _ \<Rightarrow> []);
               uid' = (case uv of Some (VText u) \<Rightarrow> if u \<noteq> [] then u else uuid | _ \<Rightarrow> uuid);
               startDate = formatICALDate dtstart;
               endDate' = (case dtend of
                             None \<Rightarrow> None
                           | Some (VText []) \<Rightarrow> None
                           | Some v \<Rightarrow> Some (formatICALDate v));
               isHoliday' = (specialDay = Some (VText ''WORK-HOLIDAY'')
                             \<or> str_includes summary' restMarker);
               isWorkday' = (specialDay = Some (VText ''ALTERNATE-WORKDAY'')
                             \<or> str_includes summary' workMarker)
           in Inr (Some \<lparr>uid = uid', summary = summary', date = startDate,
                          endDate = endDate', description = None,
                          isHoliday = Some isHoliday', isWorkday = Some isWorkday',
                          category = None, source = icloud\<rparr>)))))))"

fun parseVEvents ::
  "(nat \<Rightarrow> string) \<Rightarrow> nat \<Rightarrow> Component list \<Rightarrow> ParseError + CalendarEvent list" where
  "parseVEvents randomUUID i [] = Inr []"
| "parseVEvents randomUUID i (vevent # vevents) =
     (case parseVEvent (randomUUID i) vevent of
        Inl err \<Rightarrow> Inl err
      | Inr ev \<Rightarrow>
          (case parseVEvents randomUUID (i + 1) vevents of
             Inl err \<Rightarrow> Inl err
           | Inr evs \<Rightarrow> Inr ((case ev of None \<Rightarrow> [] | Some e \<Rightarrow> [e]) @ evs)))"

definition parseICS :: "(nat \<Rightarrow> string) \<Rightarrow> string \<Rightarrow> ParseError + CalendarEvent list" where
  "parseICS randomUUID icsContent =
     (case ICAL_parse icsContent of
        None \<Rightarrow> Inl ParserError
      | Some root \<Rightarrow> parseVEvents randomUUID 0 (getAllSubcomponents root ''vevent''))"

text \<open>An event flagged both as a day off and as a makeup workday.\<close>

definition bothFlags :: CalendarEvent where
  "bothFlags =
     \<lparr>uid = ''b'', summary = ''Shift'', date = ''2024-05-01'', endDate = None,
      description = None, isHoliday = Some True, isWorkday = Some True, category = None,
      source = icloud\<rparr>"

section \<open>Notions for the round trip through the calendar text\<close>

text \<open>
  The definitions of this section are not code of the repository: they name the
  conditions and the intermediate results in terms of which the round trip of
  \<open>generateICS\<close> and \<open>parseICS\<close> is stated and proved.
\<close>

text \<open>
  A line that the parser takes as one content line: not empty, not a continuation of
  the line before it (no leading blank), and without a line feed.
\<close>

definition plainLine :: "string \<Rightarrow> bool" where
  "plainLine l = (l \<noteq> [] \<and> \<not> isBlank (hd l) \<and> CHR 0x0A \<notin> set l)"

text \<open>The characters that \<open>String\<close> prints for a number, the sign apart.\<close>

definition decimalDigits :: "char set" where
  "decimalDigits = set ''0123456789''"

text \<open>The fields of an event that reach the text hold no line feed.\<close>

definition singleLine :: "CalendarEvent \<Rightarrow> bool" where
  "singleLine event =
     (CHR 0x0A \<notin> set (uid event) \<and> CHR 0x0A \<notin> set (date event)
      \<and> CHR 0x0A \<notin> set (summary event)
      \<and> (case endDate event of None \<Rightarrow> True | Some ed \<Rightarrow> CHR 0x0A \<notin> set ed)
      \<and> (case description event of None \<Rightarrow> True | Some d \<Rightarrow> CHR 0x0A \<notin> set d))"

text \<open>The property that a content line adds to the open component.\<close>

definition propertyOfLine :: "string \<Rightarrow> Property option" where
  "propertyOfLine l =
     (case handleContentLine l of
        Some (LProperty nm ps raw) \<Rightarrow> Some \<lparr>p_name = nm, p_type = valueType nm ps, p_raw = raw\<rparr>
      | _ \<Rightarrow> None)"

text \<open>The properties and the component that the lines of one event produce.\<close>

definition dtendProps :: "CalendarEvent \<Rightarrow> Property list" where
  "dtendProps event =
     (case endDate event of
        None \<Rightarrow> []
      | Some ed \<Rightarrow>
          if ed \<noteq> [] then [\<lparr>p_name = ''dtend'', p_type = ''date'', p_raw = removeHyphens ed\<rparr>]
          else [])"

definition descriptionProps :: "CalendarEvent \<Rightarrow> Property list" where
  "descriptionProps event =
     (case description event of
        None \<Rightarrow> []
      | Some d \<Rightarrow>
          if d \<noteq> [] then [\<lparr>p_name = ''description'', p_type = ''text'', p_raw = d\<rparr>] else [])"

definition specialDayProps :: "CalendarEvent \<Rightarrow> Property list" where
  "specialDayProps event =
     (if truthy_bool (isHoliday event)
      then [\<lparr>p_name = ''x-apple-special-day'', p_type = ''unknown'', p_raw = ''WORK-HOLIDAY''\<rparr>]
      else if truthy_bool (isWorkday event)
      then [\<lparr>p_name = ''x-apple-special-day'', p_type = ''unknown'',
              p_raw = ''ALTERNATE-WORKDAY''\<rparr>]
      else [])"

definition eventProps :: "int \<Rightarrow> CalendarEvent \<Rightarrow> Property list" where
  "eventProps now event =
     [\<lparr>p_name = ''uid'', p_type = ''text'', p_raw = uid event\<rparr>,
      \<lparr>p_name = ''dtstamp'', p_type = ''date-time'', p_raw = formatDateToICS now\<rparr>,
      \<lparr>p_name = ''dtstart'', p_type = ''date'', p_raw = removeHyphens (date event)\<rparr>]
     @ dtendProps event
     @ [\<lparr>p_name = ''summary'', p_type = ''text'', p_raw = summary event\<rparr>]
     @ descriptionProps event
     @ [\<lparr>p_name = ''class'', p_type = ''text'', p_raw = ''PUBLIC''\<rparr>,
        \<lparr>p_name = ''transp'', p_type = ''text'', p_raw = ''TRANSPARENT''\<rparr>]
     @ specialDayProps event"

fun vevents :: "(nat \<Rightarrow> int) \<Rightarrow> nat \<Rightarrow> CalendarEvent list \<Rightarrow> Component list" where
  "vevents clock i [] = []"
| "vevents clock i (event # events) =
     Component ''vevent'' (eventProps (clock i) event) [] # vevents clock (i + 1) events"

definition headerProps :: "string \<Rightarrow> Property list" where
  "headerProps calendarName =
     [\<lparr>p_name = ''version'', p_type = ''text'', p_raw = ''2.0''\<rparr>,
      \<lparr>p_name = ''prodid'', p_type = ''text'', p_raw = ''-//Holiday Calendar//CN''\<rparr>,
      \<lparr>p_name = ''calscale'', p_type = ''text'', p_raw = ''GREGORIAN''\<rparr>,
      \<lparr>p_name = ''x-wr-calname'', p_type = ''unknown'', p_raw = calendarName\<rparr>,
      \<lparr>p_name = ''x-apple-language'', p_type = ''unknown'', p_raw = ''zh''\<rparr>,
      \<lparr>p_name = ''x-apple-region'', p_type = ''unknown'', p_raw = ''CN''\<rparr>]"

text \<open>Decimal digits, and the number a digit stands for.\<close>

definition isDigit :: "char \<Rightarrow> bool" where
  "isDigit c = (c \<in> set ''0123456789'')"

text \<open>
  A calendar date of the form \<open>YYYY-MM-DD\<close> whose year has no leading zero: the form in
  which \<open>formatICALDate\<close> and \<open>formatDateString\<close> print the days of the years 1000 to
  9999. \<open>DaysInMonth\<close> is the length of month \<open>m\<close> (1 for January) of year \<open>y\<close>.
\<close>

definition DaysInMonth :: "int \<Rightarrow> int \<Rightarrow> int" where
  "DaysInMonth y m =
     (if m = 2 then 28 + InLeapYear y
      else if m = 4 \<or> m = 6 \<or> m = 9 \<or> m = 11 then 30 else 31)"

definition isoDate :: "string \<Rightarrow> bool" where
  "isoDate s =
     (length s = 10 \<and> s ! 4 = CHR ''-'' \<and> s ! 7 = CHR ''-''
      \<and> list_all isDigit (slice 0 4 s @ slice 5 7 s @ slice 8 10 s)
      \<and> s ! 0 \<noteq> CHR ''0''
      \<and> (case (digits_val (slice 0 4 s), digits_val (slice 5 7 s), digits_val (slice 8 10 s)) of
           (Some y, Some m, Some d) \<Rightarrow> 1 \<le> m \<and> m \<le> 12 \<and> 1 \<le> d \<and> d \<le> DaysInMonth y m
         | _ \<Rightarrow> False))"

definition digitOf :: "char \<Rightarrow> nat" where
  "digitOf c = of_char c - 48"

text \<open>
  What \<open>parseICS\<close> makes of the lines written for an event. The description and the
  category are not read back, the source is icloud, and an empty UID is replaced.
\<close>

definition reparsed :: "string \<Rightarrow> CalendarEvent \<Rightarrow> CalendarEvent" where
  "reparsed uuid event =
     \<lparr>uid = (if unescape (uid event) \<noteq> [] then unescape (uid event) else uuid),
      summary = unescape (summary event),
      date = date event,
      endDate = (case endDate event of None \<Rightarrow> None
                 | Some ed \<Rightarrow> if ed \<noteq> [] then Some ed else None),
      description = None,
      isHoliday = Some (truthy_bool (isHoliday event)
                        \<or> str_includes (unescape (summary event)) restMarker),
      isWorkday = Some ((\<not> truthy_bool (isHoliday event) \<and> truthy_bool (isWorkday event))
                        \<or> str_includes (unescape (summary event)) workMarker),
      category = None,
      source = icloud\<rparr>"

text \<open>The date of an event, and its end date when it has a non-empty one, are such dates.\<close>

definition isoDates :: "CalendarEvent \<Rightarrow> bool" where
  "isoDates event =
     (isoDate (date event)
      \<and> (case endDate event of None \<Rightarrow> True | Some ed \<Rightarrow> ed = [] \<or> isoDate ed))"

text \<open>The events read back from a list; \<open>randomUUID i\<close> is the identifier drawn for event \<open>i\<close>.\<close>

fun reparsedList :: "(nat \<Rightarrow> string) \<Rightarrow> nat \<Rightarrow> CalendarEvent list \<Rightarrow> CalendarEvent list" where
  "reparsedList randomUUID i [] = []"
| "reparsedList randomUUID i (event # events) =
     reparsed (randomUUID i) event # reparsedList randomUUID (i + 1) events"

text \<open>The four fields that the round trip is about; the flags count by their truthiness.\<close>

definition eventTuple :: "CalendarEvent \<Rightarrow> string \<times> string \<times> bool \<times> bool" where
  "eventTuple event =
     (date event, summary event, truthy_bool (isHoliday event), truthy_bool (isWorkday event))"

text \<open>
  The flags of an event that \<open>parseICS\<close> reads back as they are: a marker text in the
  summary comes with its flag, and an event flagged both ways has the makeup-workday
  marker in its summary (only the day-off line is written for it).
\<close>

definition flagsReadBack :: "CalendarEvent \<Rightarrow> bool" where
  "flagsReadBack event =
     ((str_includes (summary event) restMarker \<longrightarrow> truthy_bool (isHoliday event))
      \<and> (str_includes (summary event) workMarker \<longrightarrow> truthy_bool (isWorkday event))
      \<and> (truthy_bool (isHoliday event) \<and> truthy_bool (isWorkday event)
           \<longrightarrow> str_includes (summary event) workMarker))"

text \<open>The events for which the round trip is shown to keep the four fields.\<close>

definition roundTrips :: "CalendarEvent \<Rightarrow> bool" where
  "roundTrips event =
     (singleLine event \<and> isoDates event \<and> CHR 0x5C \<notin> set (summary event)
      \<and> flagsReadBack event)"

chapter \<open>Properties\<close>

section \<open>Properties of the cache\<close>

lemma cache_get_absent_iff:
  "fst (cache_get now key store) = None \<longleftrightarrow>
     (store key = None \<or> (\<exists>item. store key = Some item \<and> now > expiresAt item))"
  by (auto simp: cache_get_def split: option.splits)

lemma cache_get_present:
  "store key = Some item \<Longrightarrow> \<not> now > expiresAt item \<Longrightarrow>
     cache_get now key store = (Some (data item), store)"
  by (simp add: cache_get_def)

lemma cache_get_expired:
  "store key = Some item \<Longrightarrow> now > expiresAt item \<Longrightarrow>
     cache_get now key store = (None, store(key := None))"
  by (simp add: cache_get_def)

lemma cache_get_after_set:
  "cache_get t key (cache_set now key v ttl store) =
     (if t > now + ttl then (None, store(key := None))
      else (Some v, cache_set now key v ttl store))"
  by (simp add: cache_get_def cache_set_def Let_def)

text \<open>
  Claim C5. A read returns absent exactly when the key has no entry or the entry's
  expiration instant lies strictly before the instant of the read; in every other case it
  returns the stored value and leaves the store as it was. A read that meets an expired
  entry deletes it. After \<open>set(k, v, ttl)\<close> at instant \<open>now\<close>, a read at an instant up to
  \<open>now + ttl\<close> returns \<open>v\<close> and a read after \<open>now + ttl\<close> returns absent.
\<close>

theorem cache_get_lazy_expiration:
  "(fst (cache_get t key store) = None \<longleftrightarrow>
      (store key = None \<or> (\<exists>item. store key = Some item \<and> t > expiresAt item)))
   \<and> (\<forall>item. store key = Some item \<and> \<not> t > expiresAt item \<longrightarrow>
          cache_get t key store = (Some (data item), store))
   \<and> (\<forall>item. store key = Some item \<and> t > expiresAt item \<longrightarrow>
          snd (cache_get t key store) key = None
          \<and> (\<forall>k. k \<noteq> key \<longrightarrow> snd (cache_get t key store) k = store k))
   \<and> (t \<le> now + ttl \<longrightarrow>
          fst (cache_get t key (cache_set now key v ttl store)) = Some v)
   \<and> (t > now + ttl \<longrightarrow>
          fst (cache_get t key (cache_set now key v ttl store)) = None)"
proof (intro conjI allI impI)
  show "fst (cache_get t key store) = None \<longleftrightarrow>
      (store key = None \<or> (\<exists>item. store key = Some item \<and> t > expiresAt item))"
    by (rule cache_get_absent_iff)
next
  fix item assume "store key = Some item \<and> \<not> t > expiresAt item"
  then show "cache_get t key store = (Some (data item), store)"
    by (simp add: cache_get_present)
next
  fix item assume a: "store key = Some item \<and> t > expiresAt item"
  then show "snd (cache_get t key store) key = None"
    by (simp add: cache_get_expired)
  fix k assume "k \<noteq> key"
  with a show "snd (cache_get t key store) k = store k"
    by (simp add: cache_get_expired)
next
  assume "t \<le> now + ttl"
  then show "fst (cache_get t key (cache_set now key v ttl store)) = Some v"
    by (simp add: cache_get_after_set)
next
  assume "t > now + ttl"
  then show "fst (cache_get t key (cache_set now key v ttl store)) = None"
    by (simp add: cache_get_after_set)
qed

theorem cache_get_lazy_expiration_witness:
  "fst (cache_get 5 ''k'' (cache_set 0 ''k'' ''v'' 10 Map.empty)) = Some ''v''
   \<and> fst (cache_get 20 ''k'' (cache_set 0 ''k'' ''v'' 10 Map.empty)) = None
   \<and> snd (cache_get 20 ''k'' (cache_set 0 ''k'' ''v'' 10 Map.empty)) ''k'' = None"
proof -
  let ?s = "cache_set 0 ''k'' ''v'' 10 (Map.empty :: string Store)"
  have st: "?s ''k'' = Some \<lparr>data = ''v'', expiresAt = 10\<rparr>"
    by (simp add: cache_set_def)
  note th = cache_get_lazy_expiration [where key = "''k''" and now = 0 and ttl = 10
      and v = "''v''" and store = "Map.empty :: string Store"]
  have a: "fst (cache_get 5 ''k'' ?s) = Some ''v''"
    using th [where t = 5] by simp
  have b: "fst (cache_get 20 ''k'' ?s) = None"
    using th [where t = 20] by simp
  have c: "snd (cache_get 20 ''k'' ?s) ''k'' = None"
    using cache_get_lazy_expiration [where key = "''k''" and t = 20 and store = ?s] st
    by simp
  from a b c show ?thesis by blast
qed

section \<open>Properties of the feed fetcher\<close>

lemma fetch_hit:
  assumes "cache_get t_get (''ics:'' @ url) store = (Some c, store1)" and "c \<noteq> []"
  shows "fetchICSFromURL net t_get t_set url ttl store = (Inr c, store1, [])"
  using assms by (simp add: fetchICSFromURL_def truthy_str_def)

text \<open>
  Claim C6, as stated, fails: the hit test is the truthiness of the cached string, so an
  unexpired entry whose content is the empty string is not taken as a hit. After a
  successful fetch of an empty body the entry is in the cache, \<open>get\<close> returns it, and the
  next fetch still sends a request.
\<close>

theorem fetch_empty_entry_refetches:
  "snd (fetchICSFromURL
          (\<lambda>r. Inr \<lparr>ok = True, status = 200, statusText = ''OK'', body = ''''\<rparr>)
          0 0 ''u'' 1000 Map.empty) = (Map.empty(''ics:u'' \<mapsto> \<lparr>data = '''', expiresAt = 1000\<rparr>), [fetch_request ''u''])
   \<and> fst (cache_get 1 ''ics:u'' (Map.empty(''ics:u'' \<mapsto> \<lparr>data = '''', expiresAt = 1000\<rparr>)))
        = Some ''''
   \<and> snd (snd (fetchICSFromURL
          (\<lambda>r. Inr \<lparr>ok = True, status = 200, statusText = ''OK'', body = ''''\<rparr>)
          1 1 ''u'' 1000 (Map.empty(''ics:u'' \<mapsto> \<lparr>data = '''', expiresAt = 1000\<rparr>))))
        = [fetch_request ''u'']"
  by (simp add: fetchICSFromURL_def cache_get_def cache_set_def truthy_str_def Let_def)

text \<open>
  Claim C6, amended. Whenever \<open>get\<close> finds an unexpired entry with non-empty content
  under the key \<open>ics:\<close> followed by the URL, the fetcher returns that content, sends no
  request and leaves the store unchanged.
\<close>

theorem fetch_cache_hit_no_request:
  assumes "store (''ics:'' @ url) = Some item"
    and "\<not> t_get > expiresAt item"
    and "data item \<noteq> []"
  shows "fetchICSFromURL net t_get t_set url ttl store = (Inr (data item), store, [])"
  using assms by (simp add: fetch_hit cache_get_present)

theorem fetch_cache_hit_no_request_witness:
  "fetchICSFromURL (\<lambda>r. Inl ''offline'') 5 6 ''u'' 1000
      (Map.empty(''ics:u'' \<mapsto> \<lparr>data = ''BEGIN:VCALENDAR'', expiresAt = 10\<rparr>))
    = (Inr ''BEGIN:VCALENDAR'',
       Map.empty(''ics:u'' \<mapsto> \<lparr>data = ''BEGIN:VCALENDAR'', expiresAt = 10\<rparr>), [])"
  using fetch_cache_hit_no_request [where url = "''u''" and t_get = 5 and t_set = 6
      and ttl = 1000 and net = "\<lambda>r. Inl ''offline''"
      and item = "\<lparr>data = ''BEGIN:VCALENDAR'', expiresAt = 10\<rparr>"
      and store = "Map.empty(''ics:u'' \<mapsto> \<lparr>data = ''BEGIN:VCALENDAR'', expiresAt = 10\<rparr>)"]
  by simp

section \<open>The calendar of the Date built-in\<close>

lemma int_div_bounds:
  fixes a k :: int
  assumes "0 < k"
  shows "k * (a div k) \<le> a" and "a < k * (a div k) + k"
proof -
  show "k * (a div k) \<le> a"
    using mult_div_mod_eq [of k a] pos_mod_sign [of k a] assms by linarith
  show "a < k * (a div k) + k"
    using mult_div_mod_eq [of k a] pos_mod_bound [of k a] assms by linarith
qed

lemma DayFromYear_bounds_aux:
  fixes y p q r :: int
  assumes "4 * p \<le> y - 1969" "y - 1969 < 4 * p + 4"
    and "100 * q \<le> y - 1901" "y - 1901 < 100 * q + 100"
    and "400 * r \<le> y - 1601" "y - 1601 < 400 * r + 400"
  shows "146097 * (y - 1970) - 800 \<le> 400 * (365 * (y - 1970) + p - q + r)"
    and "400 * (365 * (y - 1970) + p - q + r) \<le> 146097 * (y - 1970) + 800"
proof -
  show "146097 * (y - 1970) - 800 \<le> 400 * (365 * (y - 1970) + p - q + r)"
    using assms by (simp add: algebra_simps)
  show "400 * (365 * (y - 1970) + p - q + r) \<le> 146097 * (y - 1970) + 800"
    using assms by (simp add: algebra_simps)
qed

lemma DayFromYear_bounds:
  "146097 * (y - 1970) - 800 \<le> 400 * DayFromYear y"
  "400 * DayFromYear y \<le> 146097 * (y - 1970) + 800"
  unfolding DayFromYear_def
  by (rule DayFromYear_bounds_aux; rule int_div_bounds; simp)+

text \<open>The year found for a day number contains that day.\<close>

lemma YearFromDay_spec:
  "DayFromYear (YearFromDay d) \<le> d \<and> d < DayFromYear (YearFromDay d + 1)"
proof -
  define y where "y = 1970 + (400 * d) div 146097"
  have "146097 * ((400 * d) div 146097) \<le> 400 * d"
    "400 * d < 146097 * ((400 * d) div 146097) + 146097"
    by (rule int_div_bounds; simp)+
  then have e: "146097 * (y - 1970) \<le> 400 * d" "400 * d < 146097 * (y - 1970) + 146097"
    by (simp_all add: y_def)
  have 1: "DayFromYear (y - 1) \<le> d"
    using DayFromYear_bounds(2) [of "y - 1"] e by (simp add: algebra_simps)
  have 2: "d < DayFromYear (2 + y)"
    using DayFromYear_bounds(1) [of "2 + y"] e by (simp add: algebra_simps)
  show ?thesis
    using 1 2 by (auto simp: YearFromDay_def Let_def y_def [symmetric])
qed

lemma div_step:
  fixes a k :: int
  assumes "1 < k"
  shows "(a + 1) div k = a div k + (if (a + 1) mod k = 0 then 1 else 0)"
proof -
  define q r where "q = a div k" and "r = a mod k"
  have a: "a = k * q + r" and r: "0 \<le> r" "r < k"
    using assms by (simp_all add: q_def r_def)
  show ?thesis
  proof (cases "r = k - 1")
    case True
    with a have e: "a + 1 = k * (q + 1) + 0" by (simp add: algebra_simps)
    have "(a + 1) div k = q + 1" "(a + 1) mod k = 0"
      using assms
      by (rule_tac int_div_pos_eq [OF e], simp_all) (rule_tac int_mod_pos_eq [OF e], simp_all)
    then show ?thesis by (simp add: q_def)
  next
    case False
    from a have e: "a + 1 = k * q + (r + 1)" by simp
    have b: "0 \<le> r + 1" "r + 1 < k" using r False by simp_all
    have "(a + 1) div k = q" "(a + 1) mod k = r + 1"
      by (rule int_div_pos_eq [OF e b]) (rule int_mod_pos_eq [OF e b])
    then show ?thesis using r by (simp add: q_def)
  qed
qed

lemma mod_shift: "(y - k * c) mod k = y mod (k::int)"
  by (metis mod_diff_right_eq mod_mult_self1_is_0 diff_zero)

text \<open>A year begins \<open>DaysInYear\<close> days after the year before it.\<close>

lemma DayFromYear_step: "DayFromYear (y + 1) = DayFromYear y + DaysInYear y"
proof -
  have 4: "(y + 1 - 1969) div 4 = (y - 1969) div 4 + (if y mod 4 = 0 then 1 else 0)"
    using div_step [of 4 "y - 1969"] mod_shift [of y 4 492] by simp
  have 100: "(y + 1 - 1901) div 100 = (y - 1901) div 100 + (if y mod 100 = 0 then 1 else 0)"
    using div_step [of 100 "y - 1901"] mod_shift [of y 100 19] by simp
  have 400: "(y + 1 - 1601) div 400 = (y - 1601) div 400 + (if y mod 400 = 0 then 1 else 0)"
    using div_step [of 400 "y - 1601"] mod_shift [of y 400 4] by simp
  have a: "y mod 4 = 0" if "y mod 100 = 0"
    using mod_mod_cancel [of 4 100 y] that by simp
  have b: "y mod 100 = 0" if "y mod 400 = 0"
    using mod_mod_cancel [of 100 400 y] that by simp
  show ?thesis
    unfolding DayFromYear_def DaysInYear_def 4 100 400 using a b by auto
qed

lemma DaysInYear_pos: "0 < DaysInYear y"
  by (simp add: DaysInYear_def)

lemma DayFromYear_mono: "y \<le> z \<Longrightarrow> DayFromYear y \<le> DayFromYear z"
proof (induction z rule: int_ge_induct)
  case base
  show ?case by simp
next
  case (step i)
  then show ?case
    using DaysInYear_pos [of i] by (simp add: DayFromYear_step)
qed

lemma YearFromDay_unique:
  assumes "DayFromYear y \<le> d" and "d < DayFromYear (y + 1)"
  shows "YearFromDay d = y"
proof (rule ccontr)
  assume n: "YearFromDay d \<noteq> y"
  let ?z = "YearFromDay d"
  have s: "DayFromYear ?z \<le> d" "d < DayFromYear (?z + 1)"
    using YearFromDay_spec [of d] by simp_all
  show False
  proof (cases "?z < y")
    case True
    then have "DayFromYear (?z + 1) \<le> DayFromYear y"
      by (intro DayFromYear_mono) simp
    with s(2) assms(1) show False by simp
  next
    case False
    with n have "DayFromYear (y + 1) \<le> DayFromYear ?z"
      by (intro DayFromYear_mono) simp
    with s(1) assms(2) show False by simp
  qed
qed

text \<open>
  The day number that \<open>MakeDay\<close> gives for 1 November of a year (month index 10) is the
  day whose year, month and day of the month are that year, 10 and 1.
\<close>

lemma MakeDay_November_first:
  "MakeDay year 10 1 = DayFromYear year + 304 + InLeapYear year"
  by (simp add: MakeDay_def MonthStart_def Let_def)

lemma November_first_fields:
  "YearFromDay (MakeDay year 10 1) = year
   \<and> MonthFromDay (MakeDay year 10 1) = 10
   \<and> DateFromDay (MakeDay year 10 1) = 1"
proof -
  let ?d = "MakeDay year 10 1"
  have leap: "InLeapYear year = 0 \<or> InLeapYear year = 1"
    by (simp add: InLeapYear_def)
  have len: "DaysInYear year = 365 + InLeapYear year"
    by (simp add: InLeapYear_def DaysInYear_def)
  have y: "YearFromDay ?d = year"
    using leap len
    by (intro YearFromDay_unique) (auto simp: MakeDay_November_first DayFromYear_step)
  have w: "DayWithinYear ?d = 304 + InLeapYear year"
    by (simp add: DayWithinYear_def y) (simp add: MakeDay_November_first)
  have m: "MonthFromDay ?d = 10"
    using leap by (auto simp: MonthFromDay_def Let_def w y)
  have "DateFromDay ?d = 1"
    using leap by (auto simp: DateFromDay_def w y m MonthStart_def)
  with y m show ?thesis by simp
qed

section \<open>Properties of the lunar festivals and of Thanksgiving\<close>

lemma festival_month12_iff:
  "map_of festivals f = Some c \<Longrightarrow>
     (month c = 12 \<longleftrightarrow> f \<in> {''laba'', ''xiaonian_north'', ''xiaonian_south''})"
  by (auto simp: festivals_def split: if_splits)

lemma getLunarFestivalDate_config:
  "map_of festivals f = Some c \<Longrightarrow>
     getLunarFestivalDate L f year =
       (case lunarToSolar L (if month c = 12 then year - 1 else year) (month c) (day c) of
          Inl err \<Rightarrow> None | Inr s \<Rightarrow> Some s)"
  by (simp add: getLunarFestivalDate_def Let_def)

text \<open>
  Claim C4. The festivals configured in lunar month 12 are exactly laba, xiaonian_north
  and xiaonian_south. For every solar year, each of these three is resolved by converting
  its lunar month and day in lunar year \<open>year - 1\<close>, while qixi and longtaitou are
  converted in lunar year \<open>year\<close>; an error of the conversion gives \<open>null\<close>. For the solar
  year 2024 the three month-12 festivals are converted in lunar year 2023.
\<close>

theorem getLunarFestivalDate_lunar_year:
  "(\<forall>f c. map_of festivals f = Some c \<longrightarrow>
       (month c = 12 \<longleftrightarrow> f \<in> {''laba'', ''xiaonian_north'', ''xiaonian_south''})
       \<and> getLunarFestivalDate L f year =
           (case lunarToSolar L (if month c = 12 then year - 1 else year) (month c) (day c) of
              Inl err \<Rightarrow> None | Inr s \<Rightarrow> Some s))
   \<and> getLunarFestivalDate L ''laba'' year =
       (case lunarToSolar L (year - 1) 12 8 of Inl err \<Rightarrow> None | Inr s \<Rightarrow> Some s)
   \<and> getLunarFestivalDate L ''xiaonian_north'' year =
       (case lunarToSolar L (year - 1) 12 23 of Inl err \<Rightarrow> None | Inr s \<Rightarrow> Some s)
   \<and> getLunarFestivalDate L ''xiaonian_south'' year =
       (case lunarToSolar L (year - 1) 12 24 of Inl err \<Rightarrow> None | Inr s \<Rightarrow> Some s)
   \<and> getLunarFestivalDate L ''qixi'' year =
       (case lunarToSolar L year 7 7 of Inl err \<Rightarrow> None | Inr s \<Rightarrow> Some s)
   \<and> getLunarFestivalDate L ''longtaitou'' year =
       (case lunarToSolar L year 2 2 of Inl err \<Rightarrow> None | Inr s \<Rightarrow> Some s)
   \<and> getLunarFestivalDate L ''laba'' 2024 =
       (case lunarToSolar L 2023 12 8 of Inl err \<Rightarrow> None | Inr s \<Rightarrow> Some s)
   \<and> getLunarFestivalDate L ''xiaonian_north'' 2024 =
       (case lunarToSolar L 2023 12 23 of Inl err \<Rightarrow> None | Inr s \<Rightarrow> Some s)
   \<and> getLunarFestivalDate L ''xiaonian_south'' 2024 =
       (case lunarToSolar L 2023 12 24 of Inl err \<Rightarrow> None | Inr s \<Rightarrow> Some s)"
proof -
  have gen: "\<forall>f c. map_of festivals f = Some c \<longrightarrow>
       (month c = 12 \<longleftrightarrow> f \<in> {''laba'', ''xiaonian_north'', ''xiaonian_south''})
       \<and> getLunarFestivalDate L f year =
           (case lunarToSolar L (if month c = 12 then year - 1 else year) (month c) (day c) of
              Inl err \<Rightarrow> None | Inr s \<Rightarrow> Some s)"
    using festival_month12_iff getLunarFestivalDate_config by blast
  have item: "getLunarFestivalDate L ''laba'' y =
       (case lunarToSolar L (y - 1) 12 8 of Inl err \<Rightarrow> None | Inr s \<Rightarrow> Some s)"
     "getLunarFestivalDate L ''xiaonian_north'' y =
       (case lunarToSolar L (y - 1) 12 23 of Inl err \<Rightarrow> None | Inr s \<Rightarrow> Some s)"
     "getLunarFestivalDate L ''xiaonian_south'' y =
       (case lunarToSolar L (y - 1) 12 24 of Inl err \<Rightarrow> None | Inr s \<Rightarrow> Some s)"
     "getLunarFestivalDate L ''qixi'' y =
       (case lunarToSolar L y 7 7 of Inl err \<Rightarrow> None | Inr s \<Rightarrow> Some s)"
     "getLunarFestivalDate L ''longtaitou'' y =
       (case lunarToSolar L y 2 2 of Inl err \<Rightarrow> None | Inr s \<Rightarrow> Some s)" for y
    by (simp_all add: getLunarFestivalDate_def festivals_def Let_def)
  show ?thesis
    using gen item [of year] item(1-3) [of 2024] by simp
qed

text \<open>
  A library that knows a single lunar date, the eighth day of month 12 of lunar year
  2023 (18 January 2024), and throws on every other: laba of the solar year 2024 resolves,
  so the lookup went to lunar year 2023.
\<close>

theorem getLunarFestivalDate_lunar_year_witness:
  "map_of festivals ''laba'' = Some \<lparr>month = 12, day = 8\<rparr>
   \<and> getLunarFestivalDate
        (\<lambda>y m d. if y = 2023 \<and> m = 12 \<and> d = 8 then LunarSolar 2024 1 18 else LunarThrows)
        ''laba'' 2024 = Some ''2024-01-18''"
proof -
  have c: "map_of festivals ''laba'' = Some \<lparr>month = 12, day = 8\<rparr>"
    by (simp add: festivals_def)
  have s: "lunarToSolar
        (\<lambda>y m d. if y = 2023 \<and> m = 12 \<and> d = 8 then LunarSolar 2024 1 18 else LunarThrows)
        2023 12 8 = Inr ''2024-01-18''"
    by (simp add: lunarToSolar_def String_int_def string_of_nat.simps digit_char_def
        padStart_def)
  show ?thesis
    using c s getLunarFestivalDate_lunar_year [where year = 2024 and
        L = "\<lambda>y m d. if y = 2023 \<and> m = 12 \<and> d = 8 then LunarSolar 2024 1 18 else LunarThrows"]
    by simp
qed

subsection \<open>Thanksgiving\<close>

lemma Day_of_whole_days: "Day (d * msPerDay) = d"
  by (simp add: Day_def msPerDay_def)

lemma getDay_range: "0 \<le> getDay tz t \<and> getDay tz t \<le> 6"
  by (simp add: getDay_def WeekDay_def)

lemma weekdayOfNovemberFirst_range:
  "0 \<le> weekdayOfNovemberFirst year \<and> weekdayOfNovemberFirst year \<le> 6"
  by (simp add: weekdayOfNovemberFirst_def WeekDay_def)

lemma string_of_two_digits:
  "10 \<le> n \<Longrightarrow> n < 100 \<Longrightarrow> string_of_nat n = [digit_char (n div 10), digit_char (n mod 10)]"
proof -
  assume a: "10 \<le> n" "n < 100"
  then have "n div 10 < 10" by simp
  with a show ?thesis
    by (simp add: string_of_nat.simps [of n] string_of_nat.simps [of "n div 10"])
qed

lemma padStart_two_digits:
  "10 \<le> i \<Longrightarrow> i < 100 \<Longrightarrow> padStart 2 c (String_int i) = String_int i"
  by (simp add: padStart_def String_int_def string_of_two_digits)

lemma first_thursday_mod:
  "0 \<le> w \<Longrightarrow> w \<le> 6 \<Longrightarrow>
     (if w \<le> 4 then 1 + (4 - w) else 1 + (11 - w)) = 1 + (4 - w) mod (7::int)"
  by (auto simp: mod_pos_pos_trivial) presburger

text \<open>
  Within the limit of time values: 1 November of a year from -271821 to 275759, seen from
  a host at most a day away from UTC.
\<close>

lemma November_first_in_range:
  assumes "- 271821 \<le> year" and "year \<le> 275759" and "abs tz \<le> 1440"
  shows "TimeClip (UTC tz (MakeDay year 10 1 * msPerDay))
           = Some (UTC tz (MakeDay year 10 1 * msPerDay))"
proof -
  have leap: "InLeapYear year = 0 \<or> InLeapYear year = 1"
    by (simp add: InLeapYear_def)
  have "400 * DayFromYear year \<le> 146097 * (year - 1970) + 800"
    by (rule DayFromYear_bounds)
  with assms(2) have up: "DayFromYear year \<le> 99999380"
    by simp
  have "146097 * (year - 1970) - 800 \<le> 400 * DayFromYear year"
    by (rule DayFromYear_bounds)
  with assms(1) have lo: "- 100000111 \<le> DayFromYear year"
    by simp
  have "abs (UTC tz (MakeDay year 10 1 * msPerDay)) \<le> 8640000000000000"
    using up lo leap assms(3)
    by (auto simp: UTC_def MakeDay_November_first msPerDay_def)
  then show ?thesis
    by (simp add: TimeClip_def)
qed

lemma getDay_November_first:
  assumes "100 \<le> year \<and> year \<le> 275759 \<or> - 271821 \<le> year \<and> year \<le> - 1"
    and "abs tz \<le> 1440"
  shows "\<exists>nov1. Date_ymd tz year 10 1 = Some nov1
           \<and> getDay tz nov1 = weekdayOfNovemberFirst year"
proof -
  have r: "- 271821 \<le> year" "year \<le> 275759" and y: "\<not> (0 \<le> year \<and> year \<le> 99)"
    using assms(1) by auto
  from y have "(if 0 \<le> year \<and> year \<le> 99 then 1900 + year else year) = year"
    by simp
  then have "Date_ymd tz year 10 1 = Some (UTC tz (MakeDay year 10 1 * msPerDay))"
    unfolding Date_ymd_def Let_def by (simp only: November_first_in_range [OF r assms(2)])
  moreover have "getDay tz (UTC tz (MakeDay year 10 1 * msPerDay)) = weekdayOfNovemberFirst year"
    by (simp add: getDay_def LocalTime_def UTC_def weekdayOfNovemberFirst_def)
  ultimately show ?thesis by simp
qed

lemma String_int_2024: "String_int 2024 = ''2024''"
  by (simp add: String_int_def string_of_nat.simps digit_char_def)

lemma weekdayOfNovemberFirst_eq:
  "weekdayOfNovemberFirst year = (DayFromYear year + 304 + InLeapYear year + 4) mod 7"
  by (simp add: weekdayOfNovemberFirst_def WeekDay_def Day_of_whole_days
      MakeDay_November_first)

lemma weekdayOfNovemberFirst_2024: "weekdayOfNovemberFirst 2024 = 5"
  by (simp add: weekdayOfNovemberFirst_eq DayFromYear_def InLeapYear_def DaysInYear_def)

text \<open>
  Claim C7, for the years in which it holds. For a whole-number year from 100 to 275759
  or from -271821 to -1, on a host at most a day away from UTC, the result is the year,
  \<open>-11-\<close> and the two-digit day \<open>D = 1 + ((4 - weekday) mod 7) + 21\<close>, where \<open>weekday\<close> is
  the numbering (0 for Sunday up to 6) of 1 November of that year; \<open>D\<close> lies between 22
  and 28, and the day so numbered is the one whose year, month index and day of the month
  are the year, 10 and 1. The year 2024 gives \<open>2024-11-28\<close>.
\<close>

theorem getThanksgivingDate_formula:
  assumes "100 \<le> year \<and> year \<le> 275759 \<or> - 271821 \<le> year \<and> year \<le> - 1"
    and "abs tz \<le> 1440"
  shows "getThanksgivingDate tz year =
           String_int year @ ''-11-''
             @ String_int (fourthThursday (weekdayOfNovemberFirst year))
         \<and> 0 \<le> weekdayOfNovemberFirst year \<and> weekdayOfNovemberFirst year \<le> 6
         \<and> 22 \<le> fourthThursday (weekdayOfNovemberFirst year)
         \<and> fourthThursday (weekdayOfNovemberFirst year) \<le> 28
         \<and> YearFromDay (MakeDay year 10 1) = year
         \<and> MonthFromDay (MakeDay year 10 1) = 10
         \<and> DateFromDay (MakeDay year 10 1) = 1
         \<and> getThanksgivingDate tz 2024 = ''2024-11-28''"
proof -
  have gen: "getThanksgivingDate tz y =
           String_int y @ ''-11-'' @ String_int (fourthThursday (weekdayOfNovemberFirst y))"
    if "100 \<le> y \<and> y \<le> 275759 \<or> - 271821 \<le> y \<and> y \<le> - 1" for y
  proof -
    define w where "w = weekdayOfNovemberFirst y"
    from getDay_November_first [OF that assms(2)]
    obtain nov1 where n: "Date_ymd tz y 10 1 = Some nov1" "getDay tz nov1 = w"
      unfolding w_def by blast
    have r: "0 \<le> w" "w \<le> 6"
      using weekdayOfNovemberFirst_range [of y] by (simp_all add: w_def)
    have ft: "(if w \<le> 4 then 1 + (4 - w) else 1 + (11 - w)) + 21 = fourthThursday w"
      using first_thursday_mod [OF r] by (simp add: fourthThursday_def)
    have "10 \<le> fourthThursday w" "fourthThursday w < 100"
      by (simp_all add: fourthThursday_def)
    then have pad: "padStart 2 CHR ''0'' (String_int (fourthThursday w))
                 = String_int (fourthThursday w)"
      by (rule padStart_two_digits)
    show ?thesis
      unfolding getThanksgivingDate_def Let_def n option.case ft pad w_def [symmetric]
      by (rule refl)
  qed
  have b: "22 \<le> fourthThursday (weekdayOfNovemberFirst year)"
    "fourthThursday (weekdayOfNovemberFirst year) \<le> 28"
    by (simp_all add: fourthThursday_def)
  have "getThanksgivingDate tz 2024 =
           String_int 2024 @ ''-11-'' @ String_int (fourthThursday (weekdayOfNovemberFirst 2024))"
    by (rule gen) simp
  then have c: "getThanksgivingDate tz 2024 = ''2024-11-28''"
    by (simp add: weekdayOfNovemberFirst_2024 fourthThursday_def String_int_2024)
       (simp add: String_int_def string_of_nat.simps digit_char_def)
  show ?thesis
    using gen [OF assms(1)] weekdayOfNovemberFirst_range [of year] b
      November_first_fields [of year] c
    by simp
qed

text \<open>The year 2024 on a host at UTC+08:00.\<close>

theorem getThanksgivingDate_formula_witness:
  "(100 \<le> (2024::int) \<and> (2024::int) \<le> 275759 \<or> - 271821 \<le> (2024::int) \<and> (2024::int) \<le> - 1)
   \<and> abs (480::int) \<le> 1440
   \<and> weekdayOfNovemberFirst 2024 = 5
   \<and> fourthThursday 5 = 28
   \<and> getThanksgivingDate 480 2024 = ''2024-11-28''"
  using getThanksgivingDate_formula [of 2024 480]
  by (simp add: weekdayOfNovemberFirst_2024 fourthThursday_def String_int_def
      string_of_nat.simps digit_char_def)

text \<open>
  Claim C7 as stated, for every year, fails for the years 0 to 99, which the \<open>Date\<close>
  constructor reads as 1900 to 1999. For the year 50 the function answers with the fourth
  Thursday of November 1950, the 23rd, under the year 50; 1 November of the year 50 is a
  Tuesday, for which the formula of the claim gives the 24th.
\<close>

theorem getThanksgivingDate_two_digit_year:
  "getThanksgivingDate 0 50 = ''50-11-23''
   \<and> weekdayOfNovemberFirst 50 = 2
   \<and> weekdayOfNovemberFirst 1950 = 3
   \<and> String_int 50 @ ''-11-'' @ String_int (fourthThursday (weekdayOfNovemberFirst 50))
       = ''50-11-24''
   \<and> getThanksgivingDate 0 50
       \<noteq> String_int 50 @ ''-11-'' @ String_int (fourthThursday (weekdayOfNovemberFirst 50))"
proof -
  have w50: "weekdayOfNovemberFirst 50 = 2"
    by (simp add: weekdayOfNovemberFirst_eq DayFromYear_def InLeapYear_def DaysInYear_def)
  have w1950: "weekdayOfNovemberFirst 1950 = 3"
    by (simp add: weekdayOfNovemberFirst_eq DayFromYear_def InLeapYear_def DaysInYear_def)
  have "TimeClip (MakeDay 1950 10 1 * msPerDay) = Some (MakeDay 1950 10 1 * msPerDay)"
    using November_first_in_range [of 1950 0] by (simp add: UTC_def)
  then have d: "Date_ymd 0 50 10 1 = Some (MakeDay 1950 10 1 * msPerDay)"
    by (simp add: Date_ymd_def Let_def UTC_def)
  have g: "getDay 0 (MakeDay 1950 10 1 * msPerDay) = 3"
    using w1950 by (simp add: getDay_def LocalTime_def weekdayOfNovemberFirst_def)
  have s: "String_int 50 = ''50''" "String_int 23 = ''23''" "String_int 24 = ''24''"
    by (simp_all add: String_int_def string_of_nat.simps digit_char_def)
  have a: "getThanksgivingDate 0 50 = ''50-11-23''"
    unfolding getThanksgivingDate_def Let_def d option.case g
    by (simp add: s padStart_def)
  have f: "String_int 50 @ ''-11-'' @ String_int (fourthThursday (weekdayOfNovemberFirst 50))
       = ''50-11-24''"
    by (simp add: w50 fourthThursday_def s)
  show ?thesis
    using a w50 w1950 f by simp
qed

text \<open>
  Beyond the limit of time values the \<open>Date\<close> is invalid and the day is printed as
  \<open>NaN\<close>: 1 November 275760 lies after the last time value, 13 September 275760.
\<close>

lemma getThanksgivingDate_beyond_limit:
  "abs tz \<le> 1440 \<Longrightarrow> getThanksgivingDate tz 275760 = String_int 275760 @ ''-11-NaN''"
proof -
  assume "abs tz \<le> 1440"
  then have "Date_ymd tz 275760 10 1 = None"
    by (simp add: Date_ymd_def Let_def UTC_def TimeClip_def MakeDay_November_first
        DayFromYear_def InLeapYear_def DaysInYear_def msPerDay_def)
  then show ?thesis
    by (simp add: getThanksgivingDate_def Let_def padStart_def)
qed

text \<open>The day that the formula names is a Thursday of November of the year.\<close>

lemma fourthThursday_is_thursday:
  "WeekDay (MakeDay year 10 (fourthThursday (weekdayOfNovemberFirst year)) * msPerDay) = 4"
proof -
  define w where "w = weekdayOfNovemberFirst year"
  have w: "w = (MakeDay year 10 1 + 4) mod 7"
    by (simp add: w_def weekdayOfNovemberFirst_def WeekDay_def Day_of_whole_days)
  have "MakeDay year 10 (1 + (4 - w) mod 7 + 21) = MakeDay year 10 1 + ((4 - w) mod 7 + 21)"
    by (simp add: MakeDay_def Let_def)
  moreover have "(a + ((4 - v) mod 7 + 21) + 4) mod 7 = 4" if "v = (a + 4) mod 7"
    for a v :: int
    using that by presburger
  ultimately show ?thesis
    using w by (simp add: WeekDay_def Day_of_whole_days fourthThursday_def w_def [symmetric])
qed

section \<open>Properties of splitMultiDayEvent\<close>

text \<open>
  The ISO form of a day number: the date string that \<open>formatDateString\<close> prints for a
  time value whose local day is \<open>d\<close>.
\<close>

definition dayString :: "int \<Rightarrow> string" where
  "dayString d =
     String_int (YearFromDay d) @ ''-'' @ padStart 2 CHR ''0'' (String_int (MonthFromDay d + 1))
       @ ''-'' @ padStart 2 CHR ''0'' (String_int (DateFromDay d))"

text \<open>
  The local day of midnight UTC of day \<open>d\<close>: the same day when local time is at or ahead
  of UTC by less than a day, the day before when local time is behind UTC.
\<close>

definition localDayShift :: "int \<Rightarrow> int" where
  "localDayShift tz = (tz * 60000) div msPerDay"

lemma localDayShift_east: "0 \<le> tz \<Longrightarrow> tz < 1440 \<Longrightarrow> localDayShift tz = 0"
  by (simp add: localDayShift_def msPerDay_def)

lemma localDayShift_west: "- 1440 \<le> tz \<Longrightarrow> tz < 0 \<Longrightarrow> localDayShift tz = - 1"
proof -
  assume "- 1440 \<le> tz" "tz < 0"
  then have "- 86400000 \<le> tz * 60000" "tz * 60000 < 0" by simp_all
  then have "(tz * 60000) div 86400000 = - 1"
    by (simp add: div_pos_neg_trivial zdiv_eq_0_iff)
  then show ?thesis by (simp add: localDayShift_def msPerDay_def)
qed

lemma Day_LocalTime_midnight:
  "Day (LocalTime tz (d * msPerDay)) = d + localDayShift tz"
proof -
  have "(tz * 60000 + d * msPerDay) div msPerDay = (tz * 60000) div msPerDay + d"
    using div_mult_self2 [of msPerDay "tz * 60000" d] by (simp add: msPerDay_def mult.commute)
  then show ?thesis
    by (simp add: Day_def LocalTime_def localDayShift_def add.commute)
qed

lemma formatDateString_midnight:
  "formatDateString tz (d * msPerDay) = dayString (d + localDayShift tz)"
  by (simp add: formatDateString_def dayString_def getFullYear_def getMonth_def getDate_def
      Day_LocalTime_midnight Let_def)

lemma Date_parse_whole_days: "Date_parse s = Some t \<Longrightarrow> t = Day t * msPerDay"
  by (auto simp: Date_parse_def Day_of_whole_days split: if_splits option.splits)

lemma upt_0_Suc_shift: "[0..<Suc n] = 0 # map Suc [0..<n]"
  by (simp add: upt_conv_Cons map_Suc_upt del: upt_Suc)

lemma splitLoop_days:
  "splitLoop tz event (d1 * msPerDay) (d0 * msPerDay) i =
     map (\<lambda>k. event\<lparr>uid := uid event @ ''-day'' @ String_int (int (i + k)),
                      date := dayString (d0 + int k + localDayShift tz),
                      endDate := None\<rparr>)
         [0..<nat (d1 - d0)]"
proof (induction "nat (d1 - d0)" arbitrary: d0 i)
  case 0
  then have "\<not> d0 * msPerDay < d1 * msPerDay"
    by (simp add: msPerDay_def)
  with 0 show ?case
    by (simp add: splitLoop.simps [of tz event "d1 * msPerDay" "d0 * msPerDay"])
next
  case (Suc n)
  then have lt: "d0 * msPerDay < d1 * msPerDay" and n: "n = nat (d1 - (d0 + 1))"
    by (simp_all add: msPerDay_def)
  have nx: "setDate_next tz (d0 * msPerDay) = (d0 + 1) * msPerDay"
    by (simp add: setDate_next_eq algebra_simps)
  have len: "nat (d1 - d0) = Suc n"
    using Suc.hyps(2) by simp
  show ?case
    unfolding len upt_0_Suc_shift
    using lt n Suc.hyps(1) [OF n, of "i + 1"]
    by (simp add: splitLoop.simps [of tz event "d1 * msPerDay" "d0 * msPerDay"] nx
        formatDateString_midnight o_def add.assoc add.left_commute)
qed

lemma splitLoop_frame:
  "x \<in> set (splitLoop tz event e current i) \<Longrightarrow>
     x\<lparr>uid := uid event, date := date event, endDate := endDate event\<rparr> = event
     \<and> endDate x = None"
proof (induction tz event e current i rule: splitLoop.induct)
  case (1 tz event e current dayIndex)
  show ?case
  proof (cases "current < e")
    case True
    with 1 show ?thesis
      by (auto simp: splitLoop.simps [of tz event e current dayIndex])
  next
    case False
    with 1 show ?thesis
      by (simp add: splitLoop.simps [of tz event e current dayIndex])
  qed
qed

lemma split_frame:
  assumes "x \<in> set (splitMultiDayEvent tz event)"
  shows "x\<lparr>uid := uid event, date := date event, endDate := endDate event\<rparr> = event
     \<and> endDate x = None"
proof (cases "x = event\<lparr>endDate := None\<rparr>")
  case True
  then show ?thesis by simp
next
  case False
  with assms obtain e start where "x \<in> set (splitLoop tz event e start 0)"
    by (auto simp: splitMultiDayEvent_def split: option.splits if_splits)
  then show ?thesis by (rule splitLoop_frame)
qed

text \<open>
  Claim C10. Every event that \<open>splitMultiDayEvent\<close> returns has the summary, description,
  isHoliday, isWorkday, category and source of the input event: putting the input's uid,
  date and endDate back into it gives the input event.
\<close>

theorem split_preserves_other_fields:
  "\<forall>x \<in> set (splitMultiDayEvent tz event).
     summary x = summary event \<and> description x = description event
     \<and> isHoliday x = isHoliday event \<and> isWorkday x = isWorkday event
     \<and> category x = category event \<and> source x = source event
     \<and> x\<lparr>uid := uid event, date := date event, endDate := endDate event\<rparr> = event"
proof
  fix x assume "x \<in> set (splitMultiDayEvent tz event)"
  then have eq: "x\<lparr>uid := uid event, date := date event, endDate := endDate event\<rparr> = event"
    by (simp add: split_frame)
  have "summary x = summary event"
    using arg_cong [OF eq, of summary] by simp
  moreover have "description x = description event"
    using arg_cong [OF eq, of description] by simp
  moreover have "isHoliday x = isHoliday event"
    using arg_cong [OF eq, of isHoliday] by simp
  moreover have "isWorkday x = isWorkday event"
    using arg_cong [OF eq, of isWorkday] by simp
  moreover have "category x = category event"
    using arg_cong [OF eq, of category] by simp
  moreover have "source x = source event"
    using arg_cong [OF eq, of source] by simp
  ultimately show "summary x = summary event \<and> description x = description event
     \<and> isHoliday x = isHoliday event \<and> isWorkday x = isWorkday event
     \<and> category x = category event \<and> source x = source event
     \<and> x\<lparr>uid := uid event, date := date event, endDate := endDate event\<rparr> = event"
    using eq by blast
qed

lemma split_nationalDay_Beijing:
  "splitMultiDayEvent 480 nationalDay =
     [nationalDay\<lparr>uid := ''a-day0'', date := ''2024-10-01'', endDate := None\<rparr>,
      nationalDay\<lparr>uid := ''a-day1'', date := ''2024-10-02'', endDate := None\<rparr>,
      nationalDay\<lparr>uid := ''a-day2'', date := ''2024-10-03'', endDate := None\<rparr>]"
  by code_simp

theorem split_preserves_other_fields_witness:
  "nationalDay\<lparr>uid := ''a-day1'', date := ''2024-10-02'', endDate := None\<rparr>
     \<in> set (splitMultiDayEvent 480 nationalDay)
   \<and> summary (nationalDay\<lparr>uid := ''a-day1'', date := ''2024-10-02'', endDate := None\<rparr>)
       = ''National Day''
   \<and> isHoliday (nationalDay\<lparr>uid := ''a-day1'', date := ''2024-10-02'', endDate := None\<rparr>)
       = Some True
   \<and> source (nationalDay\<lparr>uid := ''a-day1'', date := ''2024-10-02'', endDate := None\<rparr>)
       = icloud"
proof -
  let ?x = "nationalDay\<lparr>uid := ''a-day1'', date := ''2024-10-02'', endDate := None\<rparr>"
  have m: "?x \<in> set (splitMultiDayEvent 480 nationalDay)"
    by (simp add: split_nationalDay_Beijing)
  have "summary ?x = summary nationalDay \<and> isHoliday ?x = isHoliday nationalDay
        \<and> source ?x = source nationalDay"
    using split_preserves_other_fields [of 480 nationalDay] m by blast
  with m show ?thesis
    by (simp add: nationalDay_def)
qed

text \<open>
  An event without an end date, with an empty end date, or with an end date equal to its
  date comes back alone, without its end date and otherwise unchanged.
\<close>

lemma split_single_day:
  "endDate event = None \<or> endDate event = Some [] \<or> endDate event = Some (date event) \<Longrightarrow>
     splitMultiDayEvent tz event = [event\<lparr>endDate := None\<rparr>]"
  by (auto simp: splitMultiDayEvent_def)

text \<open>
  An event whose date and end date are ISO dates: one event per day from the local day
  of midnight UTC of the start date up to, not including, that of the end date, in
  ascending order, with the zero-based day index appended to the uid.
\<close>

lemma split_days:
  assumes "endDate event = Some ed" and "ed \<noteq> []" and "date event \<noteq> ed"
    and "Date_parse (date event) = Some start" and "Date_parse ed = Some e"
  shows "splitMultiDayEvent tz event =
     map (\<lambda>k. event\<lparr>uid := uid event @ ''-day'' @ String_int (int k),
                      date := dayString (Day start + int k + localDayShift tz),
                      endDate := None\<rparr>)
         [0..<nat (Day e - Day start)]"
proof -
  have s: "start = Day start * msPerDay" and e: "e = Day e * msPerDay"
    using assms(4,5) by (simp_all add: Date_parse_whole_days)
  have "splitMultiDayEvent tz event = splitLoop tz event e start 0"
    using assms by (simp add: splitMultiDayEvent_def)
  also have "\<dots> = splitLoop tz event (Day e * msPerDay) (Day start * msPerDay) 0"
    using s e by simp
  finally show ?thesis
    by (simp add: splitLoop_days)
qed

text \<open>
  On a host whose fixed offset puts local time at or ahead of UTC (by less than a day)
  the days are those of the half-open range from the date to the end date.
\<close>

lemma split_days_east_of_UTC:
  assumes "endDate event = Some ed" and "ed \<noteq> []" and "date event \<noteq> ed"
    and "Date_parse (date event) = Some start" and "Date_parse ed = Some e"
    and "0 \<le> tz" and "tz < 1440"
  shows "splitMultiDayEvent tz event =
     map (\<lambda>k. event\<lparr>uid := uid event @ ''-day'' @ String_int (int k),
                      date := dayString (Day start + int k),
                      endDate := None\<rparr>)
         [0..<nat (Day e - Day start)]"
  using split_days [OF assms(1-5), of tz] localDayShift_east [OF assms(6,7)] by simp

text \<open>
  Claim C2 does not hold of the code on a host whose local time is behind UTC. The date
  strings are read as midnight UTC (\<open>new Date(event.date)\<close>) but printed from the local
  fields (\<open>getFullYear\<close>, \<open>getMonth\<close>, \<open>getDate\<close>), so every day comes out one day early:
  at UTC-05:00 the event dated 2024-10-01 with end date 2024-10-04 yields the days
  2024-09-30, 2024-10-01 and 2024-10-02.
\<close>

theorem split_west_of_UTC_one_day_early:
  "splitMultiDayEvent (- 300) nationalDay =
     [nationalDay\<lparr>uid := ''a-day0'', date := ''2024-09-30'', endDate := None\<rparr>,
      nationalDay\<lparr>uid := ''a-day1'', date := ''2024-10-01'', endDate := None\<rparr>,
      nationalDay\<lparr>uid := ''a-day2'', date := ''2024-10-02'', endDate := None\<rparr>]"
  by code_simp

lemma split_days_west_of_UTC:
  assumes "endDate event = Some ed" and "ed \<noteq> []" and "date event \<noteq> ed"
    and "Date_parse (date event) = Some start" and "Date_parse ed = Some e"
    and "- 1440 \<le> tz" and "tz < 0"
  shows "splitMultiDayEvent tz event =
     map (\<lambda>k. event\<lparr>uid := uid event @ ''-day'' @ String_int (int k),
                      date := dayString (Day start + int k - 1),
                      endDate := None\<rparr>)
         [0..<nat (Day e - Day start)]"
  using split_days [OF assms(1-5), of tz] localDayShift_west [OF assms(6,7)] by simp

section \<open>Properties of mergeEvents\<close>

subsection \<open>The insertion-ordered map\<close>

lemma map_of_Map_set: "map_of (Map_set k v m) = (map_of m)(k \<mapsto> v)"
  by (induction m) auto

lemma keys_Map_set: "fst ` set (Map_set k v m) = insert k (fst ` set m)"
proof (induction m)
  case Nil
  then show ?case by simp
next
  case (Cons p m)
  obtain k' v' where p: "p = (k', v')" by (cases p)
  show ?case
  proof (cases "k = k'")
    case True
    with p show ?thesis by simp
  next
    case False
    with p Cons show ?thesis by (simp add: insert_commute)
  qed
qed

lemma distinct_Map_set: "distinct (map fst m) \<Longrightarrow> distinct (map fst (Map_set k v m))"
proof (induction m)
  case Nil
  then show ?case by simp
next
  case (Cons p m)
  obtain k' v' where p: "p = (k', v')" by (cases p)
  show ?case
  proof (cases "k = k'")
    case True
    with Cons p show ?thesis by simp
  next
    case False
    have "k' \<notin> fst ` set (Map_set k v m)"
      using Cons.prems False p by (simp add: keys_Map_set)
    with Cons p False show ?thesis by simp
  qed
qed

lemma set_Map_set: "p \<in> set (Map_set k v m) \<Longrightarrow> p = (k, v) \<or> p \<in> set m"
  by (induction m) (auto split: if_splits)

lemma distinct_keys_foldl:
  "distinct (map fst m) \<Longrightarrow>
     distinct (map fst (foldl (\<lambda>m event. Map_set (eventKey event) event m) m es))"
  by (induction es arbitrary: m) (simp_all add: distinct_Map_set)

lemma entries_foldl:
  "p \<in> set (foldl (\<lambda>m event. Map_set (eventKey event) event m) m es) \<Longrightarrow>
     p \<in> set m \<or> (snd p \<in> set es \<and> fst p = eventKey (snd p))"
proof (induction es arbitrary: m)
  case Nil
  then show ?case by simp
next
  case (Cons e es)
  from Cons.IH [of "Map_set (eventKey e) e m"] Cons.prems
  have "p \<in> set (Map_set (eventKey e) e m) \<or> (snd p \<in> set es \<and> fst p = eventKey (snd p))"
    by simp
  then show ?case
    using set_Map_set [of p "eventKey e" e m] by auto
qed

lemma map_of_foldl:
  "map_of (foldl (\<lambda>m event. Map_set (eventKey event) event m) m es) k =
     (if \<exists>e \<in> set es. eventKey e = k
      then Some (last (filter (\<lambda>e. eventKey e = k) es))
      else map_of m k)"
proof (induction es arbitrary: m)
  case Nil
  then show ?case by simp
next
  case (Cons e es)
  show ?case
  proof (cases "\<exists>x \<in> set es. eventKey x = k")
    case True
    then have "filter (\<lambda>e. eventKey e = k) es \<noteq> []"
      by (simp add: filter_empty_conv)
    with True show ?thesis
      by (simp add: Cons.IH)
  next
    case False
    then have "filter (\<lambda>e. eventKey e = k) es = []"
      by (simp add: filter_empty_conv)
    with False show ?thesis
      by (simp add: Cons.IH map_of_Map_set)
  qed
qed

lemma filter_key_distinct:
  "distinct (map fst m) \<Longrightarrow>
     filter (\<lambda>p. fst p = k) m = (case map_of m k of None \<Rightarrow> [] | Some v \<Rightarrow> [(k, v)])"
proof (induction m)
  case Nil
  then show ?case by simp
next
  case (Cons p m)
  obtain k' v' where p: "p = (k', v')" by (cases p)
  show ?case
  proof (cases "k' = k")
    case True
    then have "k \<notin> fst ` set m"
      using Cons.prems p by auto
    then have "filter (\<lambda>p. fst p = k) m = []"
      by (auto simp: filter_empty_conv)
    with True p show ?thesis by simp
  next
    case False
    with Cons p show ?thesis by simp
  qed
qed

subsection \<open>The sort\<close>

lemma mset_insert_by: "mset (insert_by cmp x ys) = add_mset x (mset ys)"
  by (induction ys) auto

lemma mset_Array_sort: "mset (Array_sort cmp xs) = mset xs"
  by (induction xs) (simp_all add: Array_sort_def mset_insert_by)

lemma set_Array_sort: "set (Array_sort cmp xs) = set xs"
  using mset_Array_sort [of cmp xs] by (metis set_mset_mset)

lemma filter_Array_sort_single:
  assumes "filter P xs = [v]"
  shows "filter P (Array_sort cmp xs) = [v]"
proof -
  have "mset (filter P (Array_sort cmp xs)) = filter_mset P (mset xs)"
    by (simp add: mset_Array_sort)
  also have "\<dots> = mset (filter P xs)"
    by simp
  also have "\<dots> = {#v#}"
    using assms by simp
  finally show ?thesis
    by (simp only: mset_single_iff)
qed


subsection \<open>The merged list\<close>

lemma mergeEvents_mergedValues:
  "mergeEvents L tz cmp icloudEvents startYear endYear =
     Array_sort (\<lambda>a b. cmp (date a) (date b))
       (mergedValues (map holidayToEvent (getExtraHolidaysForYears L tz startYear endYear))
          (concat (map (splitMultiDayEvent tz) icloudEvents)))"
  by (simp add: mergeEvents_def mergedValues_def Let_def)

lemma mergedValues_subset:
  "x \<in> set (mergedValues extras splits) \<Longrightarrow> x \<in> set extras \<or> x \<in> set splits"
  using entries_foldl [of _ "[]" "extras @ splits"]
  by (auto simp: mergedValues_def Map_values_def)


lemma mergedValues_key:
  assumes "\<exists>e \<in> set (extras @ splits). eventKey e = k"
  shows "filter (\<lambda>x. eventKey x = k) (mergedValues extras splits)
           = [last (filter (\<lambda>e. eventKey e = k) (extras @ splits))]"
proof -
  let ?m = "foldl (\<lambda>m event. Map_set (eventKey event) event m) [] (extras @ splits)"
  have keys: "\<And>p. p \<in> set ?m \<Longrightarrow> eventKey (snd p) = fst p"
    using entries_foldl [of _ "[]" "extras @ splits"] by auto
  have "filter (\<lambda>x. eventKey x = k) (map snd ?m)
          = map snd (filter (\<lambda>p. eventKey (snd p) = k) ?m)"
    by (simp add: filter_map o_def)
  also have "filter (\<lambda>p. eventKey (snd p) = k) ?m = filter (\<lambda>p. fst p = k) ?m"
    using keys by (intro filter_cong) auto
  also have "\<dots> = (case map_of ?m k of None \<Rightarrow> [] | Some v \<Rightarrow> [(k, v)])"
    by (rule filter_key_distinct) (rule distinct_keys_foldl, simp)
  also have "map_of ?m k = Some (last (filter (\<lambda>e. eventKey e = k) (extras @ splits)))"
    using assms by (simp only: map_of_foldl if_True)
  finally have "filter (\<lambda>x. eventKey x = k) (map snd ?m)
          = [last (filter (\<lambda>e. eventKey e = k) (extras @ splits))]"
    by simp
  then show ?thesis
    unfolding mergedValues_def Map_values_def .
qed

lemma last_filter_append:
  "filter P ys \<noteq> [] \<Longrightarrow> last (filter P (xs @ ys)) = last (filter P ys)"
  by simp

text \<open>
  Whatever the supplementary events are, a key produced by a split event of the feed has
  exactly one event in the output: the last split event of the feed with that key.
\<close>

lemma merge_key_upstream:
  assumes "u \<in> set (concat (map (splitMultiDayEvent tz) icloudEvents))"
  shows "filter (\<lambda>y. eventKey y = eventKey u)
           (mergeEvents L tz cmp icloudEvents startYear endYear)
         = [last (filter (\<lambda>y. eventKey y = eventKey u)
                    (concat (map (splitMultiDayEvent tz) icloudEvents)))]"
proof -
  let ?splits = "concat (map (splitMultiDayEvent tz) icloudEvents)"
  let ?extras = "map holidayToEvent (getExtraHolidaysForYears L tz startYear endYear)"
  have ne: "filter (\<lambda>y. eventKey y = eventKey u) ?splits \<noteq> []"
    using assms by (simp only: filter_empty_conv) blast
  have ex: "\<exists>e \<in> set (?extras @ ?splits). eventKey e = eventKey u"
    using assms by (intro bexI [of _ u]) simp_all
  have "filter (\<lambda>y. eventKey y = eventKey u) (mergedValues ?extras ?splits)
          = [last (filter (\<lambda>y. eventKey y = eventKey u) (?extras @ ?splits))]"
    using ex by (rule mergedValues_key)
  also have "last (filter (\<lambda>y. eventKey y = eventKey u) (?extras @ ?splits))
          = last (filter (\<lambda>y. eventKey y = eventKey u) ?splits)"
    using ne by (rule last_filter_append)
  finally show ?thesis
    unfolding mergeEvents_mergedValues by (rule filter_Array_sort_single)
qed

lemma split_source:
  "x \<in> set (concat (map (splitMultiDayEvent tz) icloudEvents)) \<Longrightarrow>
     \<exists>e \<in> set icloudEvents. source x = source e"
proof -
  assume "x \<in> set (concat (map (splitMultiDayEvent tz) icloudEvents))"
  then obtain e where e: "e \<in> set icloudEvents" "x \<in> set (splitMultiDayEvent tz e)"
    by auto
  from split_frame [OF e(2)]
  have "x\<lparr>uid := uid e, date := date e, endDate := endDate e\<rparr> = e" ..
  from arg_cong [OF this, of source] have "source x = source e" by simp
  with e(1) show ?thesis ..
qed

text \<open>
  The key of the code is the string \<open>date-summary\<close>. For events whose dates have the same
  length, as all dates of the form \<open>YYYY-MM-DD\<close> have, two keys are equal exactly when the
  dates and the summaries are.
\<close>

lemma eventKey_eq_iff:
  "length (date a) = length (date b) \<Longrightarrow>
     eventKey a = eventKey b \<longleftrightarrow> date a = date b \<and> summary a = summary b"
  by (simp add: eventKey_def)

text \<open>The events with a given date and summary are among those with the key of the two.\<close>

lemma filter_pair_key:
  "filter (\<lambda>y. date y = d \<and> summary y = s) xs
     = filter (\<lambda>y. date y = d \<and> summary y = s) (filter (\<lambda>y. eventKey y = d @ ''-'' @ s) xs)"
  by (induction xs) (auto simp: eventKey_def)

lemma valentine_is_extra:
  "\<lparr>h_name = summary valentine, h_date = ''2024-02-14'', h_category = western,
    h_description = Some [CHR 0xE8, CHR 0xA5, CHR 0xBF, CHR 0xE6, CHR 0x96, CHR 0xB9, CHR 0xE6,
      CHR 0x83, CHR 0x85, CHR 0xE4, CHR 0xBA, CHR 0xBA, CHR 0xE8, CHR 0x8A, CHR 0x82]\<rparr>
   \<in> set (getExtraHolidaysForYears lunar2024 480 2024 2024)"
proof -
  let ?h = "\<lparr>h_name = summary valentine, h_date = ''2024-02-14'', h_category = western,
    h_description = Some [CHR 0xE8, CHR 0xA5, CHR 0xBF, CHR 0xE6, CHR 0x96, CHR 0xB9, CHR 0xE6,
      CHR 0x83, CHR 0x85, CHR 0xE4, CHR 0xBA, CHR 0xBA, CHR 0xE8, CHR 0x8A, CHR 0x82]\<rparr>"
  have eq: "?h = hd (getFixedHolidays 2024)"
    by (simp add: getFixedHolidays_def String_int_2024 valentine_def)
  have "getFixedHolidays 2024 \<noteq> []"
    by (simp add: getFixedHolidays_def)
  then have "hd (getFixedHolidays 2024) \<in> set (getFixedHolidays 2024)"
    by (rule hd_in_set)
  then have "?h \<in> set (getFixedHolidays 2024)"
    by (simp only: eq)
  then have "?h \<in> set (getExtraHolidays lunar2024 480 2024)"
    by (simp add: getExtraHolidays_def)
  then show ?thesis
    by (simp add: getExtraHolidaysForYears.simps [of lunar2024 480 2024 2024])
qed

text \<open>
  Claim C1 as stated, for every upstream event, fails when the feed holds an event whose
  date is not of the form \<open>YYYY-MM-DD\<close>. The feed \<open>[valentine, februaryNote]\<close> and the
  supplementary holidays of 2024 both hold Valentine's day, 2024-02-14 with the same
  title. The second event of the feed, with the date \<open>2024-02\<close> and a title that begins
  with \<open>14-\<close>, yields the same key string and replaces it: the output holds no event with
  the date and the title of Valentine's day, and the one event filed under the key is
  \<open>februaryNote\<close>.
\<close>

theorem merge_key_collision:
  "valentine \<in> set (concat (map (splitMultiDayEvent 480) [valentine, februaryNote]))
   \<and> \<lparr>h_name = summary valentine, h_date = date valentine, h_category = western,
       h_description = Some [CHR 0xE8, CHR 0xA5, CHR 0xBF, CHR 0xE6, CHR 0x96, CHR 0xB9, CHR 0xE6,
         CHR 0x83, CHR 0x85, CHR 0xE4, CHR 0xBA, CHR 0xBA, CHR 0xE8, CHR 0x8A, CHR 0x82]\<rparr>
       \<in> set (getExtraHolidaysForYears lunar2024 480 2024 2024)
   \<and> filter (\<lambda>y. date y = date valentine \<and> summary y = summary valentine)
        (mergeEvents lunar2024 480 codeUnitCompare [valentine, februaryNote] 2024 2024) = []
   \<and> filter (\<lambda>y. eventKey y = eventKey valentine)
        (mergeEvents lunar2024 480 codeUnitCompare [valentine, februaryNote] 2024 2024)
       = [februaryNote]"
proof -
  let ?out = "mergeEvents lunar2024 480 codeUnitCompare [valentine, februaryNote] 2024 2024"
  have sp: "concat (map (splitMultiDayEvent 480) [valentine, februaryNote])
              = [valentine, februaryNote]"
    by (simp add: splitMultiDayEvent_def valentine_def februaryNote_def)
  have u: "valentine \<in> set (concat (map (splitMultiDayEvent 480) [valentine, februaryNote]))"
    by (simp only: sp) simp
  have k: "eventKey februaryNote = eventKey valentine"
    by (simp add: eventKey_def valentine_def februaryNote_def)
  have kv: "eventKey valentine = date valentine @ ''-'' @ summary valentine"
    by (simp add: eventKey_def)
  have key: "filter (\<lambda>y. eventKey y = eventKey valentine) ?out = [februaryNote]"
    using merge_key_upstream [OF u, of lunar2024 codeUnitCompare 2024 2024]
    unfolding sp by (simp add: k)
  have "filter (\<lambda>y. date y = date valentine \<and> summary y = summary valentine) ?out
          = filter (\<lambda>y. date y = date valentine \<and> summary y = summary valentine)
              (filter (\<lambda>y. eventKey y = eventKey valentine) ?out)"
    unfolding kv by (rule filter_pair_key)
  also have "\<dots> = []"
    unfolding key by (simp add: valentine_def februaryNote_def)
  finally have none:
    "filter (\<lambda>y. date y = date valentine \<and> summary y = summary valentine) ?out = []" .
  have d: "date valentine = ''2024-02-14''"
    by (simp add: valentine_def)
  show ?thesis
    using u valentine_is_extra none key unfolding d by simp
qed

text \<open>
  Claim C1 for feeds whose dates have one length. Let a split event \<open>u\<close> of the feed and a
  supplementary holiday \<open>h\<close> of the year range have the same date and the same title, and
  let the date of every split event of the feed be as long as that date. Then the output
  of \<open>mergeEvents\<close> holds exactly one event with that date and title; it is a split event
  of the feed (the last one with that date and title, so \<open>u\<close> itself when no other split
  event of the feed has them); and when the events of the feed carry the source icloud,
  as \<open>parseICS\<close> makes them, so does this event, which is then not the supplementary one.
\<close>

theorem merge_upstream_wins:
  assumes "u \<in> set (concat (map (splitMultiDayEvent tz) icloudEvents))"
    and "h \<in> set (getExtraHolidaysForYears L tz startYear endYear)"
    and "date u = h_date h" and "summary u = h_name h"
    and "\<forall>y \<in> set (concat (map (splitMultiDayEvent tz) icloudEvents)).
           length (date y) = length (h_date h)"
  shows "\<exists>x. filter (\<lambda>y. date y = h_date h \<and> summary y = h_name h)
               (mergeEvents L tz cmp icloudEvents startYear endYear) = [x]
           \<and> x \<in> set (concat (map (splitMultiDayEvent tz) icloudEvents))
           \<and> x = last (filter (\<lambda>y. date y = h_date h \<and> summary y = h_name h)
                         (concat (map (splitMultiDayEvent tz) icloudEvents)))
           \<and> ((\<forall>y \<in> set (concat (map (splitMultiDayEvent tz) icloudEvents)).
                  date y = h_date h \<and> summary y = h_name h \<longrightarrow> y = u) \<longrightarrow> x = u)
           \<and> ((\<forall>e \<in> set icloudEvents. source e = icloud) \<longrightarrow>
                  source x = icloud \<and> x \<noteq> holidayToEvent h)"
proof -
  let ?splits = "concat (map (splitMultiDayEvent tz) icloudEvents)"
  let ?out = "mergeEvents L tz cmp icloudEvents startYear endYear"
  let ?P = "\<lambda>y. date y = h_date h \<and> summary y = h_name h"
  let ?K = "\<lambda>y. eventKey y = eventKey u"
  have ku: "eventKey u = h_date h @ ''-'' @ h_name h"
    by (simp add: eventKey_def assms(3,4))
  have "?K y = ?P y" if "y \<in> set ?splits" for y
  proof -
    from bspec [OF assms(5) that] have "length (date y) = length (date u)"
      by (simp add: assms(3))
    from eventKey_eq_iff [OF this] show ?thesis
      by (simp add: assms(3,4))
  qed
  then have fs: "filter ?K ?splits = filter ?P ?splits"
    by (intro filter_cong) simp_all
  define x where "x = last (filter ?P ?splits)"
  have "filter ?P ?splits \<noteq> []"
    using assms(1,3,4) by (simp only: filter_empty_conv) blast
  then have "x \<in> set (filter ?P ?splits)"
    unfolding x_def by (rule last_in_set)
  then have xs: "x \<in> set ?splits" and xp: "?P x"
    by simp_all
  have key: "filter ?K ?out = [x]"
    using merge_key_upstream [OF assms(1), of L cmp startYear endYear]
    unfolding fs x_def .
  have "filter ?P ?out = filter ?P (filter ?K ?out)"
    unfolding ku by (rule filter_pair_key)
  also have "\<dots> = [x]"
    unfolding key using xp by simp
  finally have one: "filter ?P ?out = [x]" .
  have only: "(\<forall>y \<in> set ?splits. ?P y \<longrightarrow> y = u) \<longrightarrow> x = u"
    using xs xp by blast
  have src: "(\<forall>e \<in> set icloudEvents. source e = icloud) \<longrightarrow>
               source x = icloud \<and> x \<noteq> holidayToEvent h"
  proof
    assume a: "\<forall>e \<in> set icloudEvents. source e = icloud"
    from split_source [OF xs] a have s: "source x = icloud" by auto
    have "source (holidayToEvent h) = extra" by (simp add: holidayToEvent_def)
    with s show "source x = icloud \<and> x \<noteq> holidayToEvent h" by auto
  qed
  from one xs only src show ?thesis
    unfolding x_def by blast
qed

text \<open>
  The feed of the three days of National Day and Valentine's day, with the supplementary
  holidays of 2024: the one output event dated 2024-02-14 with the title of Valentine's
  day is the event of the feed.
\<close>

theorem merge_upstream_wins_witness:
  "filter (\<lambda>y. date y = ''2024-02-14'' \<and> summary y = summary valentine)
     (mergeEvents lunar2024 480 codeUnitCompare [nationalDay, valentine] 2024 2024)
     = [valentine]
   \<and> source valentine = icloud
   \<and> length (concat (map (splitMultiDayEvent 480) [nationalDay, valentine])) = 4"
proof -
  let ?h = "\<lparr>h_name = summary valentine, h_date = ''2024-02-14'', h_category = western,
    h_description = Some [CHR 0xE8, CHR 0xA5, CHR 0xBF, CHR 0xE6, CHR 0x96, CHR 0xB9, CHR 0xE6,
      CHR 0x83, CHR 0x85, CHR 0xE4, CHR 0xBA, CHR 0xBA, CHR 0xE8, CHR 0x8A, CHR 0x82]\<rparr>"
  have sv: "splitMultiDayEvent 480 valentine = [valentine]"
    by (simp add: splitMultiDayEvent_def valentine_def)
  have sp: "concat (map (splitMultiDayEvent 480) [nationalDay, valentine])
      = [nationalDay\<lparr>uid := ''a-day0'', date := ''2024-10-01'', endDate := None\<rparr>,
         nationalDay\<lparr>uid := ''a-day1'', date := ''2024-10-02'', endDate := None\<rparr>,
         nationalDay\<lparr>uid := ''a-day2'', date := ''2024-10-03'', endDate := None\<rparr>,
         valentine]"
    by (simp add: split_nationalDay_Beijing sv)
  have u: "valentine \<in> set (concat (map (splitMultiDayEvent 480) [nationalDay, valentine]))"
    by (simp only: sp) simp
  have len: "\<forall>y \<in> set (concat (map (splitMultiDayEvent 480) [nationalDay, valentine])).
               length (date y) = length (h_date ?h)"
    by (simp only: sp) (simp add: valentine_def nationalDay_def)
  have only: "\<forall>y \<in> set (concat (map (splitMultiDayEvent 480) [nationalDay, valentine])).
               date y = h_date ?h \<and> summary y = h_name ?h \<longrightarrow> y = valentine"
    by (simp only: sp) (simp add: valentine_def nationalDay_def)
  from merge_upstream_wins [OF u valentine_is_extra _ _ len, of codeUnitCompare] only
  obtain x where "filter (\<lambda>y. date y = h_date ?h \<and> summary y = h_name ?h)
               (mergeEvents lunar2024 480 codeUnitCompare [nationalDay, valentine] 2024 2024)
               = [x]"
    and "x = valentine"
    by (auto simp: valentine_def)
  then have a: "filter (\<lambda>y. date y = ''2024-02-14'' \<and> summary y = summary valentine)
     (mergeEvents lunar2024 480 codeUnitCompare [nationalDay, valentine] 2024 2024)
     = [valentine]"
    by simp
  have s: "source valentine = icloud"
    by (simp add: valentine_def)
  have l: "length (concat (map (splitMultiDayEvent 480) [nationalDay, valentine])) = 4"
    by (simp only: sp) simp
  from a s l show ?thesis
    by (intro conjI)
qed

subsection \<open>No end dates\<close>

text \<open>
  Claim C8. No event in the output of \<open>mergeEvents\<close> carries an end date, whatever the
  events of the feed and the year range are.
\<close>

theorem merge_no_endDate:
  "\<forall>x \<in> set (mergeEvents L tz cmp icloudEvents startYear endYear). endDate x = None"
proof
  fix x assume "x \<in> set (mergeEvents L tz cmp icloudEvents startYear endYear)"
  then have "x \<in> set (map holidayToEvent (getExtraHolidaysForYears L tz startYear endYear))
             \<or> x \<in> set (concat (map (splitMultiDayEvent tz) icloudEvents))"
    unfolding mergeEvents_mergedValues set_Array_sort by (rule mergedValues_subset)
  then show "endDate x = None"
  proof
    assume "x \<in> set (map holidayToEvent (getExtraHolidaysForYears L tz startYear endYear))"
    then show ?thesis by (auto simp: holidayToEvent_def)
  next
    assume "x \<in> set (concat (map (splitMultiDayEvent tz) icloudEvents))"
    then obtain e where "x \<in> set (splitMultiDayEvent tz e)" by auto
    then show ?thesis by (simp add: split_frame)
  qed
qed

theorem merge_no_endDate_witness:
  "nationalDay\<lparr>uid := ''a-day1'', date := ''2024-10-02'', endDate := None\<rparr>
     \<in> set (mergeEvents lunar2024 480 codeUnitCompare [valentine, nationalDay] 2024 2024)
   \<and> endDate nationalDay = Some ''2024-10-04''
   \<and> endDate (nationalDay\<lparr>uid := ''a-day1'', date := ''2024-10-02'', endDate := None\<rparr>)
       = None"
proof -
  let ?x = "nationalDay\<lparr>uid := ''a-day1'', date := ''2024-10-02'', endDate := None\<rparr>"
  let ?out = "mergeEvents lunar2024 480 codeUnitCompare [valentine, nationalDay] 2024 2024"
  have sp: "concat (map (splitMultiDayEvent 480) [valentine, nationalDay]) =
      [valentine,
       nationalDay\<lparr>uid := ''a-day0'', date := ''2024-10-01'', endDate := None\<rparr>,
       ?x,
       nationalDay\<lparr>uid := ''a-day2'', date := ''2024-10-03'', endDate := None\<rparr>]"
    by (simp add: split_nationalDay_Beijing split_single_day valentine_def)
  have u: "?x \<in> set (concat (map (splitMultiDayEvent 480) [valentine, nationalDay]))"
    by (simp only: sp) simp
  have "filter (\<lambda>y. eventKey y = eventKey ?x) ?out
          = [last (filter (\<lambda>y. eventKey y = eventKey ?x)
                     (concat (map (splitMultiDayEvent 480) [valentine, nationalDay])))]"
    using u by (rule merge_key_upstream)
  also have "\<dots> = [?x]"
    unfolding sp by (simp add: eventKey_def valentine_def nationalDay_def)
  finally have "?x \<in> set (filter (\<lambda>y. eventKey y = eventKey ?x) ?out)"
    by simp
  then have m: "?x \<in> set ?out"
    by simp
  from merge_no_endDate [of lunar2024 480 codeUnitCompare "[valentine, nationalDay]" 2024 2024] m
  have "endDate ?x = None" by (rule bspec)
  with m show ?thesis
    by (simp add: nationalDay_def)
qed

subsection \<open>Identifiers\<close>














section \<open>Properties of generateICS and parseICS\<close>

subsection \<open>Lines of the text\<close>

lemma splitOn_nonempty: "splitOn d s \<noteq> []"
  by (induction s) (auto split: list.splits)

lemma splitOn_absent: "d \<notin> set a \<Longrightarrow> splitOn d a = [a]"
  by (induction a) auto

lemma splitOn_first: "d \<notin> set a \<Longrightarrow> splitOn d (a @ d # rest) = a # splitOn d rest"
  by (induction a) (auto simp: splitOn_nonempty split: list.splits)

lemma stripCR_line: "stripCR (l @ [CHR 0x0D]) = l"
  by (simp add: stripCR_def)

lemma join_CRLF_step:
  "join CRLF (l # k # ls) = (l @ [CHR 0x0D]) @ CHR 0x0A # join CRLF (k # ls)"
  by (simp add: CRLF_def)

lemma splitOn_join:
  assumes "\<forall>l \<in> set ls. CHR 0x0A \<notin> set l" and "ls \<noteq> []"
  shows "splitOn CHR 0x0A (join CRLF ls) = map (\<lambda>l. l @ [CHR 0x0D]) (butlast ls) @ [last ls]"
  using assms
proof (induction ls)
  case Nil
  then show ?case by simp
next
  case (Cons l ls)
  show ?case
  proof (cases ls)
    case Nil
    with Cons.prems show ?thesis by (simp add: splitOn_absent)
  next
    case (Cons k ks)
    have "CHR 0x0A \<notin> set (l @ [CHR 0x0D])"
      using Cons.prems by simp
    then have "splitOn CHR 0x0A (join CRLF (l # k # ks))
        = (l @ [CHR 0x0D]) # splitOn CHR 0x0A (join CRLF (k # ks))"
      unfolding join_CRLF_step by (rule splitOn_first)
    moreover have "splitOn CHR 0x0A (join CRLF (k # ks))
        = map (\<lambda>l. l @ [CHR 0x0D]) (butlast (k # ks)) @ [last (k # ks)]"
      using Cons.IH Cons.prems Cons by simp
    ultimately show ?thesis
      using Cons by simp
  qed
qed

lemma join_Cons: "join sep (l # ls) = l @ (if ls = [] then [] else sep @ join sep ls)"
  by (cases ls) simp_all

lemma pieces_join:
  assumes "\<forall>l \<in> set ls. plainLine l" and "ls \<noteq> []"
  shows "pieces (join CRLF ls) = ls"
proof -
  have lf: "\<forall>l \<in> set ls. CHR 0x0A \<notin> set l"
    using assms(1) by (simp add: plainLine_def)
  have "hd ls \<in> set ls" using assms(2) by simp
  then have h: "hd ls \<noteq> []" "\<not> isBlank (hd (hd ls))"
    using assms(1) by (auto simp: plainLine_def)
  have "hd (join CRLF ls) = hd (hd ls)" "join CRLF ls \<noteq> []"
    using assms(2) h(1) by (cases ls; simp add: join_Cons)+
  then have dw: "dropWhile isBlank (join CRLF ls) = join CRLF ls"
    using h(2) by (cases "join CRLF ls") simp_all
  have "last ls \<in> set ls" using assms(2) by simp
  then have "last ls \<noteq> []"
    using assms(1) by (auto simp: plainLine_def)
  then show ?thesis
    using assms(2)
    by (simp add: pieces_def dw splitOn_join [OF lf assms(2)] Let_def o_def stripCR_line
        butlast_append)
qed

lemma lineStep_plain:
  "plainLine l \<Longrightarrow> lineStep (out, line) l = ((if line \<noteq> [] then out @ [line] else out), l)"
  by (simp add: lineStep_def plainLine_def)

lemma foldl_lineStep_plain:
  assumes "\<forall>l \<in> set ls. plainLine l" and "ls \<noteq> []"
  shows "foldl lineStep (out, line) ls
           = (out @ (if line \<noteq> [] then [line] else []) @ butlast ls, last ls)"
  using assms
proof (induction ls arbitrary: out line)
  case Nil
  then show ?case by simp
next
  case (Cons l ls)
  then have l: "plainLine l" by simp
  then have ne: "l \<noteq> []" by (simp add: plainLine_def)
  show ?case
  proof (cases "ls = []")
    case True
    with l show ?thesis by (simp add: lineStep_plain)
  next
    case False
    with Cons l ne show ?thesis by (simp add: lineStep_plain)
  qed
qed

lemma eachLine_join:
  assumes "\<forall>l \<in> set ls. plainLine l" and "ls \<noteq> []" and "trim (last ls) = last ls"
  shows "eachLine (join CRLF ls) = ls"
proof -
  have "last ls \<in> set ls" using assms(2) by simp
  then have "last ls \<noteq> []"
    using assms(1) by (auto simp: plainLine_def)
  then show ?thesis
    using assms(2,3)
    by (simp add: eachLine_def pieces_join [OF assms(1,2)]
        foldl_lineStep_plain [OF assms(1,2)])
qed

lemma digit_char_set: "n < 10 \<Longrightarrow> digit_char n \<in> decimalDigits"
  unfolding digit_char_def decimalDigits_def by (rule nth_mem) simp

lemma string_of_nat_set: "set (string_of_nat n) \<subseteq> decimalDigits"
proof (induction n rule: string_of_nat.induct)
  case (1 n)
  show ?case
  proof (cases "n < 10")
    case True
    then show ?thesis
      using digit_char_set [of n] by (simp add: string_of_nat.simps [of n])
  next
    case False
    then have "set (string_of_nat (n div 10)) \<subseteq> decimalDigits"
      by (rule "1.IH")
    moreover have "digit_char (n mod 10) \<in> decimalDigits"
      by (rule digit_char_set) simp
    ultimately show ?thesis
      using False by (simp add: string_of_nat.simps [of n])
  qed
qed

lemma String_int_set: "set (String_int i) \<subseteq> insert CHR ''-'' decimalDigits"
proof (cases "i < 0")
  case True
  with string_of_nat_set [of "nat (- i)"] show ?thesis
    by (simp add: String_int_def subset_insertI2)
next
  case False
  with string_of_nat_set [of "nat i"] show ?thesis
    by (simp add: String_int_def subset_insertI2)
qed

lemma padStart_set: "set (padStart n c s) \<subseteq> insert c (set s)"
  by (auto simp: padStart_def)

lemma no_LF_decimal: "CHR 0x0A \<notin> insert CHR ''-'' decimalDigits"
  by (simp add: decimalDigits_def)

lemma String_int_no_LF: "CHR 0x0A \<notin> set (String_int i)"
  using String_int_set [of i] no_LF_decimal by blast

lemma padStart_no_LF: "CHR 0x0A \<notin> set (padStart 2 CHR ''0'' (String_int i))"
  using padStart_set [of 2 "CHR ''0''" "String_int i"] String_int_no_LF [of i] by auto

lemma formatDateToICS_no_LF: "CHR 0x0A \<notin> set (formatDateToICS t)"
  by (simp add: formatDateToICS_def Let_def String_int_no_LF padStart_no_LF)

lemma plainLine_prefix:
  "p \<noteq> [] \<Longrightarrow> \<not> isBlank (hd p) \<Longrightarrow> CHR 0x0A \<notin> set p \<Longrightarrow> CHR 0x0A \<notin> set v \<Longrightarrow>
     plainLine (p @ v)"
  by (simp add: plainLine_def)

lemma dtendLines_plain:
  assumes "singleLine event"
  shows "\<forall>l \<in> set (dtendLines event). plainLine l"
proof (cases "endDate event")
  case None
  then show ?thesis by (simp add: dtendLines_def)
next
  case (Some ed)
  with assms show ?thesis
    by (simp add: dtendLines_def singleLine_def plainLine_def isBlank_def removeHyphens_def)
qed

lemma descriptionLines_plain:
  assumes "singleLine event"
  shows "\<forall>l \<in> set (descriptionLines event). plainLine l"
proof (cases "description event")
  case None
  then show ?thesis by (simp add: descriptionLines_def)
next
  case (Some d)
  with assms show ?thesis
    by (simp add: descriptionLines_def singleLine_def plainLine_def isBlank_def)
qed

lemma specialDayLines_plain: "\<forall>l \<in> set (specialDayLines event). plainLine l"
  by (simp add: specialDayLines_def plainLine_def isBlank_def)

lemma eventLines_plain:
  assumes "singleLine event"
  shows "\<forall>l \<in> set (eventLines now event). plainLine l"
proof -
  have "plainLine (''UID:'' @ uid event)"
    "plainLine (''DTSTAMP:'' @ formatDateToICS now)"
    "plainLine (''DTSTART;VALUE=DATE:'' @ removeHyphens (date event))"
    "plainLine (''SUMMARY;LANGUAGE=zh_CN:'' @ summary event)"
    "plainLine ''BEGIN:VEVENT''" "plainLine ''CLASS:PUBLIC''"
    "plainLine ''TRANSP:TRANSPARENT''" "plainLine ''END:VEVENT''"
    using assms formatDateToICS_no_LF [of now]
    by (simp_all add: singleLine_def plainLine_def isBlank_def removeHyphens_def)
  then show ?thesis
    unfolding eventLines_def
    using dtendLines_plain [OF assms] descriptionLines_plain [OF assms]
      specialDayLines_plain [of event]
    by (simp add: ball_Un)
qed

lemma eventsLines_plain:
  "\<forall>e \<in> set events. singleLine e \<Longrightarrow> \<forall>l \<in> set (eventsLines clock i events). plainLine l"
proof (induction events arbitrary: i)
  case Nil
  then show ?case by simp
next
  case (Cons e events)
  then have "\<forall>l \<in> set (eventLines (clock i) e). plainLine l"
    "\<forall>l \<in> set (eventsLines clock (i + 1) events). plainLine l"
    using eventLines_plain [of e "clock i"] by simp_all
  then show ?case by (simp add: ball_Un)
qed

lemma icsLines_plain:
  assumes "\<forall>e \<in> set events. singleLine e" and "CHR 0x0A \<notin> set calendarName"
  shows "\<forall>l \<in> set (icsLines clock events calendarName). plainLine l"
proof -
  have "plainLine ''BEGIN:VCALENDAR''" "plainLine ''VERSION:2.0''"
    "plainLine ''PRODID:-//Holiday Calendar//CN''" "plainLine ''CALSCALE:GREGORIAN''"
    "plainLine (''X-WR-CALNAME:'' @ calendarName)" "plainLine ''X-APPLE-LANGUAGE:zh''"
    "plainLine ''X-APPLE-REGION:CN''" "plainLine ''END:VCALENDAR''"
    using assms(2) by (simp_all add: plainLine_def isBlank_def)
  with eventsLines_plain [OF assms(1), of clock 0] show ?thesis
    unfolding icsLines_def by (simp add: ball_Un)
qed

lemma eachLine_generateICS:
  assumes "\<forall>e \<in> set events. singleLine e" and "CHR 0x0A \<notin> set calendarName"
  shows "eachLine (generateICS clock events calendarName) = icsLines clock events calendarName"
  unfolding generateICS_def
proof (rule eachLine_join)
  show "\<forall>l \<in> set (icsLines clock events calendarName). plainLine l"
    using assms by (rule icsLines_plain)
  show "icsLines clock events calendarName \<noteq> []"
    by (simp add: icsLines_def)
  show "trim (last (icsLines clock events calendarName)) = last (icsLines clock events calendarName)"
    by (simp add: icsLines_def trim_def isSpace_def)
qed

subsection \<open>Content lines\<close>

lemma lower_literals:
  "toLowerCase ''BEGIN'' = ''begin''" "toLowerCase ''END'' = ''end''"
  "toLowerCase ''VEVENT'' = ''vevent''" "toLowerCase ''VCALENDAR'' = ''vcalendar''"
  "toLowerCase ''UID'' = ''uid''" "toLowerCase ''DTSTAMP'' = ''dtstamp''"
  "toLowerCase ''DTSTART'' = ''dtstart''" "toLowerCase ''DTEND'' = ''dtend''"
  "toLowerCase ''SUMMARY'' = ''summary''" "toLowerCase ''DESCRIPTION'' = ''description''"
  "toLowerCase ''CLASS'' = ''class''" "toLowerCase ''TRANSP'' = ''transp''"
  "toLowerCase ''X-APPLE-SPECIAL-DAY'' = ''x-apple-special-day''"
  "toLowerCase ''VERSION'' = ''version''" "toLowerCase ''PRODID'' = ''prodid''"
  "toLowerCase ''CALSCALE'' = ''calscale''" "toLowerCase ''X-WR-CALNAME'' = ''x-wr-calname''"
  "toLowerCase ''X-APPLE-LANGUAGE'' = ''x-apple-language''"
  "toLowerCase ''X-APPLE-REGION'' = ''x-apple-region''"
  "toLowerCase ''VALUE'' = ''value''" "toLowerCase ''DATE'' = ''date''"
  "toLowerCase ''LANGUAGE'' = ''language''"
  by (simp_all add: toLowerCase_def lowerChar_def)

subsection \<open>Content lines and the component tree\<close>

lemma handle_begin_end:
  "handleContentLine ''BEGIN:VCALENDAR'' = Some (LBegin ''vcalendar'')"
  "handleContentLine ''BEGIN:VEVENT'' = Some (LBegin ''vevent'')"
  "handleContentLine ''END:VEVENT'' = Some LEnd"
  "handleContentLine ''END:VCALENDAR'' = Some LEnd"
  by (simp_all add: handleContentLine_def lower_literals Let_def)

lemma property_plain_lines:
  "propertyOfLine (''UID:'' @ v) = Some \<lparr>p_name = ''uid'', p_type = ''text'', p_raw = v\<rparr>"
  "propertyOfLine (''DTSTAMP:'' @ v)
     = Some \<lparr>p_name = ''dtstamp'', p_type = ''date-time'', p_raw = v\<rparr>"
  "propertyOfLine (''DESCRIPTION:'' @ v)
     = Some \<lparr>p_name = ''description'', p_type = ''text'', p_raw = v\<rparr>"
  "propertyOfLine (''X-WR-CALNAME:'' @ v)
     = Some \<lparr>p_name = ''x-wr-calname'', p_type = ''unknown'', p_raw = v\<rparr>"
  by (simp_all add: propertyOfLine_def handleContentLine_def lower_literals Let_def
      valueType_def defaultType_def)

lemma property_fixed_lines:
  "propertyOfLine ''VERSION:2.0'' = Some \<lparr>p_name = ''version'', p_type = ''text'', p_raw = ''2.0''\<rparr>"
  "propertyOfLine ''PRODID:-//Holiday Calendar//CN''
     = Some \<lparr>p_name = ''prodid'', p_type = ''text'', p_raw = ''-//Holiday Calendar//CN''\<rparr>"
  "propertyOfLine ''CALSCALE:GREGORIAN''
     = Some \<lparr>p_name = ''calscale'', p_type = ''text'', p_raw = ''GREGORIAN''\<rparr>"
  "propertyOfLine ''X-APPLE-LANGUAGE:zh''
     = Some \<lparr>p_name = ''x-apple-language'', p_type = ''unknown'', p_raw = ''zh''\<rparr>"
  "propertyOfLine ''X-APPLE-REGION:CN''
     = Some \<lparr>p_name = ''x-apple-region'', p_type = ''unknown'', p_raw = ''CN''\<rparr>"
  "propertyOfLine ''CLASS:PUBLIC'' = Some \<lparr>p_name = ''class'', p_type = ''text'', p_raw = ''PUBLIC''\<rparr>"
  "propertyOfLine ''TRANSP:TRANSPARENT''
     = Some \<lparr>p_name = ''transp'', p_type = ''text'', p_raw = ''TRANSPARENT''\<rparr>"
  "propertyOfLine ''X-APPLE-SPECIAL-DAY:WORK-HOLIDAY''
     = Some \<lparr>p_name = ''x-apple-special-day'', p_type = ''unknown'', p_raw = ''WORK-HOLIDAY''\<rparr>"
  "propertyOfLine ''X-APPLE-SPECIAL-DAY:ALTERNATE-WORKDAY''
     = Some \<lparr>p_name = ''x-apple-special-day'', p_type = ''unknown'',
             p_raw = ''ALTERNATE-WORKDAY''\<rparr>"
  by (simp_all add: propertyOfLine_def handleContentLine_def lower_literals Let_def
      valueType_def defaultType_def)

lemma property_parameter_lines:
  "propertyOfLine (''DTSTART;VALUE=DATE:'' @ v)
     = Some \<lparr>p_name = ''dtstart'', p_type = ''date'', p_raw = v\<rparr>"
  "propertyOfLine (''DTEND;VALUE=DATE:'' @ v)
     = Some \<lparr>p_name = ''dtend'', p_type = ''date'', p_raw = v\<rparr>"
  "propertyOfLine (''SUMMARY;LANGUAGE=zh_CN:'' @ v)
     = Some \<lparr>p_name = ''summary'', p_type = ''text'', p_raw = v\<rparr>"
  by (simp_all add: propertyOfLine_def handleContentLine_def lower_literals Let_def
      valueType_def defaultType_def parseParameter_def)

lemma parseLines_property:
  "propertyOfLine l = Some p \<Longrightarrow>
     parseLines (Component n ps subs # stack, roots) (l # rest)
       = parseLines (Component n (ps @ [p]) subs # stack, roots) rest"
  by (auto simp: propertyOfLine_def split: option.splits ContentLine.splits)

lemma parseLines_properties:
  "list_all2 (\<lambda>l p. propertyOfLine l = Some p) ls qs \<Longrightarrow>
     parseLines (Component n ps subs # stack, roots) (ls @ rest)
       = parseLines (Component n (ps @ qs) subs # stack, roots) rest"
proof (induction ls qs arbitrary: ps rule: list_all2_induct)
  case Nil
  then show ?case by simp
next
  case (Cons l ls p qs)
  have "parseLines (Component n ps subs # stack, roots) ((l # ls) @ rest)
      = parseLines (Component n (ps @ [p]) subs # stack, roots) (ls @ rest)"
    using Cons.hyps(1) by (simp only: append_Cons parseLines_property)
  also have "\<dots> = parseLines (Component n ((ps @ [p]) @ qs) subs # stack, roots) rest"
    by (rule Cons.IH)
  finally show ?case by simp
qed

lemma dtend_properties:
  "list_all2 (\<lambda>l p. propertyOfLine l = Some p) (dtendLines event) (dtendProps event)"
  by (cases "endDate event")
    (simp_all add: dtendLines_def dtendProps_def property_parameter_lines [simplified])

lemma description_properties:
  "list_all2 (\<lambda>l p. propertyOfLine l = Some p) (descriptionLines event) (descriptionProps event)"
  by (cases "description event")
    (simp_all add: descriptionLines_def descriptionProps_def property_plain_lines [simplified])

lemma specialDay_properties:
  "list_all2 (\<lambda>l p. propertyOfLine l = Some p) (specialDayLines event) (specialDayProps event)"
  by (simp add: specialDayLines_def specialDayProps_def property_fixed_lines)

lemma event_properties:
  "list_all2 (\<lambda>l p. propertyOfLine l = Some p)
     ([''UID:'' @ uid event,
       ''DTSTAMP:'' @ formatDateToICS now,
       ''DTSTART;VALUE=DATE:'' @ removeHyphens (date event)]
      @ dtendLines event
      @ [''SUMMARY;LANGUAGE=zh_CN:'' @ summary event]
      @ descriptionLines event
      @ [''CLASS:PUBLIC'', ''TRANSP:TRANSPARENT'']
      @ specialDayLines event)
     (eventProps now event)"
  unfolding eventProps_def
  by (intro list_all2_appendI dtend_properties description_properties specialDay_properties)
    (simp_all add: property_plain_lines [simplified] property_parameter_lines [simplified]
      property_fixed_lines)

lemma eventLines_shape:
  "eventLines now event =
     ''BEGIN:VEVENT''
     # ([''UID:'' @ uid event,
         ''DTSTAMP:'' @ formatDateToICS now,
         ''DTSTART;VALUE=DATE:'' @ removeHyphens (date event)]
        @ dtendLines event
        @ [''SUMMARY;LANGUAGE=zh_CN:'' @ summary event]
        @ descriptionLines event
        @ [''CLASS:PUBLIC'', ''TRANSP:TRANSPARENT'']
        @ specialDayLines event)
     @ [''END:VEVENT'']"
  by (simp add: eventLines_def)

lemma parseLines_event:
  "parseLines (Component n ps subs # stack, roots) (eventLines now event @ rest)
     = parseLines
         (Component n ps (subs @ [Component ''vevent'' (eventProps now event) []]) # stack, roots)
         rest"
proof -
  let ?body = "[''UID:'' @ uid event,
         ''DTSTAMP:'' @ formatDateToICS now,
         ''DTSTART;VALUE=DATE:'' @ removeHyphens (date event)]
        @ dtendLines event
        @ [''SUMMARY;LANGUAGE=zh_CN:'' @ summary event]
        @ descriptionLines event
        @ [''CLASS:PUBLIC'', ''TRANSP:TRANSPARENT'']
        @ specialDayLines event"
  have "parseLines (Component n ps subs # stack, roots) (eventLines now event @ rest)
      = parseLines (Component ''vevent'' [] [] # Component n ps subs # stack, roots)
          (?body @ ''END:VEVENT'' # rest)"
    unfolding eventLines_shape by (simp add: handle_begin_end)
  also have "\<dots> = parseLines
        (Component ''vevent'' ([] @ eventProps now event) [] # Component n ps subs # stack, roots)
        (''END:VEVENT'' # rest)"
    using event_properties [of event now] by (rule parseLines_properties)
  finally show ?thesis
    by (simp add: handle_begin_end)
qed

lemma parseLines_events:
  "parseLines (Component n ps subs # stack, roots) (eventsLines clock i events @ rest)
     = parseLines (Component n ps (subs @ vevents clock i events) # stack, roots) rest"
proof (induction events arbitrary: i subs)
  case Nil
  then show ?case by simp
next
  case (Cons e events)
  have "parseLines (Component n ps subs # stack, roots) (eventsLines clock i (e # events) @ rest)
      = parseLines (Component n ps subs # stack, roots)
          (eventLines (clock i) e @ eventsLines clock (i + 1) events @ rest)"
    by simp
  also have "\<dots> = parseLines
      (Component n ps (subs @ [Component ''vevent'' (eventProps (clock i) e) []]) # stack, roots)
      (eventsLines clock (i + 1) events @ rest)"
    by (rule parseLines_event)
  also have "\<dots> = parseLines
      (Component n ps ((subs @ [Component ''vevent'' (eventProps (clock i) e) []])
                        @ vevents clock (i + 1) events) # stack, roots) rest"
    by (rule Cons.IH)
  finally show ?case by simp
qed

lemma header_properties:
  "list_all2 (\<lambda>l p. propertyOfLine l = Some p)
     [''VERSION:2.0'', ''PRODID:-//Holiday Calendar//CN'', ''CALSCALE:GREGORIAN'',
      ''X-WR-CALNAME:'' @ calendarName, ''X-APPLE-LANGUAGE:zh'', ''X-APPLE-REGION:CN'']
     (headerProps calendarName)"
  by (simp add: headerProps_def property_fixed_lines property_plain_lines [simplified])

lemma parseLines_icsLines:
  "parseLines ([], []) (icsLines clock events calendarName)
     = Some ([], [Component ''vcalendar'' (headerProps calendarName) (vevents clock 0 events)])"
proof -
  let ?hdr = "[''VERSION:2.0'', ''PRODID:-//Holiday Calendar//CN'', ''CALSCALE:GREGORIAN'',
      ''X-WR-CALNAME:'' @ calendarName, ''X-APPLE-LANGUAGE:zh'', ''X-APPLE-REGION:CN'']"
  have "icsLines clock events calendarName
      = ''BEGIN:VCALENDAR'' # ?hdr @ eventsLines clock 0 events @ [''END:VCALENDAR'']"
    by (simp add: icsLines_def)
  then have "parseLines ([], []) (icsLines clock events calendarName)
      = parseLines ([Component ''vcalendar'' [] []], [])
          (?hdr @ eventsLines clock 0 events @ [''END:VCALENDAR''])"
    by (simp add: handle_begin_end)
  also have "\<dots> = parseLines ([Component ''vcalendar'' ([] @ headerProps calendarName) []], [])
          (eventsLines clock 0 events @ [''END:VCALENDAR''])"
    using header_properties by (rule parseLines_properties)
  also have "\<dots> = parseLines
      ([Component ''vcalendar'' ([] @ headerProps calendarName) ([] @ vevents clock 0 events)], [])
      [''END:VCALENDAR'']"
    by (rule parseLines_events)
  finally show ?thesis
    by (simp add: handle_begin_end)
qed

lemma ICAL_parse_generateICS:
  assumes "\<forall>e \<in> set events. singleLine e" and "CHR 0x0A \<notin> set calendarName"
  shows "ICAL_parse (generateICS clock events calendarName)
     = Some (Component ''vcalendar'' (headerProps calendarName) (vevents clock 0 events))"
  by (simp add: ICAL_parse_def eachLine_generateICS [OF assms] parseLines_icsLines)

lemma vevents_named: "filter (\<lambda>c. case c of Component sn sps ssubs \<Rightarrow> sn = ''vevent'')
    (vevents clock i events) = vevents clock i events"
  by (induction events arbitrary: i) simp_all

lemma getAllSubcomponents_generateICS:
  "getAllSubcomponents
     (Component ''vcalendar'' (headerProps calendarName) (vevents clock 0 events)) ''vevent''
     = vevents clock 0 events"
  by (simp add: getAllSubcomponents_def vevents_named)

subsection \<open>Dates through the text\<close>

lemma digit_facts:
  assumes "isDigit c"
  shows "digitOf c < 10" and "digit_char (digitOf c) = c"
    and "digit_val c = Some (int (digitOf c))" and "c \<noteq> CHR ''-''"
    and "c \<noteq> CHR ''0'' \<Longrightarrow> 0 < digitOf c"
proof -
  from assms consider "c = CHR ''0''" | "c = CHR ''1''" | "c = CHR ''2''" | "c = CHR ''3''"
    | "c = CHR ''4''" | "c = CHR ''5''" | "c = CHR ''6''" | "c = CHR ''7''"
    | "c = CHR ''8''" | "c = CHR ''9''"
    by (auto simp: isDigit_def)
  then have "digitOf c < 10 \<and> digit_char (digitOf c) = c
      \<and> digit_val c = Some (int (digitOf c)) \<and> c \<noteq> CHR ''-''
      \<and> (c \<noteq> CHR ''0'' \<longrightarrow> 0 < digitOf c)"
    by cases (simp_all add: digitOf_def digit_char_def digit_val_def)
  then show "digitOf c < 10" and "digit_char (digitOf c) = c"
    and "digit_val c = Some (int (digitOf c))" and "c \<noteq> CHR ''-''"
    and "c \<noteq> CHR ''0'' \<Longrightarrow> 0 < digitOf c"
    by simp_all
qed

lemma string_of_nat_digit: "n < 10 \<Longrightarrow> string_of_nat n = [digit_char n]"
  by (simp add: string_of_nat.simps [of n])

lemma string_of_nat_step:
  "0 < n \<Longrightarrow> b < 10 \<Longrightarrow> string_of_nat (10 * n + b) = string_of_nat n @ [digit_char b]"
  by (simp add: string_of_nat.simps [of "10 * n + b"])

lemma String_int_nat: "String_int (int n) = string_of_nat n"
  by (simp add: String_int_def)

lemma two_digits_roundtrip:
  assumes "x < 10" and "y < 10"
  shows "padStart 2 CHR ''0'' (String_int (10 * int x + int y)) = [digit_char x, digit_char y]"
proof -
  have "10 * int x + int y = int (10 * x + y)" by simp
  then have s: "String_int (10 * int x + int y) = string_of_nat (10 * x + y)"
    by (simp only: String_int_nat)
  show ?thesis
  proof (cases "x = 0")
    case True
    then have "string_of_nat (10 * x + y) = [digit_char y]"
      using assms by (simp add: string_of_nat_digit)
    with True show ?thesis
      unfolding s by (simp add: padStart_def digit_char_def)
  next
    case False
    then have "string_of_nat (10 * x + y) = [digit_char x, digit_char y]"
      using assms by (simp add: string_of_nat_step string_of_nat_digit)
    then show ?thesis
      unfolding s by (simp add: padStart_def)
  qed
qed

lemma four_digits_roundtrip:
  assumes "0 < x" and "x < 10" and "y < 10" and "z < 10" and "w < 10"
  shows "String_int (10 * (10 * (10 * int x + int y) + int z) + int w)
           = [digit_char x, digit_char y, digit_char z, digit_char w]"
proof -
  have "10 * (10 * (10 * int x + int y) + int z) + int w
      = int (10 * (10 * (10 * x + y) + z) + w)"
    by simp
  then have "String_int (10 * (10 * (10 * int x + int y) + int z) + int w)
      = string_of_nat (10 * (10 * (10 * x + y) + z) + w)"
    by (simp only: String_int_nat)
  also have "\<dots> = string_of_nat (10 * (10 * x + y) + z) @ [digit_char w]"
    using assms by (intro string_of_nat_step) simp_all
  also have "string_of_nat (10 * (10 * x + y) + z) = string_of_nat (10 * x + y) @ [digit_char z]"
    using assms by (intro string_of_nat_step) simp_all
  also have "string_of_nat (10 * x + y) = string_of_nat x @ [digit_char y]"
    using assms by (intro string_of_nat_step) simp_all
  also have "string_of_nat x = [digit_char x]"
    using assms by (simp add: string_of_nat_digit)
  finally show ?thesis by simp
qed

lemma length_ten:
  "length s = 10 \<Longrightarrow> \<exists>a b c d p e f q g h. s = [a, b, c, d, p, e, f, q, g, h]"
  by (simp add: eval_nat_numeral length_Suc_conv) blast

lemma isoDate_shape:
  assumes "isoDate s"
  obtains a b c d e f g h where "s = [a, b, c, d, CHR ''-'', e, f, CHR ''-'', g, h]"
    and "isDigit a" "isDigit b" "isDigit c" "isDigit d" "isDigit e" "isDigit f"
    "isDigit g" "isDigit h" and "a \<noteq> CHR ''0''"
proof -
  from assms have "length s = 10" by (simp add: isoDate_def)
  from length_ten [OF this] obtain a b c d p e f q g h
    where s: "s = [a, b, c, d, p, e, f, q, g, h]"
    by (elim exE)
  with assms have "p = CHR ''-''" "q = CHR ''-''" "isDigit a" "isDigit b" "isDigit c"
    "isDigit d" "isDigit e" "isDigit f" "isDigit g" "isDigit h" "a \<noteq> CHR ''0''"
    by (simp_all add: isoDate_def slice_def)
  with s that show thesis by blast
qed

text \<open>
  \<open>ICAL.Time\<close> leaves a calendar date as it is: its leap years include those of the
  \<open>Date\<close> built-in.
\<close>

lemma InLeapYear_le_Time: "InLeapYear y \<le> Time_isLeapYear y"
  by (auto simp: InLeapYear_def DaysInYear_def Time_isLeapYear_def)

lemma Time_adjust_valid:
  assumes "1 \<le> m" and "m \<le> 12" and "1 \<le> d" and "d \<le> DaysInMonth y m"
  shows "Time_adjust y m d = (y, m, d)"
proof -
  have "DaysInMonth y m \<le> Time_daysInMonth m y"
    using assms(1,2) InLeapYear_le_Time [of y]
    by (simp add: DaysInMonth_def Time_daysInMonth_def)
  with assms(4) have "d \<le> Time_daysInMonth m y"
    by simp
  then have "daysForward y m d = (y, m, d)"
    by (simp add: daysForward.simps [of y m d])
  with assms show ?thesis
    by (simp add: Time_adjust_def Let_def)
qed

lemma isoDate_roundtrip:
  assumes "isoDate s"
  shows "\<exists>y m d. decodeValue ''date'' (removeHyphens s) = Some (VTime y m d)
           \<and> formatICALDate (VTime y m d) = s"
proof -
  from assms obtain a b c d e f g h where s: "s = [a, b, c, d, CHR ''-'', e, f, CHR ''-'', g, h]"
    and dg: "isDigit a" "isDigit b" "isDigit c" "isDigit d" "isDigit e" "isDigit f"
    "isDigit g" "isDigit h" and a0: "a \<noteq> CHR ''0''"
    by (rule isoDate_shape)
  let ?y = "10 * (10 * (10 * int (digitOf a) + int (digitOf b)) + int (digitOf c))
              + int (digitOf d)"
  let ?m = "10 * int (digitOf e) + int (digitOf f)"
  let ?d = "10 * int (digitOf g) + int (digitOf h)"
  have rh: "removeHyphens s = [a, b, c, d, e, f, g, h]"
    using dg by (simp add: s removeHyphens_def digit_facts(4))
  from assms have "1 \<le> ?m \<and> ?m \<le> 12 \<and> 1 \<le> ?d \<and> ?d \<le> DaysInMonth ?y ?m"
    using dg by (simp add: isoDate_def s slice_def digit_facts(3))
  then have "Time_adjust ?y ?m ?d = (?y, ?m, ?d)"
    by (intro Time_adjust_valid) simp_all
  then have dec: "decodeValue ''date'' (removeHyphens s) = Some (VTime ?y ?m ?d)"
    using dg by (simp add: rh decodeValue_def slice_def digit_facts(3))
  have "String_int ?y
      = [digit_char (digitOf a), digit_char (digitOf b), digit_char (digitOf c),
         digit_char (digitOf d)]"
    using dg a0 by (intro four_digits_roundtrip digit_facts)
  then have y: "String_int ?y = [a, b, c, d]"
    using dg by (simp only: digit_facts(2))
  have "padStart 2 CHR ''0'' (String_int ?m) = [digit_char (digitOf e), digit_char (digitOf f)]"
    using dg by (intro two_digits_roundtrip digit_facts)
  then have m: "padStart 2 CHR ''0'' (String_int ?m) = [e, f]"
    using dg by (simp only: digit_facts(2))
  have "padStart 2 CHR ''0'' (String_int ?d) = [digit_char (digitOf g), digit_char (digitOf h)]"
    using dg by (intro two_digits_roundtrip digit_facts)
  then have d: "padStart 2 CHR ''0'' (String_int ?d) = [g, h]"
    using dg by (simp only: digit_facts(2))
  have "formatICALDate (VTime ?y ?m ?d) = s"
    unfolding formatICALDate_def ICALValue.case y m d by (simp add: s)
  with dec show ?thesis by blast
qed

subsection \<open>Reading the events back\<close>

lemma filter_dtendProps:
  "filter (\<lambda>p. p_name p = n) (dtendProps event) = (if n = ''dtend'' then dtendProps event else [])"
  by (cases "endDate event") (auto simp: dtendProps_def)

lemma filter_descriptionProps:
  "filter (\<lambda>p. p_name p = n) (descriptionProps event)
     = (if n = ''description'' then descriptionProps event else [])"
  by (cases "description event") (auto simp: descriptionProps_def)

lemma filter_specialDayProps:
  "filter (\<lambda>p. p_name p = n) (specialDayProps event)
     = (if n = ''x-apple-special-day'' then specialDayProps event else [])"
  by (auto simp: specialDayProps_def)

lemma filter_eventProps:
  "filter (\<lambda>p. p_name p = ''summary'') (eventProps now event)
     = [\<lparr>p_name = ''summary'', p_type = ''text'', p_raw = summary event\<rparr>]"
  "filter (\<lambda>p. p_name p = ''uid'') (eventProps now event)
     = [\<lparr>p_name = ''uid'', p_type = ''text'', p_raw = uid event\<rparr>]"
  "filter (\<lambda>p. p_name p = ''dtstart'') (eventProps now event)
     = [\<lparr>p_name = ''dtstart'', p_type = ''date'', p_raw = removeHyphens (date event)\<rparr>]"
  "filter (\<lambda>p. p_name p = ''dtend'') (eventProps now event) = dtendProps event"
  "filter (\<lambda>p. p_name p = ''x-apple-special-day'') (eventProps now event)
     = specialDayProps event"
  by (simp_all add: eventProps_def filter_dtendProps filter_descriptionProps
      filter_specialDayProps)

lemma first_summary:
  "getFirstPropertyValue (Component ''vevent'' (eventProps now event) []) ''summary''
     = Inr (Some (VText (unescape (summary event))))"
  by (simp add: getFirstPropertyValue_def filter_eventProps decodeValue_def)

lemma first_uid:
  "getFirstPropertyValue (Component ''vevent'' (eventProps now event) []) ''uid''
     = Inr (Some (VText (unescape (uid event))))"
  by (simp add: getFirstPropertyValue_def filter_eventProps decodeValue_def)

lemma first_dtstart:
  assumes "isoDate (date event)"
  shows "\<exists>y m d. getFirstPropertyValue (Component ''vevent'' (eventProps now event) []) ''dtstart''
             = Inr (Some (VTime y m d))
           \<and> formatICALDate (VTime y m d) = date event"
proof -
  from isoDate_roundtrip [OF assms] obtain y m d
    where "decodeValue ''date'' (removeHyphens (date event)) = Some (VTime y m d)"
      and "formatICALDate (VTime y m d) = date event"
    by blast
  then show ?thesis
    by (simp add: getFirstPropertyValue_def filter_eventProps)
qed

lemma first_dtend_absent:
  assumes "endDate event = None \<or> endDate event = Some []"
  shows "getFirstPropertyValue (Component ''vevent'' (eventProps now event) []) ''dtend''
           = Inr None"
  using assms by (auto simp: getFirstPropertyValue_def filter_eventProps dtendProps_def)

lemma first_dtend_present:
  assumes "endDate event = Some ed" and "ed \<noteq> []" and "isoDate ed"
  shows "\<exists>y m d. getFirstPropertyValue (Component ''vevent'' (eventProps now event) []) ''dtend''
             = Inr (Some (VTime y m d))
           \<and> formatICALDate (VTime y m d) = ed"
proof -
  from isoDate_roundtrip [OF assms(3)] obtain y m d
    where "decodeValue ''date'' (removeHyphens ed) = Some (VTime y m d)"
      and "formatICALDate (VTime y m d) = ed"
    by blast
  then show ?thesis
    using assms(1,2) by (simp add: getFirstPropertyValue_def filter_eventProps dtendProps_def)
qed

lemma first_special:
  "getFirstPropertyValue (Component ''vevent'' (eventProps now event) [])
     ''x-apple-special-day''
     = Inr (if truthy_bool (isHoliday event) then Some (VText ''WORK-HOLIDAY'')
            else if truthy_bool (isWorkday event) then Some (VText ''ALTERNATE-WORKDAY'')
            else None)"
  by (simp add: getFirstPropertyValue_def filter_eventProps specialDayProps_def decodeValue_def)

lemma parseVEvent_generated:
  assumes "isoDates event"
  shows "parseVEvent uuid (Component ''vevent'' (eventProps now event) [])
           = Inr (Some (reparsed uuid event))"
proof -
  from assms have iso: "isoDate (date event)" by (simp add: isoDates_def)
  from first_dtstart [OF iso, of now] obtain y m d
    where st: "getFirstPropertyValue (Component ''vevent'' (eventProps now event) []) ''dtstart''
             = Inr (Some (VTime y m d))"
      and fst: "formatICALDate (VTime y m d) = date event"
    by blast
  show ?thesis
  proof (cases "endDate event = None \<or> endDate event = Some []")
    case True
    then have en: "getFirstPropertyValue (Component ''vevent'' (eventProps now event) []) ''dtend''
           = Inr None"
      by (rule first_dtend_absent)
    from True have e: "(case endDate event of None \<Rightarrow> None
                 | Some ed \<Rightarrow> if ed \<noteq> [] then Some ed else None) = None"
      by auto
    show ?thesis
      unfolding parseVEvent_def first_summary first_uid st en first_special reparsed_def e
      by (simp add: fst Let_def)
  next
    case False
    then obtain ed where ed: "endDate event = Some ed" "ed \<noteq> []"
      by (cases "endDate event") auto
    with assms have "isoDate ed" by (simp add: isoDates_def)
    from first_dtend_present [OF ed this, of now] obtain y' m' d'
      where en: "getFirstPropertyValue (Component ''vevent'' (eventProps now event) []) ''dtend''
             = Inr (Some (VTime y' m' d'))"
        and fen: "formatICALDate (VTime y' m' d') = ed"
      by blast
    from ed have e: "(case endDate event of None \<Rightarrow> None
                 | Some ed \<Rightarrow> if ed \<noteq> [] then Some ed else None) = Some ed"
      by simp
    show ?thesis
      unfolding parseVEvent_def first_summary first_uid st en first_special reparsed_def e
      by (simp add: fst fen Let_def)
  qed
qed

lemma parseVEvents_generated:
  "\<forall>e \<in> set events. isoDates e \<Longrightarrow>
     parseVEvents randomUUID i (vevents clock i events) = Inr (reparsedList randomUUID i events)"
  by (induction events arbitrary: i) (simp_all add: parseVEvent_generated)

text \<open>
  Parsing what \<open>generateICS\<close> wrote: for events whose text fields hold no line feed and
  whose dates are ISO dates, \<open>parseICS\<close> returns one event per input event, in order.
\<close>

lemma parseICS_generateICS:
  assumes "\<forall>e \<in> set events. singleLine e" and "\<forall>e \<in> set events. isoDates e"
    and "CHR 0x0A \<notin> set calendarName"
  shows "parseICS randomUUID (generateICS clock events calendarName)
           = Inr (reparsedList randomUUID 0 events)"
  by (simp add: parseICS_def ICAL_parse_generateICS [OF assms(1,3)]
      getAllSubcomponents_generateICS parseVEvents_generated [OF assms(2)])

subsection \<open>The round trip\<close>

lemma unescape_plain: "CHR 0x5C \<notin> set s \<Longrightarrow> unescape s = s"
  by (induction s rule: unescape.induct) auto

lemma splitLoop_dates:
  "map date (splitLoop tz ev e cur i) = map date (splitLoop tz ev' e cur j)"
proof (induction tz ev e cur i arbitrary: j rule: splitLoop.induct)
  case (1 tz event e current dayIndex)
  show ?case
  proof (cases "current < e")
    case True
    with "1.IH" [of "j + 1"] show ?thesis
      by (simp add: splitLoop.simps [of tz event e current dayIndex]
          splitLoop.simps [of tz ev' e current j])
  next
    case False
    then show ?thesis
      by (simp add: splitLoop.simps [of tz event e current dayIndex]
          splitLoop.simps [of tz ev' e current j])
  qed
qed

lemma split_dates_cong:
  assumes "date ev' = date ev"
    and "(case endDate ev' of None \<Rightarrow> None | Some ed \<Rightarrow> if ed \<noteq> [] then Some ed else None)
       = (case endDate ev of None \<Rightarrow> None | Some ed \<Rightarrow> if ed \<noteq> [] then Some ed else None)"
  shows "map date (splitMultiDayEvent tz ev') = map date (splitMultiDayEvent tz ev)"
proof (cases "endDate ev = None \<or> endDate ev = Some []")
  case True
  with assms(2) have "endDate ev' = None \<or> endDate ev' = Some []"
    by (cases "endDate ev'") (auto split: if_splits)
  with True assms(1) show ?thesis
    by (auto simp: splitMultiDayEvent_def)
next
  case False
  then obtain ed where ed: "endDate ev = Some ed" "ed \<noteq> []"
    by (cases "endDate ev") auto
  with assms(2) have ed': "endDate ev' = Some ed"
    by (cases "endDate ev'") (auto split: if_splits)
  show ?thesis
    using ed ed' assms(1) splitLoop_dates [of tz ev' _ _ 0 ev 0]
    by (simp add: splitMultiDayEvent_def split: option.split)
qed

lemma split_fields:
  assumes "x \<in> set (splitMultiDayEvent tz event)"
  shows "summary x = summary event" and "isHoliday x = isHoliday event"
    and "isWorkday x = isWorkday event"
proof -
  from split_frame [OF assms]
  have eq: "x\<lparr>uid := uid event, date := date event, endDate := endDate event\<rparr> = event" ..
  show "summary x = summary event"
    using arg_cong [OF eq, of summary] by simp
  show "isHoliday x = isHoliday event"
    using arg_cong [OF eq, of isHoliday] by simp
  show "isWorkday x = isWorkday event"
    using arg_cong [OF eq, of isWorkday] by simp
qed

lemma split_tuples:
  "map eventTuple (splitMultiDayEvent tz event)
     = map (\<lambda>d. (d, summary event, truthy_bool (isHoliday event),
                  truthy_bool (isWorkday event)))
         (map date (splitMultiDayEvent tz event))"
  by (simp add: eventTuple_def split_fields)

lemma reparsed_tuples:
  assumes "roundTrips event"
  shows "map eventTuple (splitMultiDayEvent tz (reparsed uuid event))
           = map eventTuple (splitMultiDayEvent tz event)"
proof -
  from assms have s: "unescape (summary event) = summary event"
    by (simp add: roundTrips_def unescape_plain)
  have d: "map date (splitMultiDayEvent tz (reparsed uuid event))
      = map date (splitMultiDayEvent tz event)"
    by (rule split_dates_cong) (auto simp: reparsed_def split: option.split)
  have f: "summary (reparsed uuid event) = summary event"
    "truthy_bool (isHoliday (reparsed uuid event)) = truthy_bool (isHoliday event)"
    "truthy_bool (isWorkday (reparsed uuid event)) = truthy_bool (isWorkday event)"
    using assms
    by (auto simp: reparsed_def s roundTrips_def flagsReadBack_def truthy_bool_def)
  show ?thesis
    unfolding split_tuples d f ..
qed

lemma reparsedList_tuples:
  "\<forall>e \<in> set events. roundTrips e \<Longrightarrow>
     map eventTuple (concat (map (splitMultiDayEvent tz) (reparsedList randomUUID i events)))
       = map eventTuple (concat (map (splitMultiDayEvent tz) events))"
  by (induction events arbitrary: i) (simp_all add: reparsed_tuples)

lemma length_reparsedList: "length (reparsedList randomUUID i events) = length events"
  by (induction events arbitrary: i) simp_all

lemma isoDate_examples:
  "isoDate ''2024-05-01''" "isoDate ''2024-10-01''" "isoDate ''2024-10-04''"
  "isoDate ''2024-02-14''"
  by (simp_all add: isoDate_def slice_def isDigit_def digit_val_def DaysInMonth_def
      InLeapYear_def DaysInYear_def)

text \<open>
  A day that does not exist is not kept: 31 February 2024 is written as \<open>20240231\<close> and
  read back, normalised, as 2 March.
\<close>

lemma nonexistent_day_normalised:
  "decodeValue ''date'' (removeHyphens ''2024-02-31'') = Some (VTime 2024 3 2)"
  "formatICALDate (VTime 2024 3 2) = ''2024-03-02''"
  by code_simp+

text \<open>
  Claim C3, as stated, fails: for an event flagged both as a day off and as a makeup
  workday \<open>generateICS\<close> writes the day-off line only, and \<open>parseICS\<close> reads the event
  back without the makeup-workday flag. The list holds one event, so no two events share
  a date and title, and the event has no end date.
\<close>

theorem roundtrip_drops_second_flag:
  "parseICS (\<lambda>i. ''uuid'') (generateICS (\<lambda>i. 0) [bothFlags] ''X'')
     = Inr [bothFlags\<lparr>isWorkday := Some False\<rparr>]
   \<and> set (map eventTuple
            (concat (map (splitMultiDayEvent 0) [bothFlags\<lparr>isWorkday := Some False\<rparr>])))
       \<noteq> set (map eventTuple (concat (map (splitMultiDayEvent 0) [bothFlags])))"
proof -
  have 1: "\<forall>e \<in> set [bothFlags]. singleLine e"
    by (simp add: singleLine_def bothFlags_def)
  have 2: "\<forall>e \<in> set [bothFlags]. isoDates e"
    by (simp add: isoDates_def isoDate_examples bothFlags_def)
  have 3: "CHR 0x0A \<notin> set ''X''"
    by simp
  have "reparsed ''uuid'' bothFlags = bothFlags\<lparr>isWorkday := Some False\<rparr>"
    by (simp add: reparsed_def bothFlags_def truthy_bool_def restMarker_def workMarker_def)
  then have "parseICS (\<lambda>i. ''uuid'') (generateICS (\<lambda>i. 0) [bothFlags] ''X'')
      = Inr [bothFlags\<lparr>isWorkday := Some False\<rparr>]"
    by (simp add: parseICS_generateICS [OF 1 2 3])
  moreover
  have "set (map eventTuple
            (concat (map (splitMultiDayEvent 0) [bothFlags\<lparr>isWorkday := Some False\<rparr>])))
       \<noteq> set (map eventTuple (concat (map (splitMultiDayEvent 0) [bothFlags])))"
    by (simp add: splitMultiDayEvent_def bothFlags_def eventTuple_def truthy_bool_def)
  ultimately show ?thesis ..
qed

text \<open>
  Claim C3, amended. Let every event hold no line feed in its uid, date, end date,
  summary and description, have as its date and (when it has a non-empty one) as its end
  date a calendar date of the form \<open>YYYY-MM-DD\<close> with a year without leading zero, have
  no backslash in its summary, and carry flags that are read back as they are; let the
  calendar name hold no line feed. Then \<open>parseICS\<close> accepts the output of \<open>generateICS\<close> and returns one event
  per input event, and splitting the parsed events yields the same
  (date, summary, day-off, makeup-workday) tuples, in the same order, as splitting the
  input events. Neither the absence of duplicate (date, title) pairs nor the order of
  date and end date is needed.
\<close>

theorem roundtrip_tuples:
  assumes "\<forall>e \<in> set events. roundTrips e" and "CHR 0x0A \<notin> set calendarName"
  shows "\<exists>parsed. parseICS randomUUID (generateICS clock events calendarName) = Inr parsed
           \<and> length parsed = length events
           \<and> map eventTuple (concat (map (splitMultiDayEvent tz) parsed))
               = map eventTuple (concat (map (splitMultiDayEvent tz) events))
           \<and> set (map eventTuple (concat (map (splitMultiDayEvent tz) parsed)))
               = set (map eventTuple (concat (map (splitMultiDayEvent tz) events)))"
proof -
  from assms(1) have 1: "\<forall>e \<in> set events. singleLine e" and 2: "\<forall>e \<in> set events. isoDates e"
    by (simp_all add: roundTrips_def)
  have p: "parseICS randomUUID (generateICS clock events calendarName)
      = Inr (reparsedList randomUUID 0 events)"
    using 1 2 assms(2) by (rule parseICS_generateICS)
  have t: "map eventTuple (concat (map (splitMultiDayEvent tz) (reparsedList randomUUID 0 events)))
      = map eventTuple (concat (map (splitMultiDayEvent tz) events))"
    using assms(1) by (rule reparsedList_tuples)
  then have "set (map eventTuple
        (concat (map (splitMultiDayEvent tz) (reparsedList randomUUID 0 events))))
      = set (map eventTuple (concat (map (splitMultiDayEvent tz) events)))"
    by (simp only:)
  with p t length_reparsedList [of randomUUID 0 events] show ?thesis
    by blast
qed

text \<open>
  The feed of the three days of National Day, with an end date, and Valentine's day,
  written at 2024-10-01T00:00:00Z and read back on a host at UTC+08:00.
\<close>

theorem roundtrip_tuples_witness:
  "roundTrips nationalDay \<and> roundTrips valentine \<and> CHR 0x0A \<notin> set ''X'' \<and>
   (\<exists>parsed. parseICS (\<lambda>i. ''uuid'')
               (generateICS (\<lambda>i. 1727740800000) [nationalDay, valentine] ''X'') = Inr parsed
     \<and> length parsed = 2
     \<and> set (map eventTuple (concat (map (splitMultiDayEvent 480) parsed)))
         = set (map eventTuple (concat (map (splitMultiDayEvent 480) [nationalDay, valentine]))))"
proof -
  have n: "roundTrips nationalDay"
    by (simp add: roundTrips_def singleLine_def isoDates_def isoDate_examples
        flagsReadBack_def nationalDay_def truthy_bool_def restMarker_def workMarker_def)
  have v: "roundTrips valentine"
    by (simp add: roundTrips_def singleLine_def isoDates_def isoDate_examples
        flagsReadBack_def valentine_def truthy_bool_def restMarker_def workMarker_def)
  from n v have a: "\<forall>e \<in> set [nationalDay, valentine]. roundTrips e"
    by simp
  have b: "CHR 0x0A \<notin> set ''X''"
    by simp
  from roundtrip_tuples [OF a b, of "\<lambda>i. ''uuid''" "\<lambda>i. 1727740800000" 480]
  obtain parsed where p: "parseICS (\<lambda>i. ''uuid'')
               (generateICS (\<lambda>i. 1727740800000) [nationalDay, valentine] ''X'') = Inr parsed"
    "length parsed = length [nationalDay, valentine]"
    "set (map eventTuple (concat (map (splitMultiDayEvent 480) parsed)))
         = set (map eventTuple (concat (map (splitMultiDayEvent 480) [nationalDay, valentine])))"
    by blast
  from p(2) have "length parsed = 2"
    by simp
  with p(1,3) n v b show ?thesis
    by blast
qed

end
